theory Spec2Isabelle
  imports Complex_Main
begin

section \<open>Geometry primitives\<close>

text \<open>
  The C++ type \<open>double\<close> is idealised as \<open>real\<close>; \<open>Vec2d\<close> is a pair of them.
  The vector operations of \<open>VecND.h\<close> are written out componentwise.
\<close>

type_synonym Vec2d = "real \<times> real"

definition vadd :: "Vec2d \<Rightarrow> Vec2d \<Rightarrow> Vec2d" where
  "vadd a b = (fst a + fst b, snd a + snd b)"

definition vsub :: "Vec2d \<Rightarrow> Vec2d \<Rightarrow> Vec2d" where
  "vsub a b = (fst a - fst b, snd a - snd b)"

definition vneg :: "Vec2d \<Rightarrow> Vec2d" where
  "vneg a = (- fst a, - snd a)"

definition smul :: "real \<Rightarrow> Vec2d \<Rightarrow> Vec2d" where
  "smul c a = (c * fst a, c * snd a)"

definition sdiv :: "Vec2d \<Rightarrow> real \<Rightarrow> Vec2d" where
  "sdiv a c = (fst a / c, snd a / c)"

definition norm_sqr :: "Vec2d \<Rightarrow> real" where
  "norm_sqr a = fst a * fst a + snd a * snd a"

definition vnorm :: "Vec2d \<Rightarrow> real" where
  "vnorm a = sqrt (norm_sqr a)"

text \<open>The macro \<open>MIN\<close> of \<open>utils.h\<close>.\<close>

definition MIN_of :: "real \<Rightarrow> real \<Rightarrow> real" where
  "MIN_of a b = (if a < b then a else b)"

section \<open>Vertices, edges and their containers\<close>

text \<open>
  Pointers \<open>Vertex*\<close> and \<open>Edge*\<close> are addresses (\<open>vid\<close>, \<open>eid\<close>); a null pointer is
  \<open>None\<close>. A container is the order of its elements together with the store that maps
  an address to the object living there.
\<close>

type_synonym vid = nat
type_synonym eid = nat

record Vertex =
  xy :: Vec2d
  on_front :: bool
  on_boundary :: bool
  is_fixed :: bool

record Edge =
  v1 :: vid
  v2 :: vid
  marker :: int
  twin_edge :: "eid option"
  e_length :: real
  tangent :: Vec2d
  normal :: Vec2d
  e_xy :: Vec2d

record Vertices =
  verts :: "vid list"
  vertex_at :: "vid \<Rightarrow> Vertex"

record EdgeList =
  edges :: "eid list"
  edge_at :: "eid \<Rightarrow> Edge"

datatype fault = StructuralAssertion | OutOfBounds | NullDereference

text \<open>
  The collaborators whose code is outside the three source files: the domain's size
  function, \<open>angle\<close> and \<open>is_left\<close> of \<open>Geometry.h\<close>, the constant
  \<open>CONSTANTS.quad_layer_angle()\<close>, the connectivity queries of \<open>Edge.h\<close>,
  \<open>EdgeList::split_edge\<close> and the \<open>mark_objects\<close> of a plain \<open>EdgeList\<close> (the boundary
  edges of the mesh). They are parameters of the model, and so is the macro \<open>NDEBUG\<close>
  (\<open>ndebug\<close>: the checks under \<open>#ifndef NDEBUG\<close> are compiled out).
\<close>

record env =
  size_function :: "Vec2d \<Rightarrow> real"
  angle :: "Vec2d \<Rightarrow> Vec2d \<Rightarrow> real"
  is_left :: "Vec2d \<Rightarrow> Vec2d \<Rightarrow> Vec2d \<Rightarrow> bool"
  quad_layer_angle :: real
  get_next_edge :: "EdgeList \<Rightarrow> eid \<Rightarrow> eid option"
  get_prev_edge :: "EdgeList \<Rightarrow> eid \<Rightarrow> eid option"
  split_edge :: "EdgeList \<Rightarrow> Vertices \<Rightarrow> eid \<Rightarrow> real \<Rightarrow> bool
                   \<Rightarrow> (EdgeList \<times> Vertices) \<times> (eid \<times> eid)"
  list_mark_objects :: "vid \<Rightarrow> vid \<Rightarrow> Vertices \<Rightarrow> Vertices"
  ndebug :: bool

subsection \<open>Container operations\<close>

text \<open>
  Modelled from the spec: \<open>EdgeList.h\<close> and the vertex container are not among the
  source files. \<open>get_edge(v1, v2)\<close> is the lookup by ordered endpoint pair,
  \<open>remove\<close> takes the edge out of the list, \<open>insert_edge(pos, v1, v2, marker)\<close> creates
  an edge with a null twin before \<open>pos\<close> and calls the virtual \<open>mark_objects\<close>;
  a new edge caches its length, its tangent \<open>(v2 - v1) / length\<close>, its normal (the
  tangent rotated by +90 degrees) and its midpoint. \<open>Vertices::insert(pos, xy)\<close> creates
  a vertex with the given coordinates before \<open>pos\<close>, \<open>push_back\<close> at the end.
\<close>

definition fresh :: "nat list \<Rightarrow> nat" where
  "fresh xs = Suc (fold max xs 0)"

fun insert_before :: "nat \<Rightarrow> nat \<Rightarrow> nat list \<Rightarrow> nat list" where
  "insert_before pos x [] = [x]"
| "insert_before pos x (y # ys) = (if y = pos then x # y # ys else y # insert_before pos x ys)"

definition get_edge :: "EdgeList \<Rightarrow> vid \<Rightarrow> vid \<Rightarrow> eid option" where
  "get_edge l a b = find (\<lambda>e. v1 (edge_at l e) = a \<and> v2 (edge_at l e) = b) (edges l)"

definition remove :: "EdgeList \<Rightarrow> eid \<Rightarrow> EdgeList" where
  "remove l e = l\<lparr>edges := removeAll e (edges l)\<rparr>"

definition new_edge :: "Vertices \<Rightarrow> vid \<Rightarrow> vid \<Rightarrow> int \<Rightarrow> Edge" where
  "new_edge vs a b m =
     (let pa = xy (vertex_at vs a);
          pb = xy (vertex_at vs b);
          d = vsub pb pa;
          len = vnorm d;
          t = sdiv d len
      in \<lparr>v1 = a, v2 = b, marker = m, twin_edge = None, e_length = len,
          tangent = t, normal = (- snd t, fst t), e_xy = smul (1 / 2) (vadd pa pb)\<rparr>)"

definition insert_edge ::
  "(vid \<Rightarrow> vid \<Rightarrow> Vertices \<Rightarrow> Vertices) \<Rightarrow> EdgeList \<Rightarrow> Vertices \<Rightarrow> eid \<Rightarrow> vid \<Rightarrow> vid \<Rightarrow> int
     \<Rightarrow> (EdgeList \<times> Vertices) \<times> eid" where
  "insert_edge mark l vs pos a b m =
     (let e = fresh (edges l)
      in ((l\<lparr>edges := insert_before pos e (edges l),
              edge_at := (edge_at l)(e := new_edge vs a b m)\<rparr>,
           mark a b vs), e))"

definition new_vertex :: "Vec2d \<Rightarrow> Vertex" where
  "new_vertex p = \<lparr>xy = p, on_front = False, on_boundary = False, is_fixed = False\<rparr>"

definition insert_vertex :: "Vertices \<Rightarrow> vid \<Rightarrow> Vec2d \<Rightarrow> Vertices \<times> vid" where
  "insert_vertex vs pos p =
     (let v = fresh (verts vs)
      in (vs\<lparr>verts := insert_before pos v (verts vs),
             vertex_at := (vertex_at vs)(v := new_vertex p)\<rparr>, v))"

text \<open>\<open>Front::mark_objects\<close>: both end vertices of a new front edge are on the front.\<close>

definition mark_objects :: "vid \<Rightarrow> vid \<Rightarrow> Vertices \<Rightarrow> Vertices" where
  "mark_objects a b vs =
     (let vs1 = vs\<lparr>vertex_at := (vertex_at vs)(a := (vertex_at vs a)\<lparr>on_front := True\<rparr>)\<rparr>
      in vs1\<lparr>vertex_at := (vertex_at vs1)(b := (vertex_at vs1 b)\<lparr>on_front := True\<rparr>)\<rparr>)"

section \<open>QuadLayer\<close>

record QuadLayer =
  e_start :: eid
  e_end :: eid
  is_closed :: bool
  height :: real
  base_edges :: "eid list"
  base_v1 :: "vid list"
  base_v2 :: "vid list"
  proj_v1 :: "vid option list"
  proj_v2 :: "vid option list"
  proj_v1_xy :: "Vec2d list"
  proj_v2_xy :: "Vec2d list"
  heights :: "real list"

text \<open>
  \<open>QuadLayer::smooth_heights\<close>. The loop bound \<open>heights_.size()-1\<close> is unsigned: on an
  empty array it wraps to the largest \<open>size_t\<close> and the first iteration reads
  \<open>heights_[0]\<close> out of bounds.
\<close>

definition smooth_step :: "env \<Rightarrow> EdgeList \<Rightarrow> nat \<Rightarrow> QuadLayer \<Rightarrow> QuadLayer" where
  "smooth_step E front i ql =
     (let h1 = heights ql ! (i - 1);
          h2 = heights ql ! i;
          h3 = heights ql ! (i + 1);
          c = e_xy (edge_at front (base_edges ql ! i));
          rho = size_function E c
      in ql\<lparr>heights := (heights ql)[i := MIN_of rho ((h1 + h2 + h3) / 3)]\<rparr>)"

definition smooth_heights :: "env \<Rightarrow> EdgeList \<Rightarrow> QuadLayer \<Rightarrow> fault + QuadLayer" where
  "smooth_heights E front ql =
     (if heights ql = [] then Inl OutOfBounds
      else Inr (fold (smooth_step E front) [1 ..< length (heights ql) - 1] ql))"


subsection \<open>Construction\<close>

text \<open>\<open>QuadLayer::add_quadlayer_edge\<close>.\<close>

definition add_quadlayer_edge :: "EdgeList \<Rightarrow> Vertices \<Rightarrow> eid \<Rightarrow> QuadLayer \<Rightarrow> QuadLayer" where
  "add_quadlayer_edge front vs e_cur ql =
     (let ed = edge_at front e_cur;
          h = MIN_of (height ql) (e_length ed)
      in ql\<lparr>base_edges := base_edges ql @ [e_cur],
             base_v1 := base_v1 ql @ [v1 ed],
             base_v2 := base_v2 ql @ [v2 ed],
             heights := heights ql @ [h],
             proj_v1_xy := proj_v1_xy ql @ [vadd (xy (vertex_at vs (v1 ed))) (smul h (normal ed))],
             proj_v2_xy := proj_v2_xy ql @ [vadd (xy (vertex_at vs (v2 ed))) (smul h (normal ed))],
             proj_v1 := proj_v1 ql @ [None],
             proj_v2 := proj_v2 ql @ [None]\<rparr>)"

text \<open>
  The \<open>do ... while ( e_cur != e_end_ )\<close> loop of the constructor. The loop has no bound
  of its own, so the model is a partial function: \<open>None\<close> is a walk that never ends,
  \<open>Some (Inl StructuralAssertion)\<close> the failed \<open>ASSERT( e_cur, ... )\<close>.
\<close>

partial_function (option) QuadLayer_walk ::
  "env \<Rightarrow> EdgeList \<Rightarrow> Vertices \<Rightarrow> eid option \<Rightarrow> QuadLayer \<Rightarrow> (fault + QuadLayer) option" where
  "QuadLayer_walk E front vs e_cur ql =
     (case e_cur of
        None \<Rightarrow> Some (Inl StructuralAssertion)
      | Some e \<Rightarrow>
          (if get_next_edge E front e \<noteq> Some (e_end ql)
           then QuadLayer_walk E front vs (get_next_edge E front e) (add_quadlayer_edge front vs e ql)
           else Some (Inr (add_quadlayer_edge front vs e ql))))"

definition QuadLayer_init :: "eid \<Rightarrow> eid \<Rightarrow> bool \<Rightarrow> real \<Rightarrow> QuadLayer" where
  "QuadLayer_init es ee cl h =
     \<lparr>e_start = es, e_end = ee, is_closed = cl, height = h,
      base_edges = [], base_v1 = [], base_v2 = [], proj_v1 = [], proj_v2 = [],
      proj_v1_xy = [], proj_v2_xy = [], heights = []\<rparr>"

definition QuadLayer_ctor ::
  "env \<Rightarrow> EdgeList \<Rightarrow> Vertices \<Rightarrow> eid \<Rightarrow> eid \<Rightarrow> bool \<Rightarrow> real \<Rightarrow> (fault + QuadLayer) option" where
  "QuadLayer_ctor E front vs es ee cl h =
     (case QuadLayer_walk E front vs (Some es) (QuadLayer_init es ee cl h) of
        None \<Rightarrow> None
      | Some (Inl f) \<Rightarrow> Some (Inl f)
      | Some (Inr ql) \<Rightarrow> Some (Inr (add_quadlayer_edge front vs ee ql)))"

text \<open>A path of edges along the next-edge links.\<close>

fun chain :: "(eid \<Rightarrow> eid option) \<Rightarrow> eid list \<Rightarrow> bool" where
  "chain nxt [] = True"
| "chain nxt [a] = True"
| "chain nxt (a # b # es) = (nxt a = Some b \<and> chain nxt (b # es))"

subsection \<open>Interior joints\<close>

text \<open>\<open>QuadLayer::adjust_projected_vertex_coordinates\<close>.\<close>

definition is_wedge :: "env \<Rightarrow> Vertices \<Rightarrow> QuadLayer \<Rightarrow> nat \<Rightarrow> nat \<Rightarrow> bool" where
  "is_wedge E vs ql i j =
     (let p = xy (vertex_at vs (base_v1 ql ! i));
          q = xy (vertex_at vs (base_v1 ql ! j));
          r = xy (vertex_at vs (base_v2 ql ! j));
          alpha = angle E (vsub p q) (vsub r q)
      in is_left E p r q \<and> alpha \<le> quad_layer_angle E)"

definition xy_proj_of :: "env \<Rightarrow> EdgeList \<Rightarrow> Vertices \<Rightarrow> QuadLayer \<Rightarrow> nat \<Rightarrow> nat \<Rightarrow> Vec2d" where
  "xy_proj_of E front vs ql i j =
     (let p = xy (vertex_at vs (base_v1 ql ! i));
          q = xy (vertex_at vs (base_v1 ql ! j));
          r = xy (vertex_at vs (base_v2 ql ! j));
          alpha = angle E (vsub p q) (vsub r q);
          n1 = normal (edge_at front (base_edges ql ! i));
          l1 = heights ql ! i;
          n2 = normal (edge_at front (base_edges ql ! j));
          l2 = heights ql ! j;
          nrm = smul (1 / 2) (vadd n1 n2);
          l = (1 / 2) * (l1 + l2);
          nn = sdiv nrm (vnorm nrm)
      in vadd q (sdiv (smul l nn) (sin ((1 / 2) * alpha))))"

definition adjust_projected_vertex_coordinates ::
  "env \<Rightarrow> EdgeList \<Rightarrow> Vertices \<Rightarrow> nat \<Rightarrow> nat \<Rightarrow> QuadLayer \<Rightarrow> QuadLayer" where
  "adjust_projected_vertex_coordinates E front vs i j ql =
     (if is_wedge E vs ql i j then ql
      else ql\<lparr>proj_v1_xy := (proj_v1_xy ql)[j := xy_proj_of E front vs ql i j],
              proj_v2_xy := (proj_v2_xy ql)[i := xy_proj_of E front vs ql i j]\<rparr>)"

subsection \<open>End points of an open layer\<close>

text \<open>
  \<open>QuadLayer::place_start_vertex\<close>. The result is the layer together with the vertex
  container, the front and the boundary edges, all three of which the split branch
  changes. \<open>e_prv->v2() == v_start\<close> compares the two vertices by identity. With a height
  of zero the division of doubles in \<open>d_fac\<close> yields infinity or NaN, and \<open>d_fac < 1.0\<close>
  is false; the division of HOL yields \<open>0\<close> there, so the model states \<open>h \<noteq> 0\<close> with the
  comparison.
\<close>

definition place_start_vertex ::
  "env \<Rightarrow> Vertices \<Rightarrow> EdgeList \<Rightarrow> EdgeList \<Rightarrow> QuadLayer
     \<Rightarrow> fault + (QuadLayer \<times> Vertices \<times> EdgeList \<times> EdgeList)" where
  "place_start_vertex E vs front bdry ql =
     (if base_v1 ql = [] then Inl OutOfBounds
      else case get_prev_edge E front (e_start ql) of
        None \<Rightarrow> Inl StructuralAssertion
      | Some e_prv \<Rightarrow>
          let v_start = base_v1 ql ! 0 in
          if v2 (edge_at front e_prv) \<noteq> v_start then Inl StructuralAssertion
          else
            let v_prev = v1 (edge_at front e_prv) in
            if \<not> is_left E (xy (vertex_at vs (base_v1 ql ! 0)))
                            (xy (vertex_at vs (base_v2 ql ! 0)))
                            (xy (vertex_at vs v_prev))
            then Inr (ql, vs, front, bdry)
            else
              let h = heights ql ! 0;
                  d_fac = vnorm (vsub (xy (vertex_at vs v_prev)) (proj_v1_xy ql ! 0)) / h
              in
              if h \<noteq> 0 \<and> d_fac < 1
              then Inr (ql\<lparr>proj_v1 := (proj_v1 ql)[0 := Some v_prev]\<rparr>, vs, front, bdry)
              else if h < e_length (edge_at front e_prv)
              then
                (let d1 = vsub (xy (vertex_at vs v_prev)) (xy (vertex_at vs v_start));
                     d2 = vsub (proj_v1_xy ql ! 0) (xy (vertex_at vs v_start));
                     alpha = angle E d1 d2;
                     ang_fac = cos alpha;
                     sf = (h * ang_fac) / e_length (edge_at front e_prv)
                 in case get_edge bdry (v1 (edge_at front e_prv)) (v2 (edge_at front e_prv)) of
                      None \<Rightarrow>
                        (let ((front', vs'), (e1, e2)) = split_edge E front vs e_prv sf False;
                             v_new = v2 (edge_at front' e1)
                         in Inr (ql\<lparr>proj_v1 := (proj_v1 ql)[0 := Some v_new],
                                    proj_v1_xy := (proj_v1_xy ql)[0 := xy (vertex_at vs' v_new)]\<rparr>,
                                 vs', front', bdry))
                    | Some e_bdry_rem \<Rightarrow>
                        (case get_next_edge E bdry e_bdry_rem of
                           None \<Rightarrow> Inl StructuralAssertion
                         | Some tmp \<Rightarrow>
                             (let bdry1 = remove bdry e_bdry_rem;
                                  ((front', vs'), (e1, e2)) = split_edge E front vs e_prv sf False;
                                  ((bdry2, vs2), n1) =
                                     insert_edge (list_mark_objects E) bdry1 vs' tmp
                                       (v1 (edge_at front' e1)) (v2 (edge_at front' e1))
                                       (marker (edge_at front' e1));
                                  ((bdry3, vs3), n2) =
                                     insert_edge (list_mark_objects E) bdry2 vs2 tmp
                                       (v1 (edge_at front' e2)) (v2 (edge_at front' e2))
                                       (marker (edge_at front' e2));
                                  v_new = v2 (edge_at front' e1)
                              in Inr (ql\<lparr>proj_v1 := (proj_v1 ql)[0 := Some v_new],
                                         proj_v1_xy := (proj_v1_xy ql)[0 := xy (vertex_at vs3 v_new)]\<rparr>,
                                      vs3, front', bdry3))))
              else Inr (ql\<lparr>proj_v1 := (proj_v1 ql)[0 := Some v_prev],
                           proj_v1_xy := (proj_v1_xy ql)[0 := xy (vertex_at vs v_prev)]\<rparr>,
                        vs, front, bdry))"

text \<open>
  \<open>QuadLayer::place_end_vertex\<close>; \<open>back()\<close> is the entry at index \<open>size() - 1\<close>. The
  comparison \<open>d_fac < 1.0\<close> is false for a height of zero, as in \<open>place_start_vertex\<close>.
\<close>

definition place_end_vertex ::
  "env \<Rightarrow> Vertices \<Rightarrow> EdgeList \<Rightarrow> EdgeList \<Rightarrow> QuadLayer
     \<Rightarrow> fault + (QuadLayer \<times> Vertices \<times> EdgeList \<times> EdgeList)" where
  "place_end_vertex E vs front bdry ql =
     (if base_v2 ql = [] then Inl OutOfBounds
      else case get_next_edge E front (e_end ql) of
        None \<Rightarrow> Inl StructuralAssertion
      | Some e_nxt \<Rightarrow>
          let v_end = last (base_v2 ql) in
          if v1 (edge_at front e_nxt) \<noteq> v_end then Inl StructuralAssertion
          else
            let v_next = v2 (edge_at front e_nxt) in
            if \<not> is_left E (xy (vertex_at vs (last (base_v1 ql))))
                            (xy (vertex_at vs (last (base_v2 ql))))
                            (xy (vertex_at vs v_next))
            then Inr (ql, vs, front, bdry)
            else
              let k = length (proj_v2 ql) - 1;
                  kx = length (proj_v2_xy ql) - 1;
                  h = last (heights ql);
                  d_fac = vnorm (vsub (xy (vertex_at vs v_next)) (last (proj_v2_xy ql))) / h
              in
              if h \<noteq> 0 \<and> d_fac < 1
              then Inr (ql\<lparr>proj_v2 := (proj_v2 ql)[k := Some v_next]\<rparr>, vs, front, bdry)
              else if h < e_length (edge_at front e_nxt)
              then
                (let d1 = vsub (xy (vertex_at vs v_next)) (xy (vertex_at vs v_end));
                     d2 = vsub (last (proj_v2_xy ql)) (xy (vertex_at vs v_end));
                     alpha = angle E d1 d2;
                     ang_fac = cos alpha;
                     sf = 1 - (h * ang_fac) / e_length (edge_at front e_nxt)
                 in case get_edge bdry (v1 (edge_at front e_nxt)) (v2 (edge_at front e_nxt)) of
                      None \<Rightarrow>
                        (let ((front', vs'), (e1, e2)) = split_edge E front vs e_nxt sf False;
                             v_new = v2 (edge_at front' e1)
                         in Inr (ql\<lparr>proj_v2 := (proj_v2 ql)[k := Some v_new],
                                    proj_v2_xy := (proj_v2_xy ql)[kx := xy (vertex_at vs' v_new)]\<rparr>,
                                 vs', front', bdry))
                    | Some e_bdry_rem \<Rightarrow>
                        (case get_next_edge E bdry e_bdry_rem of
                           None \<Rightarrow> Inl StructuralAssertion
                         | Some tmp \<Rightarrow>
                             (let bdry1 = remove bdry e_bdry_rem;
                                  ((front', vs'), (e1, e2)) = split_edge E front vs e_nxt sf False;
                                  ((bdry2, vs2), n1) =
                                     insert_edge (list_mark_objects E) bdry1 vs' tmp
                                       (v1 (edge_at front' e1)) (v2 (edge_at front' e1))
                                       (marker (edge_at front' e1));
                                  ((bdry3, vs3), n2) =
                                     insert_edge (list_mark_objects E) bdry2 vs2 tmp
                                       (v1 (edge_at front' e2)) (v2 (edge_at front' e2))
                                       (marker (edge_at front' e2));
                                  v_new = v2 (edge_at front' e1)
                              in Inr (ql\<lparr>proj_v2 := (proj_v2 ql)[k := Some v_new],
                                         proj_v2_xy := (proj_v2_xy ql)[kx := xy (vertex_at vs3 v_new)]\<rparr>,
                                      vs3, front', bdry3))))
              else Inr (ql\<lparr>proj_v2 := (proj_v2 ql)[k := Some v_next],
                           proj_v2_xy := (proj_v2_xy ql)[kx := xy (vertex_at vs v_next)]\<rparr>,
                        vs, front, bdry))"

subsection \<open>Projection setup\<close>

text \<open>
  \<open>QuadLayer::setup_vertex_projection\<close>. The mesh contributes its vertex container and
  its boundary edges. On an empty layer the closing call would index with \<open>-1\<close>.
\<close>

definition setup_vertex_projection ::
  "env \<Rightarrow> Vertices \<Rightarrow> EdgeList \<Rightarrow> EdgeList \<Rightarrow> QuadLayer
     \<Rightarrow> fault + (QuadLayer \<times> Vertices \<times> EdgeList \<times> EdgeList)" where
  "setup_vertex_projection E vs front bdry ql =
     (let ql1 = fold (\<lambda>i. adjust_projected_vertex_coordinates E front vs (i - 1) i)
                     [1 ..< length (base_edges ql)] ql
      in if is_closed ql
         then (if base_edges ql = [] then Inl OutOfBounds
               else Inr (adjust_projected_vertex_coordinates E front vs
                           (length (base_edges ql) - 1) 0 ql1, vs, front, bdry))
         else (case place_start_vertex E vs front bdry ql1 of
                 Inl f \<Rightarrow> Inl f
               | Inr (ql2, vs2, front2, bdry2) \<Rightarrow> place_end_vertex E vs2 front2 bdry2 ql2))"

text \<open>
  What the spec calls the reconciliation of a joint \<open>(i, j)\<close>, in its own words: on a
  wedge the two projected coordinates of the layer \<open>ql'\<close> are the ones \<open>ql\<close> was
  constructed with; otherwise both are the merged coordinate \<open>q + n \<cdot> l / sin(\<alpha>/2)\<close>,
  with \<open>n\<close> the normalised mean of the two base normals and \<open>l\<close> the mean of the two
  heights.
\<close>

definition merged_coordinate :: "env \<Rightarrow> EdgeList \<Rightarrow> Vertices \<Rightarrow> QuadLayer \<Rightarrow> nat \<Rightarrow> nat \<Rightarrow> Vec2d" where
  "merged_coordinate E front vs ql i j =
     (let p = xy (vertex_at vs (base_v1 ql ! i));
          q = xy (vertex_at vs (base_v1 ql ! j));
          r = xy (vertex_at vs (base_v2 ql ! j));
          alpha = angle E (vsub p q) (vsub r q);
          mean = smul (1 / 2) (vadd (normal (edge_at front (base_edges ql ! i)))
                                    (normal (edge_at front (base_edges ql ! j))));
          n = sdiv mean (vnorm mean);
          l = (heights ql ! i + heights ql ! j) / 2
      in vadd q (sdiv (smul l n) (sin (alpha / 2))))"

definition joint_reconciled ::
  "env \<Rightarrow> EdgeList \<Rightarrow> Vertices \<Rightarrow> QuadLayer \<Rightarrow> QuadLayer \<Rightarrow> nat \<Rightarrow> nat \<Rightarrow> bool" where
  "joint_reconciled E front vs ql ql' i j =
     (if is_wedge E vs ql i j
      then proj_v2_xy ql' ! i = proj_v2_xy ql ! i \<and> proj_v1_xy ql' ! j = proj_v1_xy ql ! j
      else proj_v2_xy ql' ! i = merged_coordinate E front vs ql i j \<and>
           proj_v1_xy ql' ! j = merged_coordinate E front vs ql i j)"

text \<open>Two layers that differ at most in their projection state.\<close>

definition same_bases :: "QuadLayer \<Rightarrow> QuadLayer \<Rightarrow> bool" where
  "same_bases ql ql' =
     (e_start ql' = e_start ql \<and> e_end ql' = e_end ql \<and> is_closed ql' = is_closed ql \<and>
      height ql' = height ql \<and> base_edges ql' = base_edges ql \<and> base_v1 ql' = base_v1 ql \<and>
      base_v2 ql' = base_v2 ql \<and> heights ql' = heights ql \<and>
      length (proj_v1 ql') = length (proj_v1 ql) \<and> length (proj_v2 ql') = length (proj_v2 ql) \<and>
      length (proj_v1_xy ql') = length (proj_v1_xy ql) \<and>
      length (proj_v2_xy ql') = length (proj_v2_xy ql))"


section \<open>Front: refinement\<close>

text \<open>
  The front is the \<open>EdgeList\<close> it inherits from; its base cursor takes no part in the
  refinement and is left out. \<open>Front::get_edges_to_refine\<close>.
\<close>

definition get_edges_to_refine :: "EdgeList \<Rightarrow> eid list" where
  "get_edges_to_refine front = filter (\<lambda>e. twin_edge (edge_at front e) = None) (edges front)"

text \<open>
  The \<open>while ( true )\<close> loop of \<open>Front::create_sub_vertex_coords\<close>: predictor, corrector,
  and the exit once the abscissa \<open>s\<close> exceeds \<open>s_end\<close>. It returns the points and the last
  abscissa; \<open>None\<close> is a loop that never ends.
\<close>

partial_function (option) sub_vertex_loop ::
  "(Vec2d \<Rightarrow> real) \<Rightarrow> Vec2d \<Rightarrow> Vec2d \<Rightarrow> real \<Rightarrow> real \<Rightarrow> Vec2d \<Rightarrow> Vec2d list
     \<Rightarrow> (Vec2d list \<times> real) option" where
  "sub_vertex_loop rho_f xy_a tang len s_end xy_cur xy_new =
     (let rho = rho_f xy_cur;
          xy_p = vadd xy_cur (smul rho tang);
          rho_p = rho_f xy_p;
          dxy_c = smul ((1 / 2) * (rho + rho_p)) tang;
          xy_c = vadd xy_cur dxy_c;
          l = vnorm (vsub xy_c xy_a);
          s = l / len
      in if s > s_end then Some (xy_new @ [xy_c], s)
         else sub_vertex_loop rho_f xy_a tang len s_end xy_c (xy_new @ [xy_c]))"

text \<open>The check under \<open>#ifndef NDEBUG\<close>: the distances from the first point ascend strictly.\<close>

fun ascending :: "real \<Rightarrow> real list \<Rightarrow> bool" where
  "ascending s_prev [] = True"
| "ascending s_prev (s # ss) = (s > s_prev \<and> ascending s ss)"

text \<open>
  The second half of \<open>Front::create_sub_vertex_coords\<close>: the last point becomes the end
  vertex, and the cropped distance \<open>d_cr\<close> is distributed among the interior points
  (the entries \<open>1 .. size-2\<close>) in proportion to their size-function values, which are
  read before any point is shifted.
\<close>

definition distribute_cropped ::
  "(Vec2d \<Rightarrow> real) \<Rightarrow> Vec2d list \<Rightarrow> Vec2d \<Rightarrow> Vec2d \<Rightarrow> Vec2d list" where
  "distribute_cropped rho_f xy_loop xy_b d_cr =
     (let xy_new = xy_loop[length xy_loop - 1 := xy_b];
          inner = butlast (tl xy_new);
          rho_i = [0] @ map rho_f inner @ [0];
          rho_tot = sum_list rho_i;
          rho_n = map (\<lambda>v. v / rho_tot) rho_i
      in [hd xy_new] @ map (\<lambda>(p, w). vadd p (smul w d_cr)) (zip inner (tl rho_n)) @
         [last xy_new])"

text \<open>\<open>Front::create_sub_vertex_coords\<close>.\<close>

definition create_sub_vertex_coords ::
  "env \<Rightarrow> Vertices \<Rightarrow> Edge \<Rightarrow> bool \<Rightarrow> real \<Rightarrow> real \<Rightarrow> (fault + Vec2d list) option" where
  "create_sub_vertex_coords E vs e dir rho_1 rho_2 =
     (let v_a = (if dir then v1 e else v2 e);
          v_b = (if dir then v2 e else v1 e);
          tang = (if dir then tangent e else vneg (tangent e));
          rho_b = (if dir then rho_2 else rho_1);
          s_end = 1 - (1 / 2) * rho_b / e_length e
      in case sub_vertex_loop (size_function E) (xy (vertex_at vs v_a)) tang (e_length e) s_end
                (xy (vertex_at vs v_a)) [xy (vertex_at vs v_a)] of
           None \<Rightarrow> None
         | Some (xy_loop, s_last) \<Rightarrow>
             (let d_cr = smul ((1 - s_last) * e_length e) tang;
                  xy_new = distribute_cropped (size_function E) xy_loop (xy (vertex_at vs v_b)) d_cr
              in if \<not> ndebug E \<and>
                    \<not> ascending 0 (map (\<lambda>p. vnorm (vsub p (hd xy_new))) (tl xy_new))
                 then Some (Inl StructuralAssertion)
                 else Some (Inr (if \<not> dir then rev xy_new else xy_new))))"

text \<open>
  \<open>Front::create_sub_edges\<close>: one new vertex and one new edge per interior point, then
  the closing edge; every edge is inserted before \<open>e\<close>, which stays in the list.
\<close>

definition set_is_fixed :: "vid \<Rightarrow> Vertices \<Rightarrow> Vertices" where
  "set_is_fixed v vs = vs\<lparr>vertex_at := (vertex_at vs)(v := (vertex_at vs v)\<lparr>is_fixed := True\<rparr>)\<rparr>"

definition set_on_boundary :: "vid \<Rightarrow> Vertices \<Rightarrow> Vertices" where
  "set_on_boundary v vs =
     vs\<lparr>vertex_at := (vertex_at vs)(v := (vertex_at vs v)\<lparr>on_boundary := True\<rparr>)\<rparr>"

definition insert_sub_edge ::
  "eid \<Rightarrow> vid \<Rightarrow> vid \<Rightarrow> Vertices \<times> EdgeList \<Rightarrow> Vertices \<times> EdgeList" where
  "insert_sub_edge e a b st =
     (let (vs, front) = st;
          ((front1, vs1), e_new) =
             insert_edge mark_objects front vs e a b (marker (edge_at front e));
          vs2 = set_on_boundary (v1 (edge_at front1 e_new)) vs1;
          vs3 = set_on_boundary (v2 (edge_at front1 e_new)) vs2
      in (vs3, front1))"

definition sub_edge_step ::
  "eid \<Rightarrow> Vec2d \<Rightarrow> (Vertices \<times> EdgeList) \<times> vid \<Rightarrow> (Vertices \<times> EdgeList) \<times> vid" where
  "sub_edge_step e p st =
     (let ((vs, front), v_cur) = st;
          (vs1, v_n) = insert_vertex vs (v2 (edge_at front e)) p;
          vs2 = set_is_fixed v_n vs1
      in (insert_sub_edge e v_cur v_n (vs2, front), v_n))"

definition create_sub_edges ::
  "Vertices \<Rightarrow> EdgeList \<Rightarrow> eid \<Rightarrow> Vec2d list \<Rightarrow> Vertices \<times> EdgeList" where
  "create_sub_edges vs front e xy_new =
     (let (st, v_cur) = fold (sub_edge_step e) (butlast (tl xy_new))
                             ((vs, front), v1 (edge_at front e))
      in insert_sub_edge e v_cur (v2 (edge_at (snd st) e)) st)"

text \<open>\<open>Front::refine_edge\<close>: the flag says whether the edge was refined.\<close>

definition refine_edge ::
  "env \<Rightarrow> Vertices \<Rightarrow> EdgeList \<Rightarrow> eid \<Rightarrow> (fault + (bool \<times> Vertices \<times> EdgeList)) option" where
  "refine_edge E vs front edge =
     (let rho_1 = size_function E (xy (vertex_at vs (v1 (edge_at front edge))));
          rho_2 = size_function E (xy (vertex_at vs (v2 (edge_at front edge))));
          dir = (rho_1 < rho_2)
      in case create_sub_vertex_coords E vs (edge_at front edge) dir rho_1 rho_2 of
           None \<Rightarrow> None
         | Some (Inl f) \<Rightarrow> Some (Inl f)
         | Some (Inr xy_new) \<Rightarrow>
             if length xy_new < 3 then Some (Inr (False, vs, front))
             else Some (Inr (True, create_sub_edges vs front edge xy_new)))"

text \<open>
  \<open>Front::refine_front_edges\<close>: the loop over the edges to refine collects the refined
  ones, which are removed afterwards. The result is the number of new edges. The final
  \<open>compute_area()\<close> refreshes the cached area of the list, which the model does not
  carry.
\<close>

fun refine_loop ::
  "env \<Rightarrow> eid list \<Rightarrow> Vertices \<Rightarrow> EdgeList \<Rightarrow> eid list
     \<Rightarrow> (fault + (Vertices \<times> EdgeList \<times> eid list)) option" where
  "refine_loop E [] vs front edges_to_remove = Some (Inr (vs, front, edges_to_remove))"
| "refine_loop E (cur_edge # rest) vs front edges_to_remove =
     (case refine_edge E vs front cur_edge of
        None \<Rightarrow> None
      | Some (Inl f) \<Rightarrow> Some (Inl f)
      | Some (Inr (refined, vs', front')) \<Rightarrow>
          refine_loop E rest vs' front'
            (if refined then edges_to_remove @ [cur_edge] else edges_to_remove))"

definition refine_front_edges ::
  "env \<Rightarrow> Vertices \<Rightarrow> EdgeList \<Rightarrow> (fault + (int \<times> Vertices \<times> EdgeList)) option" where
  "refine_front_edges E vs front =
     (let n_before = int (length (edges front));
          edges_to_refine = get_edges_to_refine front
      in case refine_loop E edges_to_refine vs front [] of
           None \<Rightarrow> None
         | Some (Inl f) \<Rightarrow> Some (Inl f)
         | Some (Inr (vs', front', edges_to_remove)) \<Rightarrow>
             (let front'' = fold (\<lambda>cur_edge l. remove l cur_edge) edges_to_remove front'
              in Some (Inr (int (length (edges front'')) - n_before, vs', front''))))"

text \<open>
  The list \<open>l'\<close> extends \<open>l\<close>: the edges of \<open>l\<close> are unchanged and still stand in \<open>l'\<close> in
  their order, and every other edge of \<open>l'\<close> has a null twin.
\<close>

definition extends :: "EdgeList \<Rightarrow> EdgeList \<Rightarrow> bool" where
  "extends l l' =
     ((\<forall>e\<in>set (edges l). edge_at l' e = edge_at l e) \<and>
      filter (\<lambda>e. e \<in> set (edges l)) (edges l') = edges l \<and>
      (\<forall>e\<in>set (edges l'). e \<notin> set (edges l) \<longrightarrow> twin_edge (edge_at l' e) = None))"




section \<open>FrontQuadLayering\<close>

text \<open>
  The attributes of the driver together with what it works on: the vertices and the
  boundary edges of the mesh and the advancing front.
\<close>

record Layering =
  n_layers :: nat
  first_height :: real
  growth_rate :: real
  xy_start :: Vec2d
  xy_end :: Vec2d
  mesh_verts :: Vertices
  advancing_front :: EdgeList
  boundary_edges :: EdgeList

text \<open>
  The collaborators of the driver whose code is outside the three source files:
  \<open>Mesh::n_boundary_edges\<close>; the preparation \<open>Cleanup::setup_facet_connectivity\<close>,
  \<open>init_advancing_front(false)\<close>, \<open>remove_invalid_mesh_edges\<close>;
  \<open>finish_mesh_for_output\<close>; the lookup \<open>front_.get_edge(v, dir)\<close> of the front edge
  that has \<open>v\<close> as its first (\<open>dir = 1\<close>) or second (\<open>dir = 2\<close>) vertex;
  \<open>Front::is_traversable\<close>; and the macro \<open>MOD\<close>. The bodies of
  \<open>create_quad_layer_elements\<close> and \<open>finish_quad_layer\<close> consist of calls to
  \<open>FrontUpdate\<close> and to the facet containers of the mesh, which are outside the source
  files too: their effect, followed by \<open>mesh_.clear_waste()\<close>, on the layer, the
  vertices, the front and the boundary edges is the parameter \<open>layer_elements\<close>. A
  collaborator that changes the mesh may fail or not return.
\<close>

record collab =
  n_boundary_edges :: "EdgeList \<Rightarrow> int"
  prepare_front :: "Vertices \<times> EdgeList \<times> EdgeList
                      \<Rightarrow> (fault + Vertices \<times> EdgeList \<times> EdgeList) option"
  finish_mesh_for_output :: "Vertices \<times> EdgeList \<times> EdgeList
                      \<Rightarrow> (fault + Vertices \<times> EdgeList \<times> EdgeList) option"
  get_edge_dir :: "EdgeList \<Rightarrow> vid \<Rightarrow> nat \<Rightarrow> eid option"
  is_traversable :: "EdgeList \<Rightarrow> eid \<Rightarrow> eid \<Rightarrow> bool"
  layer_elements :: "QuadLayer \<times> Vertices \<times> EdgeList \<times> EdgeList
                      \<Rightarrow> (fault + QuadLayer \<times> Vertices \<times> EdgeList \<times> EdgeList) option"
  modulo :: "int \<Rightarrow> int \<Rightarrow> int"

text \<open>The attribute \<open>quad_layer_angle_ = 1.57079633\<close> of the driver.\<close>

definition driver_quad_layer_angle :: real where
  "driver_quad_layer_angle = 157079633 / 100000000"

text \<open>
  The scan of \<open>generate_quad_layer\<close> for the front vertices closest to the start and
  the end position; both minima start at \<open>1.0E+10\<close>.
\<close>

definition closest_step ::
  "Vec2d \<Rightarrow> Vec2d \<Rightarrow> Vertices \<Rightarrow> EdgeList \<Rightarrow> eid
     \<Rightarrow> vid option \<times> vid option \<times> real \<times> real \<Rightarrow> vid option \<times> vid option \<times> real \<times> real" where
  "closest_step xs xe vs front e acc =
     (let (v_start, v_end, d_start_sqr_min, d_end_sqr_min) = acc;
          v = v1 (edge_at front e);
          d_start_sqr = norm_sqr (vsub xs (xy (vertex_at vs v)));
          d_end_sqr = norm_sqr (vsub xe (xy (vertex_at vs v)));
          (v_start, d_start_sqr_min) =
             (if d_start_sqr < d_start_sqr_min then (Some v, d_start_sqr)
              else (v_start, d_start_sqr_min));
          (v_end, d_end_sqr_min) =
             (if d_end_sqr < d_end_sqr_min then (Some v, d_end_sqr)
              else (v_end, d_end_sqr_min))
      in (v_start, v_end, d_start_sqr_min, d_end_sqr_min))"

definition closest_vertices ::
  "Vec2d \<Rightarrow> Vec2d \<Rightarrow> Vertices \<Rightarrow> EdgeList \<Rightarrow> vid option \<times> vid option" where
  "closest_vertices xs xe vs front =
     (let (v_start, v_end, d_start_sqr_min, d_end_sqr_min) =
            fold (closest_step xs xe vs front) (edges front)
                 (None, None, 10000000000, 10000000000)
      in (v_start, v_end))"

text \<open>
  The span of the layer: the edges \<open>e_start\<close> and \<open>e_end\<close> and the flag \<open>is_closed\<close>,
  after the rotation of a closed span that would start at a sharp corner. \<open>None\<close> is
  one of the three early \<open>return false\<close>.
\<close>

definition layer_span :: "collab \<Rightarrow> env \<Rightarrow> Layering \<Rightarrow> (eid \<times> eid \<times> bool) option" where
  "layer_span C E D =
     (let vs = mesh_verts D;
          front = advancing_front D
      in case closest_vertices (xy_start D) (xy_end D) vs front of
           (Some v_start, Some v_end) \<Rightarrow>
             (case (get_edge_dir C front v_start 1, get_edge_dir C front v_end 2) of
                (Some es, Some ee) \<Rightarrow>
                  if \<not> is_traversable C front es ee then None
                  else
                    (let cl = (v_start = v_end)
                     in if cl
                        then (let p1 = xy (vertex_at vs (v1 (edge_at front ee)));
                                  p2 = xy (vertex_at vs (v2 (edge_at front ee)));
                                  p3 = xy (vertex_at vs (v2 (edge_at front es)));
                                  ang = angle E (vsub p1 p2) (vsub p3 p2)
                              in case get_next_edge E front es of
                                   Some e_next \<Rightarrow>
                                     if ang \<le> driver_quad_layer_angle
                                     then Some (e_next, es, cl)
                                     else Some (es, ee, cl)
                                 | None \<Rightarrow> Some (es, ee, cl))
                        else Some (es, ee, cl))
              | _ \<Rightarrow> None)
         | _ \<Rightarrow> None)"

text \<open>
  The final loop of \<open>generate_quad_layer\<close>, entered with the index \<open>i\<close>. The driver
  reads the layer through \<open>n_bases()\<close>, \<open>p1()\<close> and \<open>p2()\<close>, which \<open>QuadLayer.h\<close> names
  \<open>n_base_edges()\<close>, \<open>proj_p1()\<close> and \<open>proj_p2()\<close>. An index outside the array and a
  null pointer that is dereferenced are faults. The condition of the loop evaluates
  \<open>v_end_in->on_front()\<close> only when \<open>v_start_in\<close> is not on the front.
\<close>

definition v_end_in_at :: "collab \<Rightarrow> bool \<Rightarrow> QuadLayer \<Rightarrow> nat \<Rightarrow> fault + vid option" where
  "v_end_in_at C cl ql i =
     (if cl then Inr (proj_v1 ql ! i)
      else (let j = modulo C (int i - 1) (int (length (base_edges ql)))
            in if j < 0 \<or> int (length (proj_v2 ql)) \<le> j then Inl OutOfBounds
               else Inr (proj_v2 ql ! nat j)))"

function anchor_walk ::
  "collab \<Rightarrow> Vertices \<Rightarrow> bool \<Rightarrow> QuadLayer \<Rightarrow> nat \<Rightarrow> fault + vid option \<times> vid option" where
  "anchor_walk C vs cl ql i =
     (if length (proj_v1 ql) \<le> i then Inl OutOfBounds
      else
        (let v_start_in = proj_v1 ql ! i
         in case v_end_in_at C cl ql i of
              Inl f \<Rightarrow> Inl f
            | Inr v_end_in \<Rightarrow>
                (case v_start_in of
                   None \<Rightarrow> Inl NullDereference
                 | Some s \<Rightarrow>
                     if on_front (vertex_at vs s) then Inr (v_start_in, v_end_in)
                     else
                       (case v_end_in of
                          None \<Rightarrow> Inl NullDereference
                        | Some e \<Rightarrow>
                            if on_front (vertex_at vs e) then Inr (v_start_in, v_end_in)
                            else anchor_walk C vs cl ql (i + 1)))))"
  by pat_completeness auto

termination anchor_walk
  by (relation "measure (\<lambda>(C, vs, cl, ql, i). length (proj_v1 ql) - i)") auto

text \<open>
  The end of \<open>generate_quad_layer\<close>: the walk, the null check after it, and the new
  start and end positions.
\<close>

definition update_anchors ::
  "collab \<Rightarrow> bool \<Rightarrow> QuadLayer \<Rightarrow> Layering \<Rightarrow> fault + bool \<times> Layering" where
  "update_anchors C cl ql D =
     (case anchor_walk C (mesh_verts D) cl ql 0 of
        Inl f \<Rightarrow> Inl f
      | Inr (Some s, Some e) \<Rightarrow>
          Inr (True, D\<lparr>xy_start := xy (vertex_at (mesh_verts D) s),
                        xy_end := xy (vertex_at (mesh_verts D) e)\<rparr>)
      | Inr _ \<Rightarrow> Inr (False, D))"

text \<open>
  The middle of \<open>generate_quad_layer\<close>: the layer is constructed over the span, its
  heights are smoothed, the projection is set up and the elements are created.
\<close>

definition build_layer ::
  "collab \<Rightarrow> env \<Rightarrow> real \<Rightarrow> eid \<times> eid \<times> bool \<Rightarrow> Layering \<Rightarrow> (fault + QuadLayer \<times> Layering) option" where
  "build_layer C E h sp D =
     (let (es, ee, cl) = sp
      in case QuadLayer_ctor E (advancing_front D) (mesh_verts D) es ee cl h of
           None \<Rightarrow> None
         | Some (Inl f) \<Rightarrow> Some (Inl f)
         | Some (Inr ql) \<Rightarrow>
             (case smooth_heights E (advancing_front D) ql of
                Inl f \<Rightarrow> Some (Inl f)
              | Inr ql1 \<Rightarrow>
                  (case setup_vertex_projection E (mesh_verts D) (advancing_front D)
                          (boundary_edges D) ql1 of
                     Inl f \<Rightarrow> Some (Inl f)
                   | Inr st \<Rightarrow>
                       (case layer_elements C st of
                          None \<Rightarrow> None
                        | Some (Inl f) \<Rightarrow> Some (Inl f)
                        | Some (Inr (ql_n, vs_n, front_n, bdry_n)) \<Rightarrow>
                            Some (Inr (ql_n, D\<lparr>mesh_verts := vs_n, advancing_front := front_n,
                                               boundary_edges := bdry_n\<rparr>))))))"

text \<open>\<open>FrontQuadLayering::generate_quad_layer\<close>.\<close>

definition generate_quad_layer ::
  "collab \<Rightarrow> env \<Rightarrow> real \<Rightarrow> Layering \<Rightarrow> (fault + bool \<times> Layering) option" where
  "generate_quad_layer C E h D =
     (case layer_span C E D of
        None \<Rightarrow> Some (Inr (False, D))
      | Some sp \<Rightarrow>
          (case build_layer C E h sp D of
             None \<Rightarrow> None
           | Some (Inl f) \<Rightarrow> Some (Inl f)
           | Some (Inr (ql, D1)) \<Rightarrow> Some (update_anchors C (snd (snd sp)) ql D1)))"

text \<open>
  The loop of \<open>generate_elements\<close> over the layers: \<open>k\<close> layers are still to be made,
  the next one with the height \<open>h\<close>.
\<close>

fun layer_loop ::
  "collab \<Rightarrow> env \<Rightarrow> nat \<Rightarrow> real \<Rightarrow> Layering \<Rightarrow> (fault + bool \<times> Layering) option" where
  "layer_loop C E 0 h D = Some (Inr (True, D))"
| "layer_loop C E (Suc k) h D =
     (case generate_quad_layer C E h D of
        None \<Rightarrow> None
      | Some (Inl f) \<Rightarrow> Some (Inl f)
      | Some (Inr (success, D1)) \<Rightarrow>
          if \<not> success then Some (Inr (False, D1))
          else layer_loop C E k (h * growth_rate D1) D1)"

text \<open>
  \<open>FrontQuadLayering::generate_elements\<close>. \<open>front_.clear_edges()\<close> empties the front.
\<close>

definition generate_elements ::
  "collab \<Rightarrow> env \<Rightarrow> Layering \<Rightarrow> (fault + bool \<times> Layering) option" where
  "generate_elements C E D =
     (if n_boundary_edges C (boundary_edges D) < 1 then Some (Inr (False, D))
      else
        (case prepare_front C (mesh_verts D, advancing_front D, boundary_edges D) of
           None \<Rightarrow> None
         | Some (Inl f) \<Rightarrow> Some (Inl f)
         | Some (Inr (vs, front, bdry)) \<Rightarrow>
             (case layer_loop C E (n_layers D) (first_height D)
                     (D\<lparr>mesh_verts := vs, advancing_front := front, boundary_edges := bdry\<rparr>) of
                None \<Rightarrow> None
              | Some (Inl f) \<Rightarrow> Some (Inl f)
              | Some (Inr (success, D1)) \<Rightarrow>
                  (case finish_mesh_for_output C
                          (mesh_verts D1, advancing_front D1, boundary_edges D1) of
                     None \<Rightarrow> None
                   | Some (Inl f) \<Rightarrow> Some (Inl f)
                   | Some (Inr (vs_n, front_n, bdry_n)) \<Rightarrow>
                       Some (Inr (success,
                                  D1\<lparr>mesh_verts := vs_n,
                                      advancing_front := front_n\<lparr>edges := []\<rparr>,
                                      boundary_edges := bdry_n\<rparr>))))))"

text \<open>
  The walk stops at index \<open>i\<close> with the anchors \<open>s\<close> and \<open>e\<close>: both pointers are not
  null there and at least one of the two vertices is on the front, and at every
  earlier index both pointers are not null and neither vertex is on the front.
\<close>

definition first_anchor ::
  "collab \<Rightarrow> Vertices \<Rightarrow> bool \<Rightarrow> QuadLayer \<Rightarrow> nat \<Rightarrow> vid \<Rightarrow> vid \<Rightarrow> bool" where
  "first_anchor C vs cl ql i s e =
     (i < length (proj_v1 ql) \<and> proj_v1 ql ! i = Some s \<and>
      v_end_in_at C cl ql i = Inr (Some e) \<and>
      (on_front (vertex_at vs s) \<or> on_front (vertex_at vs e)) \<and>
      (\<forall>j<i. \<exists>sj ej. proj_v1 ql ! j = Some sj \<and> v_end_in_at C cl ql j = Inr (Some ej) \<and>
                       \<not> on_front (vertex_at vs sj) \<and> \<not> on_front (vertex_at vs ej)))"

text \<open>
  The walk as the spec words it: \<open>i\<close> is the first index at which both \<open>v_start_in\<close> and
  \<open>v_end_in\<close> are on the front.
\<close>

definition first_both_anchor ::
  "collab \<Rightarrow> Vertices \<Rightarrow> bool \<Rightarrow> QuadLayer \<Rightarrow> nat \<Rightarrow> vid \<Rightarrow> vid \<Rightarrow> bool" where
  "first_both_anchor C vs cl ql i s e =
     (i < length (proj_v1 ql) \<and> proj_v1 ql ! i = Some s \<and>
      v_end_in_at C cl ql i = Inr (Some e) \<and>
      on_front (vertex_at vs s) \<and> on_front (vertex_at vs e) \<and>
      (\<forall>j<i. \<not> (\<exists>sj ej. proj_v1 ql ! j = Some sj \<and> v_end_in_at C cl ql j = Inr (Some ej) \<and>
                          on_front (vertex_at vs sj) \<and> on_front (vertex_at vs ej))))"

section \<open>Example objects\<close>

definition env0 :: env where
  "env0 = \<lparr>size_function = (\<lambda>_. 1), angle = (\<lambda>_ _. pi), is_left = (\<lambda>_ _ _. False),
           quad_layer_angle = pi / 2, get_next_edge = (\<lambda>_ _. None),
           get_prev_edge = (\<lambda>_ _. None),
           split_edge = (\<lambda>l vs e s r. ((l, vs), (e, e))),
           list_mark_objects = (\<lambda>_ _ vs. vs), ndebug = True\<rparr>"

definition edge0 :: Edge where
  "edge0 = \<lparr>v1 = 0, v2 = 1, marker = 0, twin_edge = None, e_length = 1,
            tangent = (1, 0), normal = (0, 1), e_xy = (1 / 2, 0)\<rparr>"

definition ql0 :: QuadLayer where
  "ql0 = \<lparr>e_start = 0, e_end = 2, is_closed = False, height = 3,
          base_edges = [0, 1, 2], base_v1 = [0, 1, 2], base_v2 = [1, 2, 3],
          proj_v1 = [None, None, None], proj_v2 = [None, None, None],
          proj_v1_xy = [(0, 3), (1, 3), (2, 3)], proj_v2_xy = [(1, 3), (2, 3), (3, 3)],
          heights = [3, 3, 3]\<rparr>"


text \<open>
  An instance of the connectivity queries: the next edge of an edge is the edge of the
  same list that starts at its end vertex, the previous edge the one that ends at its
  start vertex.
\<close>

definition next_connected :: "EdgeList \<Rightarrow> eid \<Rightarrow> eid option" where
  "next_connected l e = find (\<lambda>f. v1 (edge_at l f) = v2 (edge_at l e)) (edges l)"

definition prev_connected :: "EdgeList \<Rightarrow> eid \<Rightarrow> eid option" where
  "prev_connected l e = find (\<lambda>f. v2 (edge_at l f) = v1 (edge_at l e)) (edges l)"

definition env1 :: env where
  "env1 = env0\<lparr>get_next_edge := next_connected, get_prev_edge := prev_connected\<rparr>"

text \<open>
  A front of two rings: the unit square (vertices and edges 0 to 3) and a square hole
  inside it (vertices and edges 4 to 7).
\<close>

definition sq_xy :: "vid \<Rightarrow> Vec2d" where
  "sq_xy v = (if v = 0 then (0, 0) else if v = 1 then (1, 0) else if v = 2 then (1, 1)
              else if v = 3 then (0, 1) else if v = 4 then (1 / 4, 1 / 4)
              else if v = 5 then (1 / 4, 3 / 4) else if v = 6 then (3 / 4, 3 / 4)
              else (3 / 4, 1 / 4))"

definition mk_edge :: "(vid \<Rightarrow> Vec2d) \<Rightarrow> vid \<Rightarrow> vid \<Rightarrow> real \<Rightarrow> Edge" where
  "mk_edge P a b len =
     (let t = sdiv (vsub (P b) (P a)) len
      in \<lparr>v1 = a, v2 = b, marker = 1, twin_edge = None, e_length = len, tangent = t,
          normal = (- snd t, fst t), e_xy = smul (1 / 2) (vadd (P a) (P b))\<rparr>)"

definition verts1 :: Vertices where
  "verts1 = \<lparr>verts = [0, 1, 2, 3, 4, 5, 6, 7],
             vertex_at = (\<lambda>v. \<lparr>xy = sq_xy v, on_front = True, on_boundary = True,
                                is_fixed = True\<rparr>)\<rparr>"

definition front1 :: EdgeList where
  "front1 = \<lparr>edges = [0, 1, 2, 3, 4, 5, 6, 7],
             edge_at = (\<lambda>e. if e < 4 then mk_edge sq_xy e (if e = 3 then 0 else e + 1) 1
                              else mk_edge sq_xy e (if e = 7 then 4 else e + 1) (1 / 2))\<rparr>"

definition front2 :: EdgeList where
  "front2 = front1\<lparr>edges := [0, 1]\<rparr>"

text \<open>
  A straight front along the x axis: edge \<open>e\<close> runs from vertex \<open>e\<close> at \<open>(e, 0)\<close> to vertex
  \<open>e + 1\<close>; an open layer over the edges 1, 2 and 3 of it.
\<close>

definition line_xy :: "vid \<Rightarrow> Vec2d" where
  "line_xy v = (real v, 0)"

definition line_verts :: Vertices where
  "line_verts = \<lparr>verts = [0, 1, 2, 3, 4, 5],
                 vertex_at = (\<lambda>v. \<lparr>xy = line_xy v, on_front = True, on_boundary = True,
                                    is_fixed = True\<rparr>)\<rparr>"

definition line_front :: EdgeList where
  "line_front = \<lparr>edges = [0, 1, 2, 3, 4], edge_at = (\<lambda>e. mk_edge line_xy e (e + 1) 1)\<rparr>"

definition line_layer :: QuadLayer where
  "line_layer = \<lparr>e_start = 1, e_end = 3, is_closed = False, height = 1 / 2,
                 base_edges = [1, 2, 3], base_v1 = [1, 2, 3], base_v2 = [2, 3, 4],
                 proj_v1 = [None, None, None], proj_v2 = [None, None, None],
                 proj_v1_xy = [(1, 1 / 2), (2, 1 / 4), (3, 1 / 2)],
                 proj_v2_xy = [(2, 1 / 2), (3, 1 / 4), (4, 1 / 2)],
                 heights = [1 / 2, 1 / 4, 1 / 2]\<rparr>"

text \<open>
  Instances of the geometric predicates: \<open>p\<close> is strictly left of the directed line from
  \<open>a\<close> to \<open>b\<close> when the cross product is positive; the angle between two vectors is
  the arc cosine of their normalised dot product.
\<close>

definition is_left_cross :: "Vec2d \<Rightarrow> Vec2d \<Rightarrow> Vec2d \<Rightarrow> bool" where
  "is_left_cross a b p =
     (0 < (fst b - fst a) * (snd p - snd a) - (snd b - snd a) * (fst p - fst a))"

definition angle_between :: "Vec2d \<Rightarrow> Vec2d \<Rightarrow> real" where
  "angle_between a b = arccos ((fst a * fst b + snd a * snd b) / (vnorm a * vnorm b))"

text \<open>
  An instance of \<open>split_edge\<close> after the spec's description: a new vertex at parameter
  \<open>s\<close> along the edge, the edge replaced in its position by the two halves, both with
  the marker of the edge.
\<close>

definition split_at ::
  "EdgeList \<Rightarrow> Vertices \<Rightarrow> eid \<Rightarrow> real \<Rightarrow> bool \<Rightarrow> (EdgeList \<times> Vertices) \<times> (eid \<times> eid)" where
  "split_at l vs e s r =
     (let ed = edge_at l e;
          pa = xy (vertex_at vs (v1 ed));
          pb = xy (vertex_at vs (v2 ed));
          (vs1, vn) = insert_vertex vs (v2 ed) (vadd pa (smul s (vsub pb pa)));
          ((l1, vs2), e1) = insert_edge mark_objects l vs1 e (v1 ed) vn (marker ed);
          ((l2, vs3), e2) = insert_edge mark_objects l1 vs2 e vn (v2 ed) (marker ed)
      in ((remove l2 e, vs3), (e1, e2)))"

definition env2 :: env where
  "env2 = env1\<lparr>is_left := is_left_cross, angle := angle_between, split_edge := split_at\<rparr>"

text \<open>
  A front with a corner: it comes down the y axis from vertex 0 at \<open>(0, y)\<close> to vertex 1
  at the origin, runs along the x axis to vertex 3 at \<open>(2, 0)\<close> and leaves upwards to
  vertex 4 at \<open>(2, 3/4)\<close>. The open layer covers the two edges on the x axis.
\<close>

definition corner_xy :: "real \<Rightarrow> vid \<Rightarrow> Vec2d" where
  "corner_xy y v = (if v = 0 then (0, y) else if v = 1 then (0, 0) else if v = 2 then (1, 0)
                    else if v = 3 then (2, 0) else (2, 3 / 4))"

definition corner_verts :: "real \<Rightarrow> Vertices" where
  "corner_verts y = \<lparr>verts = [0, 1, 2, 3, 4],
                     vertex_at = (\<lambda>v. \<lparr>xy = corner_xy y v, on_front = True,
                                        on_boundary = True, is_fixed = True\<rparr>)\<rparr>"

definition corner_front :: "real \<Rightarrow> EdgeList" where
  "corner_front y = \<lparr>edges = [0, 1, 2, 3],
                     edge_at = (\<lambda>e. mk_edge (corner_xy y) e (e + 1)
                                       (if e = 0 then y else if e = 3 then 3 / 4 else 1))\<rparr>"

definition corner_layer :: QuadLayer where
  "corner_layer = \<lparr>e_start = 1, e_end = 2, is_closed = False, height = 1 / 2,
                   base_edges = [1, 2], base_v1 = [1, 2], base_v2 = [2, 3],
                   proj_v1 = [None, None], proj_v2 = [None, None],
                   proj_v1_xy = [(0, 1 / 2), (1, 1 / 2)],
                   proj_v2_xy = [(1, 1 / 2), (2, 1 / 2)],
                   heights = [1 / 2, 1 / 2]\<rparr>"

text \<open>
  A front of two unit edges, from \<open>(0, 0)\<close> over \<open>(1, 0)\<close> to \<open>(1, 1)\<close>; the second one
  has a twin. The size function is \<open>1/2\<close> everywhere in \<open>env_half\<close> and \<open>1\<close> in \<open>env0\<close>.
\<close>

definition env_half :: env where
  "env_half = env0\<lparr>size_function := (\<lambda>_. 1 / 2)\<rparr>"



definition tw_xy :: "vid \<Rightarrow> Vec2d" where
  "tw_xy v = (if v = 0 then (0, 0) else if v = 1 then (1, 0) else (1, 1))"

definition tw_verts :: Vertices where
  "tw_verts = \<lparr>verts = [0, 1, 2],
               vertex_at = (\<lambda>v. \<lparr>xy = tw_xy v, on_front = True, on_boundary = True,
                                  is_fixed = True\<rparr>)\<rparr>"

definition tw_front :: EdgeList where
  "tw_front = \<lparr>edges = [0, 1],
               edge_at = (\<lambda>e. if e = 0 then mk_edge tw_xy 0 1 1
                                else (mk_edge tw_xy 1 2 1)\<lparr>twin_edge := Some 7\<rparr>)\<rparr>"

text \<open>
  An instance of the driver's collaborators. The creation of the elements puts above
  every base vertex \<open>v\<close> the projected vertex \<open>v + 10\<close>, half a unit higher; \<open>onf\<close> says
  which of the new vertices are on the front afterwards.
\<close>

definition row_verts :: "(vid \<Rightarrow> bool) \<Rightarrow> Vertices \<Rightarrow> Vertices" where
  "row_verts onf vs =
     \<lparr>verts = verts vs @ map (\<lambda>v. v + 10) (verts vs),
      vertex_at = (\<lambda>v. if v < 10 then vertex_at vs v
                        else \<lparr>xy = vadd (xy (vertex_at vs (v - 10))) (0, 1 / 2), on_front = onf v,
                              on_boundary = False, is_fixed = False\<rparr>)\<rparr>"

definition row_elements ::
  "(vid \<Rightarrow> bool) \<Rightarrow> QuadLayer \<times> Vertices \<times> EdgeList \<times> EdgeList
     \<Rightarrow> (fault + QuadLayer \<times> Vertices \<times> EdgeList \<times> EdgeList) option" where
  "row_elements onf st =
     (let (ql, vs, front, bdry) = st
      in Some (Inr (ql\<lparr>proj_v1 := map (\<lambda>v. Some (v + 10)) (base_v1 ql),
                        proj_v2 := map (\<lambda>v. Some (v + 10)) (base_v2 ql)\<rparr>,
                    row_verts onf vs, front, bdry)))"

definition collab_row :: "(vid \<Rightarrow> bool) \<Rightarrow> collab" where
  "collab_row onf =
     \<lparr>n_boundary_edges = (\<lambda>l. int (length (edges l))),
      prepare_front = (\<lambda>st. Some (Inr st)),
      finish_mesh_for_output = (\<lambda>st. Some (Inr st)),
      get_edge_dir = (\<lambda>l v dir. find (\<lambda>e. (if dir = 1 then v1 (edge_at l e)
                                              else v2 (edge_at l e)) = v) (edges l)),
      is_traversable = (\<lambda>l a b. True),
      layer_elements = row_elements onf,
      modulo = (\<lambda>a b. a mod b)\<rparr>"

text \<open>
  The driver on the straight front, with the start position at vertex 1 and the end
  position at vertex 4.
\<close>

definition line_D :: Layering where
  "line_D = \<lparr>n_layers = 1, first_height = 1 / 2, growth_rate = 1, xy_start = (1, 0),
             xy_end = (4, 0), mesh_verts = line_verts, advancing_front = line_front,
             boundary_edges = line_front\<rparr>"

definition collab_block :: collab where
  "collab_block = (collab_row (\<lambda>v. True))\<lparr>is_traversable := (\<lambda>l a b. False)\<rparr>"

text \<open>
  The same creation of the elements when the triangle over the first base fails
  (\<open>update_front\<close> returns null and the loop goes on with the next base): the projected
  vertices of the first base stay null.
\<close>

definition skip_first_elements ::
  "QuadLayer \<times> Vertices \<times> EdgeList \<times> EdgeList
     \<Rightarrow> (fault + QuadLayer \<times> Vertices \<times> EdgeList \<times> EdgeList) option" where
  "skip_first_elements st =
     (let (ql, vs, front, bdry) = st
      in Some (Inr (ql\<lparr>proj_v1 := None # tl (map (\<lambda>v. Some (v + 10)) (base_v1 ql)),
                        proj_v2 := None # tl (map (\<lambda>v. Some (v + 10)) (base_v2 ql))\<rparr>,
                    row_verts (\<lambda>v. True) vs, front, bdry)))"

definition collab_skip :: collab where
  "collab_skip = (collab_row (\<lambda>v. True))\<lparr>layer_elements := skip_first_elements\<rparr>"




text \<open>
  Closed layers on the two rings of the square: one of height \<open>1/4\<close> around the outer
  ring, whose corners are convex, and one of height \<open>1/8\<close> around the hole, whose
  corners are reflex as seen from the domain.
\<close>

definition sq_closed :: QuadLayer where
  "sq_closed = \<lparr>e_start = 0, e_end = 3, is_closed = True, height = 1 / 4,
                base_edges = [0, 1, 2, 3], base_v1 = [0, 1, 2, 3], base_v2 = [1, 2, 3, 0],
                proj_v1 = [None, None, None, None], proj_v2 = [None, None, None, None],
                proj_v1_xy = [(0, 1 / 4), (3 / 4, 0), (1, 3 / 4), (1 / 4, 1)],
                proj_v2_xy = [(1, 1 / 4), (3 / 4, 1), (0, 3 / 4), (1 / 4, 0)],
                heights = [1 / 4, 1 / 4, 1 / 4, 1 / 4]\<rparr>"

definition hole_closed :: QuadLayer where
  "hole_closed = \<lparr>e_start = 4, e_end = 7, is_closed = True, height = 1 / 8,
                  base_edges = [4, 5, 6, 7], base_v1 = [4, 5, 6, 7], base_v2 = [5, 6, 7, 4],
                  proj_v1 = [None, None, None, None], proj_v2 = [None, None, None, None],
                  proj_v1_xy = [(1 / 8, 1 / 4), (1 / 4, 7 / 8), (7 / 8, 3 / 4), (3 / 4, 1 / 8)],
                  proj_v2_xy = [(1 / 8, 3 / 4), (3 / 4, 7 / 8), (7 / 8, 1 / 4), (1 / 4, 1 / 8)],
                  heights = [1 / 8, 1 / 8, 1 / 8, 1 / 8]\<rparr>"

section \<open>Verification: height smoothing\<close>


lemma MIN_of_min: "MIN_of a b = min a b"
  by (simp add: MIN_of_def min_def)

lemma smooth_fold:
  "k \<le> length (heights ql) - 1 \<Longrightarrow> 1 \<le> k \<Longrightarrow>
   (let ql' = fold (smooth_step E front) [1 ..< k] ql in
     ql' = ql\<lparr>heights := heights ql'\<rparr> \<and>
     length (heights ql') = length (heights ql) \<and>
     (\<forall>i. i = 0 \<or> k \<le> i \<longrightarrow> heights ql' ! i = heights ql ! i) \<and>
     (\<forall>i. 1 \<le> i \<and> i < k \<longrightarrow> heights ql' ! i =
        min (size_function E (e_xy (edge_at front (base_edges ql ! i))))
            ((heights ql' ! (i - 1) + heights ql ! i + heights ql ! (i + 1)) / 3)))"
proof (induction k)
  case 0
  then show ?case by simp
next
  case (Suc k)
  show ?case
  proof (cases "k = 0")
    case True
    then show ?thesis by simp
  next
    case False
    then have k1: "1 \<le> k" by simp
    have kn: "k \<le> length (heights ql) - 1" using Suc.prems by simp
    define q where "q = fold (smooth_step E front) [1 ..< k] ql"
    from Suc.IH[OF kn k1] have
      a: "q = ql\<lparr>heights := heights q\<rparr>" and
      b: "length (heights q) = length (heights ql)" and
      c: "\<And>i. i = 0 \<or> k \<le> i \<Longrightarrow> heights q ! i = heights ql ! i" and
      d: "\<And>i. 1 \<le> i \<and> i < k \<Longrightarrow> heights q ! i =
        min (size_function E (e_xy (edge_at front (base_edges ql ! i))))
            ((heights q ! (i - 1) + heights ql ! i + heights ql ! (i + 1)) / 3)"
      unfolding q_def Let_def by blast+
    have be: "base_edges q = base_edges ql" by (subst a) simp
    have f: "fold (smooth_step E front) [1 ..< Suc k] ql = smooth_step E front k q"
      using k1 by (simp add: q_def)
    have klt: "k < length (heights q)" using Suc.prems b by simp
    have hs: "heights (smooth_step E front k q) = (heights q)[k :=
        min (size_function E (e_xy (edge_at front (base_edges ql ! k))))
            ((heights q ! (k - 1) + heights ql ! k + heights ql ! (k + 1)) / 3)]"
      by (simp add: smooth_step_def Let_def MIN_of_min be c)
    have "smooth_step E front k q = q\<lparr>heights := heights (smooth_step E front k q)\<rparr>"
      by (simp add: smooth_step_def Let_def)
    also have "\<dots> = (ql\<lparr>heights := heights q\<rparr>)\<lparr>heights := heights (smooth_step E front k q)\<rparr>"
      using a by metis
    finally have rest: "smooth_step E front k q = ql\<lparr>heights := heights (smooth_step E front k q)\<rparr>"
      by simp
    let ?q' = "smooth_step E front k q"
    have p1: "length (heights ?q') = length (heights ql)" by (simp add: hs b)
    have p2: "heights ?q' ! i = heights ql ! i" if "i = 0 \<or> Suc k \<le> i" for i
    proof -
      from that k1 have ik: "i \<noteq> k" by auto
      from that have ik2: "i = 0 \<or> k \<le> i" by auto
      from ik have "heights ?q' ! i = heights q ! i" by (simp add: hs)
      also have "\<dots> = heights ql ! i" using ik2 by (rule c)
      finally show ?thesis .
    qed
    have p3: "heights ?q' ! i =
        min (size_function E (e_xy (edge_at front (base_edges ql ! i))))
            ((heights ?q' ! (i - 1) + heights ql ! i + heights ql ! (i + 1)) / 3)"
      if "1 \<le> i \<and> i < Suc k" for i
    proof (cases "i = k")
      case True
      from k1 have "k - 1 \<noteq> k" by simp
      then have "heights ?q' ! (k - 1) = heights q ! (k - 1)" by (simp add: hs)
      moreover have "heights ?q' ! k =
        min (size_function E (e_xy (edge_at front (base_edges ql ! k))))
            ((heights q ! (k - 1) + heights ql ! k + heights ql ! (k + 1)) / 3)"
        using klt by (simp add: hs)
      ultimately show ?thesis using True by simp
    next
      case False
      with that have ik: "1 \<le> i \<and> i < k" by simp
      then have "i - 1 \<noteq> k" by arith
      then have "heights ?q' ! (i - 1) = heights q ! (i - 1)" by (simp add: hs)
      moreover have "heights ?q' ! i = heights q ! i" using False by (simp add: hs)
      ultimately show ?thesis using d[OF ik] by simp
    qed
    show ?thesis
      unfolding Let_def f using rest p1 p2 p3 by blast
  qed
qed


text \<open>
  C7. \<open>smooth_heights\<close> rewrites \<open>heights[i]\<close> for \<open>1 \<le> i \<le> n - 2\<close> only: each becomes the
  minimum of the size function at the midpoint of base \<open>i\<close> and a third of the sum of the
  (already smoothed) left neighbour, the old value and the old right neighbour. The first
  and the last height, the length of the array and every other field stay as they were.
\<close>

theorem smooth_heights_interior_only:
  assumes "heights ql \<noteq> []"
  shows "\<exists>ql'. smooth_heights E front ql = Inr ql' \<and>
           ql' = ql\<lparr>heights := heights ql'\<rparr> \<and>
           length (heights ql') = length (heights ql) \<and>
           heights ql' ! 0 = heights ql ! 0 \<and>
           heights ql' ! (length (heights ql) - 1) = heights ql ! (length (heights ql) - 1) \<and>
           (\<forall>i. 1 \<le> i \<and> i + 1 < length (heights ql) \<longrightarrow>
              heights ql' ! i =
                min (size_function E (e_xy (edge_at front (base_edges ql ! i))))
                    ((heights ql' ! (i - 1) + heights ql ! i + heights ql ! (i + 1)) / 3))"
proof (cases "length (heights ql) - 1 = 0")
  case True
  then have r: "smooth_heights E front ql = Inr ql"
    using assms by (simp add: smooth_heights_def)
  have n: "length (heights ql) \<le> 1"
    using True by arith
  show ?thesis
    apply (rule exI[of _ ql])
    using n by (simp add: r)
next
  case False
  let ?n = "length (heights ql)"
  let ?q = "fold (smooth_step E front) [1 ..< ?n - 1] ql"
  from False have k1: "1 \<le> ?n - 1" by simp
  have r: "smooth_heights E front ql = Inr ?q"
    using assms by (simp add: smooth_heights_def)
  from smooth_fold[OF order_refl k1, of E front] have
    a: "?q = ql\<lparr>heights := heights ?q\<rparr>" and
    b: "length (heights ?q) = ?n" and
    c: "\<And>i. i = 0 \<or> ?n - 1 \<le> i \<Longrightarrow> heights ?q ! i = heights ql ! i" and
    d: "\<And>i. 1 \<le> i \<and> i < ?n - 1 \<Longrightarrow> heights ?q ! i =
        min (size_function E (e_xy (edge_at front (base_edges ql ! i))))
            ((heights ?q ! (i - 1) + heights ql ! i + heights ql ! (i + 1)) / 3)"
    unfolding Let_def by blast+
  have d': "heights ?q ! i =
        min (size_function E (e_xy (edge_at front (base_edges ql ! i))))
            ((heights ?q ! (i - 1) + heights ql ! i + heights ql ! (i + 1)) / 3)"
    if "1 \<le> i \<and> i + 1 < ?n" for i
  proof -
    from that have "1 \<le> i \<and> i < ?n - 1" by arith
    then show ?thesis by (rule d)
  qed
  have c0: "heights ?q ! 0 = heights ql ! 0" by (rule c) simp
  have cn: "heights ?q ! (?n - 1) = heights ql ! (?n - 1)" by (rule c) simp
  show ?thesis
    apply (rule exI[of _ ?q])
    using r a b c0 cn d' by blast
qed

theorem smooth_heights_interior_only_witness:
  "heights ql0 \<noteq> [] \<and>
   (\<exists>ql'. smooth_heights env0 \<lparr>edges = [0, 1, 2], edge_at = (\<lambda>_. edge0)\<rparr> ql0 = Inr ql' \<and>
      heights ql' ! 0 = 3 \<and> heights ql' ! 1 = 1 \<and> heights ql' ! 2 = 3)"
proof -
  have h: "heights ql0 \<noteq> []" by (simp add: ql0_def)
  from smooth_heights_interior_only[OF h, of env0 "\<lparr>edges = [0, 1, 2], edge_at = (\<lambda>_. edge0)\<rparr>"]
  obtain ql' where
    r: "smooth_heights env0 \<lparr>edges = [0, 1, 2], edge_at = (\<lambda>_. edge0)\<rparr> ql0 = Inr ql'" and
    z: "heights ql' ! 0 = heights ql0 ! 0" and
    l: "heights ql' ! (length (heights ql0) - 1) = heights ql0 ! (length (heights ql0) - 1)" and
    m: "\<forall>i. 1 \<le> i \<and> i + 1 < length (heights ql0) \<longrightarrow>
              heights ql' ! i =
                min (size_function env0 (e_xy (edge_at \<lparr>edges = [0, 1, 2], edge_at = (\<lambda>_. edge0)\<rparr> (base_edges ql0 ! i))))
                    ((heights ql' ! (i - 1) + heights ql0 ! i + heights ql0 ! (i + 1)) / 3)"
    by blast
  from m[rule_format, of 1] z have "heights ql' ! 1 = 1"
    by (simp add: ql0_def env0_def)
  moreover from z have "heights ql' ! 0 = 3" by (simp add: ql0_def)
  moreover from l have "heights ql' ! 2 = 3" by (simp add: ql0_def numeral_2_eq_2)
  ultimately show ?thesis using h r by blast
qed

section \<open>Verification: construction\<close>

lemma add_quadlayer_edge_fields:
  "e_start (add_quadlayer_edge front vs e ql) = e_start ql"
  "e_end (add_quadlayer_edge front vs e ql) = e_end ql"
  "is_closed (add_quadlayer_edge front vs e ql) = is_closed ql"
  "height (add_quadlayer_edge front vs e ql) = height ql"
  "base_edges (add_quadlayer_edge front vs e ql) = base_edges ql @ [e]"
  "base_v1 (add_quadlayer_edge front vs e ql) = base_v1 ql @ [v1 (edge_at front e)]"
  "base_v2 (add_quadlayer_edge front vs e ql) = base_v2 ql @ [v2 (edge_at front e)]"
  "heights (add_quadlayer_edge front vs e ql) =
     heights ql @ [MIN_of (height ql) (e_length (edge_at front e))]"
  "proj_v1 (add_quadlayer_edge front vs e ql) = proj_v1 ql @ [None]"
  "proj_v2 (add_quadlayer_edge front vs e ql) = proj_v2 ql @ [None]"
  "proj_v1_xy (add_quadlayer_edge front vs e ql) =
     proj_v1_xy ql @ [vadd (xy (vertex_at vs (v1 (edge_at front e))))
                           (smul (MIN_of (height ql) (e_length (edge_at front e)))
                                 (normal (edge_at front e)))]"
  "proj_v2_xy (add_quadlayer_edge front vs e ql) =
     proj_v2_xy ql @ [vadd (xy (vertex_at vs (v2 (edge_at front e))))
                           (smul (MIN_of (height ql) (e_length (edge_at front e)))
                                 (normal (edge_at front e)))]"
  by (simp_all add: add_quadlayer_edge_def Let_def)

lemma fold_add_fields:
  "e_start (fold (add_quadlayer_edge front vs) es ql) = e_start ql"
  "e_end (fold (add_quadlayer_edge front vs) es ql) = e_end ql"
  "is_closed (fold (add_quadlayer_edge front vs) es ql) = is_closed ql"
  "height (fold (add_quadlayer_edge front vs) es ql) = height ql"
  "base_edges (fold (add_quadlayer_edge front vs) es ql) = base_edges ql @ es"
  "base_v1 (fold (add_quadlayer_edge front vs) es ql) =
     base_v1 ql @ map (\<lambda>e. v1 (edge_at front e)) es"
  "base_v2 (fold (add_quadlayer_edge front vs) es ql) =
     base_v2 ql @ map (\<lambda>e. v2 (edge_at front e)) es"
  "heights (fold (add_quadlayer_edge front vs) es ql) =
     heights ql @ map (\<lambda>e. MIN_of (height ql) (e_length (edge_at front e))) es"
  "proj_v1 (fold (add_quadlayer_edge front vs) es ql) = proj_v1 ql @ map (\<lambda>e. None) es"
  "proj_v2 (fold (add_quadlayer_edge front vs) es ql) = proj_v2 ql @ map (\<lambda>e. None) es"
  "proj_v1_xy (fold (add_quadlayer_edge front vs) es ql) =
     proj_v1_xy ql @ map (\<lambda>e. vadd (xy (vertex_at vs (v1 (edge_at front e))))
                           (smul (MIN_of (height ql) (e_length (edge_at front e)))
                                 (normal (edge_at front e)))) es"
  "proj_v2_xy (fold (add_quadlayer_edge front vs) es ql) =
     proj_v2_xy ql @ map (\<lambda>e. vadd (xy (vertex_at vs (v2 (edge_at front e))))
                           (smul (MIN_of (height ql) (e_length (edge_at front e)))
                                 (normal (edge_at front e)))) es"
  by (induction es arbitrary: ql; simp add: add_quadlayer_edge_fields)+

lemma walk_reaches:
  "chain (get_next_edge E front) (a # path) \<Longrightarrow> e_end ql \<notin> set path \<Longrightarrow>
   get_next_edge E front (last (a # path)) = Some (e_end ql) \<Longrightarrow>
   QuadLayer_walk E front vs (Some a) ql =
     Some (Inr (fold (add_quadlayer_edge front vs) (a # path) ql))"
proof (induction path arbitrary: a ql)
  case Nil
  then show ?case by (subst QuadLayer_walk.simps) simp
next
  case (Cons b p)
  from Cons.prems have nb: "get_next_edge E front a = Some b" and ch: "chain (get_next_edge E front) (b # p)"
    and ne: "b \<noteq> e_end ql" and ni: "e_end ql \<notin> set p"
    and la: "get_next_edge E front (last (b # p)) = Some (e_end ql)"
    by auto
  let ?q = "add_quadlayer_edge front vs a ql"
  have ee: "e_end ?q = e_end ql" by (simp add: add_quadlayer_edge_fields)
  have "QuadLayer_walk E front vs (Some a) ql = QuadLayer_walk E front vs (Some b) ?q"
    using nb ne by (subst QuadLayer_walk.simps) simp
  also have "\<dots> = Some (Inr (fold (add_quadlayer_edge front vs) (b # p) ?q))"
    using ch ni la by (intro Cons.IH) (simp_all add: ee)
  finally show ?case by simp
qed

lemma walk_breaks:
  "chain (get_next_edge E front) (a # path) \<Longrightarrow> e_end ql \<notin> set path \<Longrightarrow>
   get_next_edge E front (last (a # path)) = None \<Longrightarrow>
   QuadLayer_walk E front vs (Some a) ql = Some (Inl StructuralAssertion)"
proof (induction path arbitrary: a ql)
  case Nil
  then have "QuadLayer_walk E front vs (Some a) ql =
     QuadLayer_walk E front vs None (add_quadlayer_edge front vs a ql)"
    by (subst QuadLayer_walk.simps) simp
  also have "\<dots> = Some (Inl StructuralAssertion)"
    by (subst QuadLayer_walk.simps) simp
  finally show ?case .
next
  case (Cons b p)
  from Cons.prems have nb: "get_next_edge E front a = Some b" and ch: "chain (get_next_edge E front) (b # p)"
    and ne: "b \<noteq> e_end ql" and ni: "e_end ql \<notin> set p"
    and la: "get_next_edge E front (last (b # p)) = None"
    by auto
  let ?q = "add_quadlayer_edge front vs a ql"
  have ee: "e_end ?q = e_end ql" by (simp add: add_quadlayer_edge_fields)
  have "QuadLayer_walk E front vs (Some a) ql = QuadLayer_walk E front vs (Some b) ?q"
    using nb ne by (subst QuadLayer_walk.simps) simp
  also have "\<dots> = Some (Inl StructuralAssertion)"
    using ch ni la by (intro Cons.IH) (simp_all add: ee)
  finally show ?case .
qed

lemma walk_never_returns:
  assumes r: "QuadLayer_walk E front vs e_cur ql = Some y"
  shows "(\<forall>e\<in>S. \<exists>e'\<in>S. get_next_edge E front e = Some e') \<longrightarrow> e_end ql \<notin> S \<longrightarrow>
         e_cur \<notin> Some ` S"
proof (rule QuadLayer_walk.raw_induct[where P = "\<lambda>E front vs e_cur ql y.
         (\<forall>e\<in>S. \<exists>e'\<in>S. get_next_edge E front e = Some e') \<longrightarrow> e_end ql \<notin> S \<longrightarrow>
         e_cur \<notin> Some ` S", OF _ r], goal_cases)
  case (1 walk E front vs e_cur ql y)
  show ?case
  proof (intro impI notI)
    assume cl: "\<forall>e\<in>S. \<exists>e'\<in>S. get_next_edge E front e = Some e'"
      and ne: "e_end ql \<notin> S" and "e_cur \<in> Some ` S"
    then obtain e where e: "e_cur = Some e" "e \<in> S" by auto
    with cl obtain e' where e': "e' \<in> S" "get_next_edge E front e = Some e'" by blast
    with ne have "e' \<noteq> e_end ql" by auto
    with 1(2) e e' have "walk E front vs (Some e') (add_quadlayer_edge front vs e ql) = Some y"
      by simp
    from 1(1)[OF this] cl ne e'(1) show False
      by (simp add: add_quadlayer_edge_fields)
  qed
qed

lemma walk_diverges:
  assumes "\<forall>e\<in>S. \<exists>e'\<in>S. get_next_edge E front e = Some e'" and "e_end ql \<notin> S" and "e \<in> S"
  shows "QuadLayer_walk E front vs (Some e) ql = None"
proof (cases "QuadLayer_walk E front vs (Some e) ql")
  case None
  then show ?thesis .
next
  case (Some y)
  from walk_never_returns[OF Some, of S] assms show ?thesis by simp
qed

text \<open>
  C3, as amended. The constructor follows the next-edge links from \<open>e_start\<close>. When the
  links lead through \<open>path\<close> to an edge whose next edge is \<open>e_end\<close>, and no edge of
  \<open>path\<close> is \<open>e_end\<close>, the construction returns and the parallel arrays hold exactly
  \<open>e_start\<close>, the edges of \<open>path\<close> and \<open>e_end\<close>, in this order. When the links end in a
  null pointer first, the construction fails with the structural assertion. When the
  links from \<open>e_start\<close> stay inside a set of edges that does not contain \<open>e_end\<close>, the
  construction does not return.
\<close>

theorem QuadLayer_ctor_chain:
  assumes "chain (get_next_edge E front) (es # path)" and "ee \<notin> set path"
  shows "(get_next_edge E front (last (es # path)) = Some ee \<longrightarrow>
           (\<exists>ql. QuadLayer_ctor E front vs es ee cl h = Some (Inr ql) \<and>
              e_start ql = es \<and> e_end ql = ee \<and> is_closed ql = cl \<and> height ql = h \<and>
              base_edges ql = es # path @ [ee] \<and>
              base_v1 ql = map (\<lambda>e. v1 (edge_at front e)) (es # path @ [ee]) \<and>
              base_v2 ql = map (\<lambda>e. v2 (edge_at front e)) (es # path @ [ee]) \<and>
              heights ql = map (\<lambda>e. MIN_of h (e_length (edge_at front e))) (es # path @ [ee]) \<and>
              proj_v1 ql = map (\<lambda>e. None) (es # path @ [ee]) \<and>
              proj_v2 ql = map (\<lambda>e. None) (es # path @ [ee]) \<and>
              proj_v1_xy ql =
                map (\<lambda>e. vadd (xy (vertex_at vs (v1 (edge_at front e))))
                              (smul (MIN_of h (e_length (edge_at front e))) (normal (edge_at front e))))
                    (es # path @ [ee]) \<and>
              proj_v2_xy ql =
                map (\<lambda>e. vadd (xy (vertex_at vs (v2 (edge_at front e))))
                              (smul (MIN_of h (e_length (edge_at front e))) (normal (edge_at front e))))
                    (es # path @ [ee]))) \<and>
         (get_next_edge E front (last (es # path)) = None \<longrightarrow>
            QuadLayer_ctor E front vs es ee cl h = Some (Inl StructuralAssertion)) \<and>
         ((\<forall>e\<in>S. \<exists>e'\<in>S. get_next_edge E front e = Some e') \<and> ee \<notin> S \<and> es \<in> S \<longrightarrow>
            QuadLayer_ctor E front vs es ee cl h = None)"
proof (intro conjI impI)
  let ?init = "QuadLayer_init es ee cl h"
  have ee: "e_end ?init = ee" by (simp add: QuadLayer_init_def)
  assume "get_next_edge E front (last (es # path)) = None"
  with assms have "QuadLayer_walk E front vs (Some es) ?init = Some (Inl StructuralAssertion)"
    by (intro walk_breaks) (simp_all add: ee)
  then show "QuadLayer_ctor E front vs es ee cl h = Some (Inl StructuralAssertion)"
    by (simp add: QuadLayer_ctor_def)
next
  let ?init = "QuadLayer_init es ee cl h"
  define L where "L = es # path @ [ee]"
  let ?q = "fold (add_quadlayer_edge front vs) L ?init"
  have ee: "e_end ?init = ee" by (simp add: QuadLayer_init_def)
  assume "get_next_edge E front (last (es # path)) = Some ee"
  with assms have "QuadLayer_walk E front vs (Some es) ?init =
      Some (Inr (fold (add_quadlayer_edge front vs) (es # path) ?init))"
    by (intro walk_reaches) (simp_all add: ee)
  then have r: "QuadLayer_ctor E front vs es ee cl h = Some (Inr ?q)"
    by (simp add: QuadLayer_ctor_def L_def)
  show "\<exists>ql. QuadLayer_ctor E front vs es ee cl h = Some (Inr ql) \<and>
              e_start ql = es \<and> e_end ql = ee \<and> is_closed ql = cl \<and> height ql = h \<and>
              base_edges ql = es # path @ [ee] \<and>
              base_v1 ql = map (\<lambda>e. v1 (edge_at front e)) (es # path @ [ee]) \<and>
              base_v2 ql = map (\<lambda>e. v2 (edge_at front e)) (es # path @ [ee]) \<and>
              heights ql = map (\<lambda>e. MIN_of h (e_length (edge_at front e))) (es # path @ [ee]) \<and>
              proj_v1 ql = map (\<lambda>e. None) (es # path @ [ee]) \<and>
              proj_v2 ql = map (\<lambda>e. None) (es # path @ [ee]) \<and>
              proj_v1_xy ql =
                map (\<lambda>e. vadd (xy (vertex_at vs (v1 (edge_at front e))))
                              (smul (MIN_of h (e_length (edge_at front e))) (normal (edge_at front e))))
                    (es # path @ [ee]) \<and>
              proj_v2_xy ql =
                map (\<lambda>e. vadd (xy (vertex_at vs (v2 (edge_at front e))))
                              (smul (MIN_of h (e_length (edge_at front e))) (normal (edge_at front e))))
                    (es # path @ [ee])"
    unfolding L_def[symmetric]
    apply (rule exI[of _ ?q])
    apply (intro conjI)
                apply (rule r)
               apply (simp_all add: fold_add_fields QuadLayer_init_def)
    done
next
  let ?init = "QuadLayer_init es ee cl h"
  assume a: "(\<forall>e\<in>S. \<exists>e'\<in>S. get_next_edge E front e = Some e') \<and> ee \<notin> S \<and> es \<in> S"
  have "QuadLayer_walk E front vs (Some es) ?init = None"
    by (rule walk_diverges[where S = S]) (use a in \<open>simp_all add: QuadLayer_init_def\<close>)
  then show "QuadLayer_ctor E front vs es ee cl h = None"
    by (simp add: QuadLayer_ctor_def)
qed

lemma next_front1:
  "get_next_edge env1 front1 0 = Some 1" "get_next_edge env1 front1 (Suc 0) = Some 2"
  "get_next_edge env1 front1 2 = Some 3" "get_next_edge env1 front1 3 = Some 0"
  by (simp_all add: env1_def env0_def next_connected_def front1_def mk_edge_def Let_def)

lemma next_front2:
  "get_next_edge env1 front2 0 = Some 1" "get_next_edge env1 front2 (Suc 0) = None"
  by (simp_all add: env1_def env0_def next_connected_def front2_def front1_def mk_edge_def Let_def)

lemma next_front1_hole:
  "get_next_edge env1 front1 4 = Some 5" "get_next_edge env1 front1 5 = Some 6"
  "get_next_edge env1 front1 6 = Some 7" "get_next_edge env1 front1 7 = Some 4"
  by (simp_all add: env1_def env0_def next_connected_def front1_def mk_edge_def Let_def)

theorem QuadLayer_ctor_chain_witness:
  "chain (get_next_edge env1 front1) [0, 1] \<and> 2 \<notin> set [1::nat] \<and>
   get_next_edge env1 front1 (last [0, 1]) = Some 2 \<and>
   (\<exists>ql. QuadLayer_ctor env1 front1 verts1 0 2 False 1 = Some (Inr ql) \<and>
      base_edges ql = [0, 1, 2] \<and> base_v1 ql = [0, 1, 2] \<and> base_v2 ql = [1, 2, 3]) \<and>
   chain (get_next_edge env1 front2) [0, 1] \<and>
   get_next_edge env1 front2 (last [0, 1]) = None \<and>
   QuadLayer_ctor env1 front2 verts1 0 2 False 1 = Some (Inl StructuralAssertion) \<and>
   QuadLayer_ctor env1 front1 verts1 4 0 False 1 = None"
proof -
  have c1: "chain (get_next_edge env1 front1) (0 # [1])" by (simp add: next_front1)
  have c2: "chain (get_next_edge env1 front2) (0 # [1])" by (simp add: next_front2)
  have n: "2 \<notin> set [1::nat]" by simp
  have l1: "get_next_edge env1 front1 (last (0 # [1])) = Some 2" by (simp add: next_front1)
  have l2: "get_next_edge env1 front2 (last (0 # [1])) = None" by (simp add: next_front2)
  from QuadLayer_ctor_chain[OF c1 n, of verts1 False 1] l1
  obtain ql where q: "QuadLayer_ctor env1 front1 verts1 0 2 False 1 = Some (Inr ql)"
    "base_edges ql = 0 # [1] @ [2]"
    "base_v1 ql = map (\<lambda>e. v1 (edge_at front1 e)) (0 # [1] @ [2])"
    "base_v2 ql = map (\<lambda>e. v2 (edge_at front1 e)) (0 # [1] @ [2])"
    by blast
  have b: "base_v1 ql = [0, 1, 2]" "base_v2 ql = [1, 2, 3]" "base_edges ql = [0, 1, 2]"
    using q by (simp_all add: front1_def mk_edge_def Let_def)
  from QuadLayer_ctor_chain[OF c2 n, of verts1 False 1] l2
  have f: "QuadLayer_ctor env1 front2 verts1 0 2 False 1 = Some (Inl StructuralAssertion)"
    by blast
  have c3: "chain (get_next_edge env1 front1) (4 # [])" by simp
  have n3: "0 \<notin> set ([] :: nat list)" by simp
  have ring: "(\<forall>e\<in>{4, 5, 6, 7}. \<exists>e'\<in>{4, 5, 6, 7}. get_next_edge env1 front1 e = Some e') \<and>
              0 \<notin> {4, 5, 6, 7 :: nat} \<and> 4 \<in> {4, 5, 6, 7 :: nat}"
    by (simp add: next_front1_hole)
  from QuadLayer_ctor_chain[OF c3 n3, where S = "{4, 5, 6, 7}" and vs = verts1 and cl = False
      and h = 1, THEN conjunct2, THEN conjunct2, THEN mp, OF ring]
  have d: "QuadLayer_ctor env1 front1 verts1 4 0 False 1 = None" .
  show ?thesis using c1 c2 n l1 l2 q(1) b f d by simp
qed

text \<open>
  C3, as stated, fails: on a front of two rings, with \<open>e_start\<close> on the outer ring and
  \<open>e_end\<close> on the inner one, the walk circles the outer ring for ever. The constructor has
  no check for coming back to where it started.
\<close>

theorem QuadLayer_ctor_not_total:
  "4 \<in> set (edges front1) \<and> QuadLayer_ctor env1 front1 verts1 0 4 False 1 = None"
proof -
  have cl: "\<forall>e\<in>{0, 1, 2, 3}. \<exists>e'\<in>{0, 1, 2, 3}. get_next_edge env1 front1 e = Some e'"
    by (simp add: next_front1)
  have "QuadLayer_walk env1 front1 verts1 (Some 0) (QuadLayer_init 0 4 False 1) = None"
    by (rule walk_diverges[OF cl]) (simp_all add: QuadLayer_init_def)
  then show ?thesis by (simp add: QuadLayer_ctor_def front1_def)
qed

section \<open>Verification: interior joints\<close>

lemma xy_proj_of_merged: "xy_proj_of E front vs ql i j = merged_coordinate E front vs ql i j"
  by (simp add: xy_proj_of_def merged_coordinate_def Let_def)

lemma same_bases_refl: "same_bases ql ql"
  by (simp add: same_bases_def)

lemma same_bases_trans: "same_bases a b \<Longrightarrow> same_bases b c \<Longrightarrow> same_bases a c"
  by (simp add: same_bases_def)

lemma same_bases_wedge: "same_bases ql ql' \<Longrightarrow> is_wedge E vs ql' i j = is_wedge E vs ql i j"
  by (simp add: same_bases_def is_wedge_def)

lemma same_bases_merged:
  "same_bases ql ql' \<Longrightarrow> merged_coordinate E front vs ql' i j = merged_coordinate E front vs ql i j"
  by (simp add: same_bases_def merged_coordinate_def)

lemma adjust_same_bases:
  "same_bases ql (adjust_projected_vertex_coordinates E front vs i j ql)"
  by (simp add: same_bases_def adjust_projected_vertex_coordinates_def)

lemma adjust_proj_v1_xy:
  "proj_v1_xy (adjust_projected_vertex_coordinates E front vs i j ql) =
     (if is_wedge E vs ql i j then proj_v1_xy ql
      else (proj_v1_xy ql)[j := merged_coordinate E front vs ql i j])"
  by (simp add: adjust_projected_vertex_coordinates_def xy_proj_of_merged)

lemma adjust_proj_v2_xy:
  "proj_v2_xy (adjust_projected_vertex_coordinates E front vs i j ql) =
     (if is_wedge E vs ql i j then proj_v2_xy ql
      else (proj_v2_xy ql)[i := merged_coordinate E front vs ql i j])"
  by (simp add: adjust_projected_vertex_coordinates_def xy_proj_of_merged)

lemma adjust_joint:
  assumes "i < length (proj_v2_xy ql)" and "j < length (proj_v1_xy ql)"
  shows "joint_reconciled E front vs ql (adjust_projected_vertex_coordinates E front vs i j ql) i j"
  using assms by (simp add: joint_reconciled_def adjust_proj_v1_xy adjust_proj_v2_xy)

lemma adjust_loop:
  assumes len: "length (proj_v1_xy ql) = n" "length (proj_v2_xy ql) = n"
  shows "k \<le> n \<Longrightarrow>
    (let q = fold (\<lambda>i. adjust_projected_vertex_coordinates E front vs (i - 1) i) [1 ..< k] ql
     in same_bases ql q \<and>
        (\<forall>j. 0 < j \<and> j < k \<longrightarrow> joint_reconciled E front vs ql q (j - 1) j) \<and>
        (\<forall>j. j = 0 \<or> k \<le> j \<longrightarrow> proj_v1_xy q ! j = proj_v1_xy ql ! j) \<and>
        (\<forall>i. k \<le> Suc i \<longrightarrow> proj_v2_xy q ! i = proj_v2_xy ql ! i))"
proof (induction k)
  case 0
  then show ?case by (simp add: same_bases_refl)
next
  case (Suc k)
  show ?case
  proof (cases "k = 0")
    case True
    then show ?thesis by (simp add: same_bases_refl)
  next
    case False
    define q where "q = fold (\<lambda>i. adjust_projected_vertex_coordinates E front vs (i - 1) i) [1 ..< k] ql"
    let ?q' = "adjust_projected_vertex_coordinates E front vs (k - 1) k q"
    from Suc.prems have kn: "k \<le> n" "k < n" by simp_all
    from Suc.IH[OF kn(1)] have
      sb: "same_bases ql q" and
      jr: "\<And>j. 0 < j \<and> j < k \<Longrightarrow> joint_reconciled E front vs ql q (j - 1) j" and
      p1: "\<And>j. j = 0 \<or> k \<le> j \<Longrightarrow> proj_v1_xy q ! j = proj_v1_xy ql ! j" and
      p2: "\<And>i. k \<le> Suc i \<Longrightarrow> proj_v2_xy q ! i = proj_v2_xy ql ! i"
      unfolding q_def Let_def by blast+
    have f: "fold (\<lambda>i. adjust_projected_vertex_coordinates E front vs (i - 1) i) [1 ..< Suc k] ql = ?q'"
      using False by (simp add: q_def)
    have l1: "length (proj_v1_xy q) = n" and l2: "length (proj_v2_xy q) = n"
      using sb len by (simp_all add: same_bases_def)
    have w: "is_wedge E vs q a b = is_wedge E vs ql a b" for a b
      by (rule same_bases_wedge[OF sb])
    have m: "merged_coordinate E front vs q a b = merged_coordinate E front vs ql a b" for a b
      by (rule same_bases_merged[OF sb])
    have a: "same_bases ql ?q'"
      by (rule same_bases_trans[OF sb adjust_same_bases])
    have v1': "proj_v1_xy ?q' ! j = proj_v1_xy q ! j" if "j \<noteq> k" for j
      using that by (simp add: adjust_proj_v1_xy)
    have v2': "proj_v2_xy ?q' ! i = proj_v2_xy q ! i" if "i \<noteq> k - 1" for i
      using that by (simp add: adjust_proj_v2_xy)
    have b: "joint_reconciled E front vs ql ?q' (j - 1) j" if "0 < j \<and> j < Suc k" for j
    proof (cases "j = k")
      case True
      have "k - 1 < length (proj_v2_xy q)" "k < length (proj_v1_xy q)"
        using kn l1 l2 by simp_all
      then have "joint_reconciled E front vs q ?q' (k - 1) k" by (rule adjust_joint)
      moreover have "proj_v2_xy q ! (k - 1) = proj_v2_xy ql ! (k - 1)"
        using False by (intro p2) simp
      moreover have "proj_v1_xy q ! k = proj_v1_xy ql ! k" by (intro p1) simp
      ultimately show ?thesis using True by (simp add: joint_reconciled_def w m)
    next
      case jk: False
      with that have j: "0 < j \<and> j < k" by simp
      then have "j - 1 \<noteq> k - 1" by arith
      then have "proj_v2_xy ?q' ! (j - 1) = proj_v2_xy q ! (j - 1)" by (rule v2')
      moreover have "proj_v1_xy ?q' ! j = proj_v1_xy q ! j" using jk by (rule v1')
      ultimately show ?thesis using jr[OF j] by (simp add: joint_reconciled_def)
    qed
    have c: "proj_v1_xy ?q' ! j = proj_v1_xy ql ! j" if "j = 0 \<or> Suc k \<le> j" for j
    proof -
      from that False have "j \<noteq> k" by auto
      then have "proj_v1_xy ?q' ! j = proj_v1_xy q ! j" by (rule v1')
      moreover from that have "proj_v1_xy q ! j = proj_v1_xy ql ! j" by (intro p1) auto
      ultimately show ?thesis by simp
    qed
    have d: "proj_v2_xy ?q' ! i = proj_v2_xy ql ! i" if "Suc k \<le> Suc i" for i
    proof -
      from that False have "i \<noteq> k - 1" by arith
      then have "proj_v2_xy ?q' ! i = proj_v2_xy q ! i" by (rule v2')
      moreover from that have "proj_v2_xy q ! i = proj_v2_xy ql ! i" by (intro p2) simp
      ultimately show ?thesis by simp
    qed
    show ?thesis unfolding Let_def f using a b c d by simp
  qed
qed

lemma place_start_vertex_frame:
  assumes "place_start_vertex E vs front bdry ql = Inr (ql', vs', front', bdry')"
  shows "same_bases ql ql' \<and> proj_v2_xy ql' = proj_v2_xy ql \<and> proj_v2 ql' = proj_v2 ql \<and>
         (\<forall>j. j \<noteq> 0 \<longrightarrow> proj_v1_xy ql' ! j = proj_v1_xy ql ! j \<and> proj_v1 ql' ! j = proj_v1 ql ! j)"
  using assms
  by (auto simp: place_start_vertex_def Let_def same_bases_def
           split: if_splits option.splits prod.splits)

lemma place_end_vertex_frame:
  assumes "place_end_vertex E vs front bdry ql = Inr (ql', vs', front', bdry')"
  shows "same_bases ql ql' \<and> proj_v1_xy ql' = proj_v1_xy ql \<and> proj_v1 ql' = proj_v1 ql \<and>
         (\<forall>j. j \<noteq> length (proj_v2_xy ql) - 1 \<longrightarrow> proj_v2_xy ql' ! j = proj_v2_xy ql ! j) \<and>
         (\<forall>j. j \<noteq> length (proj_v2 ql) - 1 \<longrightarrow> proj_v2 ql' ! j = proj_v2 ql ! j)"
  using assms
  by (auto simp: place_end_vertex_def Let_def same_bases_def
           split: if_splits option.splits prod.splits)

lemma joint_reconciled_cong:
  "proj_v2_xy a ! i = proj_v2_xy b ! i \<Longrightarrow> proj_v1_xy a ! j = proj_v1_xy b ! j \<Longrightarrow>
   joint_reconciled E front vs ql a i j = joint_reconciled E front vs ql b i j"
  by (simp add: joint_reconciled_def)

lemma setup_joints:
  assumes len: "length (base_edges ql) = n" "length (proj_v1_xy ql) = n"
               "length (proj_v2_xy ql) = n"
      and ret: "setup_vertex_projection E vs front bdry ql = Inr (ql', vs', front', bdry')"
  shows "(\<forall>j. 0 < j \<and> j < n \<longrightarrow> joint_reconciled E front vs ql ql' (j - 1) j) \<and>
         (is_closed ql \<longrightarrow> joint_reconciled E front vs ql ql' (n - 1) 0)"
proof -
  define q where "q = fold (\<lambda>i. adjust_projected_vertex_coordinates E front vs (i - 1) i) [1 ..< n] ql"
  from adjust_loop[OF len(2,3) order_refl, of E front vs] have
    sb: "same_bases ql q" and
    jr: "\<And>j. 0 < j \<and> j < n \<Longrightarrow> joint_reconciled E front vs ql q (j - 1) j" and
    p1: "\<And>j. j = 0 \<or> n \<le> j \<Longrightarrow> proj_v1_xy q ! j = proj_v1_xy ql ! j" and
    p2: "\<And>i. n \<le> Suc i \<Longrightarrow> proj_v2_xy q ! i = proj_v2_xy ql ! i"
    unfolding q_def Let_def by blast+
  have l1: "length (proj_v1_xy q) = n" and l2: "length (proj_v2_xy q) = n"
    using sb len by (simp_all add: same_bases_def)
  show ?thesis
  proof (cases "is_closed ql")
    case True
    with ret len have ne: "n \<noteq> 0" and
      r: "ql' = adjust_projected_vertex_coordinates E front vs (n - 1) 0 q"
      by (auto simp: setup_vertex_projection_def Let_def q_def split: if_splits)
    have a: "joint_reconciled E front vs ql ql' (j - 1) j" if j: "0 < j \<and> j < n" for j
    proof -
      from j have "j - 1 \<noteq> n - 1" "j \<noteq> 0" by arith+
      then have "proj_v2_xy ql' ! (j - 1) = proj_v2_xy q ! (j - 1)"
        "proj_v1_xy ql' ! j = proj_v1_xy q ! j"
        by (simp_all add: r adjust_proj_v1_xy adjust_proj_v2_xy)
      from joint_reconciled_cong[OF this] jr[OF j] show ?thesis by simp
    qed
    have "n - 1 < length (proj_v2_xy q)" "0 < length (proj_v1_xy q)"
      using ne l1 l2 by simp_all
    then have "joint_reconciled E front vs q ql' (n - 1) 0"
      unfolding r by (rule adjust_joint)
    moreover have "proj_v2_xy q ! (n - 1) = proj_v2_xy ql ! (n - 1)"
      using ne by (intro p2) simp
    moreover have "proj_v1_xy q ! 0 = proj_v1_xy ql ! 0" by (intro p1) simp
    ultimately have "joint_reconciled E front vs ql ql' (n - 1) 0"
      by (simp add: joint_reconciled_def same_bases_wedge[OF sb] same_bases_merged[OF sb])
    with a show ?thesis by simp
  next
    case False
    with ret len obtain ql2 vs2 front2 bdry2 where
      s: "place_start_vertex E vs front bdry q = Inr (ql2, vs2, front2, bdry2)" and
      e: "place_end_vertex E vs2 front2 bdry2 ql2 = Inr (ql', vs', front', bdry')"
      by (auto simp: setup_vertex_projection_def Let_def q_def split: sum.splits)
    note fs = place_start_vertex_frame[OF s]
    note fe = place_end_vertex_frame[OF e]
    have l3: "length (proj_v2_xy ql2) = n" using fs l2 by simp
    have a: "joint_reconciled E front vs ql ql' (j - 1) j" if j: "0 < j \<and> j < n" for j
    proof -
      from j have "j - 1 \<noteq> length (proj_v2_xy ql2) - 1" "j \<noteq> 0" unfolding l3 by arith+
      then have "proj_v2_xy ql' ! (j - 1) = proj_v2_xy q ! (j - 1)"
        "proj_v1_xy ql' ! j = proj_v1_xy q ! j"
        using fs fe by simp_all
      from joint_reconciled_cong[OF this] jr[OF j] show ?thesis by simp
    qed
    with False show ?thesis by simp
  qed
qed

lemma place_start_vertex_keep:
  assumes "base_v1 ql \<noteq> []" and "get_prev_edge E front (e_start ql) = Some e_prv"
      and "v2 (edge_at front e_prv) = base_v1 ql ! 0"
      and "\<not> is_left E (xy (vertex_at vs (base_v1 ql ! 0))) (xy (vertex_at vs (base_v2 ql ! 0)))
                        (xy (vertex_at vs (v1 (edge_at front e_prv))))"
  shows "place_start_vertex E vs front bdry ql = Inr (ql, vs, front, bdry)"
  using assms by (simp add: place_start_vertex_def)

lemma place_end_vertex_keep:
  assumes "base_v2 ql \<noteq> []" and "get_next_edge E front (e_end ql) = Some e_nxt"
      and "v1 (edge_at front e_nxt) = last (base_v2 ql)"
      and "\<not> is_left E (xy (vertex_at vs (last (base_v1 ql)))) (xy (vertex_at vs (last (base_v2 ql))))
                        (xy (vertex_at vs (v2 (edge_at front e_nxt))))"
  shows "place_end_vertex E vs front bdry ql = Inr (ql, vs, front, bdry)"
  using assms by (simp add: place_end_vertex_def)

lemma setup_closed_returns:
  assumes "is_closed ql" and "base_edges ql \<noteq> []"
  shows "\<exists>ql'. setup_vertex_projection E vs front bdry ql = Inr (ql', vs, front, bdry)"
  using assms by (simp add: setup_vertex_projection_def Let_def)

lemma setup_open_keep:
  assumes op: "\<not> is_closed ql" and b1: "base_v1 ql \<noteq> []" and b2: "base_v2 ql \<noteq> []"
      and pr: "get_prev_edge E front (e_start ql) = Some e_prv"
      and pc: "v2 (edge_at front e_prv) = base_v1 ql ! 0"
      and pl: "\<not> is_left E (xy (vertex_at vs (base_v1 ql ! 0))) (xy (vertex_at vs (base_v2 ql ! 0)))
                        (xy (vertex_at vs (v1 (edge_at front e_prv))))"
      and nx: "get_next_edge E front (e_end ql) = Some e_nxt"
      and nc: "v1 (edge_at front e_nxt) = last (base_v2 ql)"
      and nl: "\<not> is_left E (xy (vertex_at vs (last (base_v1 ql))))
                        (xy (vertex_at vs (last (base_v2 ql))))
                        (xy (vertex_at vs (v2 (edge_at front e_nxt))))"
  shows "\<exists>ql'. setup_vertex_projection E vs front bdry ql = Inr (ql', vs, front, bdry)"
proof -
  define q where "q = fold (\<lambda>i. adjust_projected_vertex_coordinates E front vs (i - 1) i)
                       [1 ..< length (base_edges ql)] ql"
  have sb: "same_bases ql q"
  proof -
    have "same_bases ql (fold (\<lambda>i. adjust_projected_vertex_coordinates E front vs (i - 1) i) xs ql)"
      for xs
    proof (induction xs rule: rev_induct)
      case Nil
      show ?case by (simp add: same_bases_refl)
    next
      case (snoc x xs)
      then show ?case
        by (simp add: same_bases_trans[OF _ adjust_same_bases])
    qed
    then show ?thesis by (simp add: q_def)
  qed
  then have f: "e_start q = e_start ql" "e_end q = e_end ql" "base_v1 q = base_v1 ql"
    "base_v2 q = base_v2 ql"
    by (simp_all add: same_bases_def)
  have s: "place_start_vertex E vs front bdry q = Inr (q, vs, front, bdry)"
    by (rule place_start_vertex_keep[where e_prv = e_prv]) (simp_all add: f b1 pr pc pl)
  have e: "place_end_vertex E vs front bdry q = Inr (q, vs, front, bdry)"
    by (rule place_end_vertex_keep[where e_nxt = e_nxt]) (simp_all add: f b2 nx nc nl)
  have "setup_vertex_projection E vs front bdry ql = Inr (q, vs, front, bdry)"
    unfolding setup_vertex_projection_def Let_def q_def[symmetric]
    by (simp add: s e op)
  then show ?thesis by blast
qed


text \<open>
  C2. A call \<open>adjust_projected_vertex_coordinates(i, j)\<close> changes nothing when the joint is a
  wedge (\<open>is_left(p, r, q)\<close> and \<open>\<alpha> \<le> quad_layer_angle\<close>); otherwise it assigns the one
  merged coordinate to \<open>proj_v1_xy[j]\<close> and to \<open>proj_v2_xy[i]\<close> and changes nothing else.
  After \<open>setup_vertex_projection\<close> every interior joint \<open>(j - 1, j)\<close>, and the joint
  \<open>(n - 1, 0)\<close> of a closed layer, is reconciled: a wedge keeps the two coordinates the
  layer was constructed with, any other joint shares the merged coordinate. On a closed
  layer with at least one base \<open>setup_vertex_projection\<close> always returns, and leaves the
  vertices, the front and the boundary as they were; so it does on an open layer whose
  two neighbouring edges are connected to it and whose two neighbouring vertices are
  not left of the first and the last base.
\<close>

theorem interior_joints_reconciled:
  assumes len: "length (base_edges ql) = n" "length (proj_v1_xy ql) = n"
               "length (proj_v2_xy ql) = n"
  shows "is_wedge E vs ql i j =
           (is_left E (xy (vertex_at vs (base_v1 ql ! i))) (xy (vertex_at vs (base_v2 ql ! j)))
                      (xy (vertex_at vs (base_v1 ql ! j))) \<and>
            angle E (vsub (xy (vertex_at vs (base_v1 ql ! i))) (xy (vertex_at vs (base_v1 ql ! j))))
                    (vsub (xy (vertex_at vs (base_v2 ql ! j))) (xy (vertex_at vs (base_v1 ql ! j))))
              \<le> quad_layer_angle E) \<and>
         (is_wedge E vs ql i j \<longrightarrow>
            adjust_projected_vertex_coordinates E front vs i j ql = ql) \<and>
         (\<not> is_wedge E vs ql i j \<longrightarrow>
            adjust_projected_vertex_coordinates E front vs i j ql =
              ql\<lparr>proj_v1_xy := (proj_v1_xy ql)[j := merged_coordinate E front vs ql i j],
                 proj_v2_xy := (proj_v2_xy ql)[i := merged_coordinate E front vs ql i j]\<rparr>) \<and>
         (\<not> is_wedge E vs ql i j \<and> i < n \<and> j < n \<longrightarrow>
            proj_v1_xy (adjust_projected_vertex_coordinates E front vs i j ql) ! j =
              merged_coordinate E front vs ql i j \<and>
            proj_v2_xy (adjust_projected_vertex_coordinates E front vs i j ql) ! i =
              merged_coordinate E front vs ql i j) \<and>
         (\<forall>ql' vs' front' bdry'.
            setup_vertex_projection E vs front bdry ql = Inr (ql', vs', front', bdry') \<longrightarrow>
              (\<forall>k. 0 < k \<and> k < n \<longrightarrow> joint_reconciled E front vs ql ql' (k - 1) k) \<and>
              (is_closed ql \<longrightarrow> joint_reconciled E front vs ql ql' (n - 1) 0)) \<and>
         (is_closed ql \<and> 0 < n \<longrightarrow>
            (\<exists>ql'. setup_vertex_projection E vs front bdry ql = Inr (ql', vs, front, bdry) \<and>
               (\<forall>k. 0 < k \<and> k < n \<longrightarrow> joint_reconciled E front vs ql ql' (k - 1) k) \<and>
               joint_reconciled E front vs ql ql' (n - 1) 0)) \<and>
         (\<not> is_closed ql \<and> base_v1 ql \<noteq> [] \<and> base_v2 ql \<noteq> [] \<and>
          get_prev_edge E front (e_start ql) = Some e_prv \<and>
          v2 (edge_at front e_prv) = base_v1 ql ! 0 \<and>
          \<not> is_left E (xy (vertex_at vs (base_v1 ql ! 0))) (xy (vertex_at vs (base_v2 ql ! 0)))
                        (xy (vertex_at vs (v1 (edge_at front e_prv)))) \<and>
          get_next_edge E front (e_end ql) = Some e_nxt \<and>
          v1 (edge_at front e_nxt) = last (base_v2 ql) \<and>
          \<not> is_left E (xy (vertex_at vs (last (base_v1 ql))))
                        (xy (vertex_at vs (last (base_v2 ql))))
                        (xy (vertex_at vs (v2 (edge_at front e_nxt)))) \<longrightarrow>
            (\<exists>ql'. setup_vertex_projection E vs front bdry ql = Inr (ql', vs, front, bdry) \<and>
               (\<forall>k. 0 < k \<and> k < n \<longrightarrow> joint_reconciled E front vs ql ql' (k - 1) k)))"
proof (intro conjI)
  show "is_wedge E vs ql i j =
           (is_left E (xy (vertex_at vs (base_v1 ql ! i))) (xy (vertex_at vs (base_v2 ql ! j)))
                      (xy (vertex_at vs (base_v1 ql ! j))) \<and>
            angle E (vsub (xy (vertex_at vs (base_v1 ql ! i))) (xy (vertex_at vs (base_v1 ql ! j))))
                    (vsub (xy (vertex_at vs (base_v2 ql ! j))) (xy (vertex_at vs (base_v1 ql ! j))))
              \<le> quad_layer_angle E)"
    by (simp add: is_wedge_def Let_def)
  show "is_wedge E vs ql i j \<longrightarrow> adjust_projected_vertex_coordinates E front vs i j ql = ql"
    by (simp add: adjust_projected_vertex_coordinates_def)
  show "\<not> is_wedge E vs ql i j \<longrightarrow>
            adjust_projected_vertex_coordinates E front vs i j ql =
              ql\<lparr>proj_v1_xy := (proj_v1_xy ql)[j := merged_coordinate E front vs ql i j],
                 proj_v2_xy := (proj_v2_xy ql)[i := merged_coordinate E front vs ql i j]\<rparr>"
    by (simp add: adjust_projected_vertex_coordinates_def xy_proj_of_merged)
  show "\<not> is_wedge E vs ql i j \<and> i < n \<and> j < n \<longrightarrow>
            proj_v1_xy (adjust_projected_vertex_coordinates E front vs i j ql) ! j =
              merged_coordinate E front vs ql i j \<and>
            proj_v2_xy (adjust_projected_vertex_coordinates E front vs i j ql) ! i =
              merged_coordinate E front vs ql i j"
    using len by (simp add: adjust_proj_v1_xy adjust_proj_v2_xy)
  show "\<forall>ql' vs' front' bdry'.
            setup_vertex_projection E vs front bdry ql = Inr (ql', vs', front', bdry') \<longrightarrow>
              (\<forall>k. 0 < k \<and> k < n \<longrightarrow> joint_reconciled E front vs ql ql' (k - 1) k) \<and>
              (is_closed ql \<longrightarrow> joint_reconciled E front vs ql ql' (n - 1) 0)"
    using setup_joints[OF len] by blast
  show "(is_closed ql \<and> 0 < n \<longrightarrow>
            (\<exists>ql'. setup_vertex_projection E vs front bdry ql = Inr (ql', vs, front, bdry) \<and>
               (\<forall>k. 0 < k \<and> k < n \<longrightarrow> joint_reconciled E front vs ql ql' (k - 1) k) \<and>
               joint_reconciled E front vs ql ql' (n - 1) 0))"
  proof (intro impI, elim conjE)
    assume c: "is_closed ql" and n: "0 < n"
    from n len(1) have "base_edges ql \<noteq> []" by auto
    from setup_closed_returns[OF c this] obtain ql' where
      r: "setup_vertex_projection E vs front bdry ql = Inr (ql', vs, front, bdry)" by blast
    from setup_joints[OF len r] c r
    show "\<exists>ql'. setup_vertex_projection E vs front bdry ql = Inr (ql', vs, front, bdry) \<and>
               (\<forall>k. 0 < k \<and> k < n \<longrightarrow> joint_reconciled E front vs ql ql' (k - 1) k) \<and>
               joint_reconciled E front vs ql ql' (n - 1) 0"
      by blast
  qed
  show "(\<not> is_closed ql \<and> base_v1 ql \<noteq> [] \<and> base_v2 ql \<noteq> [] \<and>
          get_prev_edge E front (e_start ql) = Some e_prv \<and>
          v2 (edge_at front e_prv) = base_v1 ql ! 0 \<and>
          \<not> is_left E (xy (vertex_at vs (base_v1 ql ! 0))) (xy (vertex_at vs (base_v2 ql ! 0)))
                        (xy (vertex_at vs (v1 (edge_at front e_prv)))) \<and>
          get_next_edge E front (e_end ql) = Some e_nxt \<and>
          v1 (edge_at front e_nxt) = last (base_v2 ql) \<and>
          \<not> is_left E (xy (vertex_at vs (last (base_v1 ql))))
                        (xy (vertex_at vs (last (base_v2 ql))))
                        (xy (vertex_at vs (v2 (edge_at front e_nxt)))) \<longrightarrow>
            (\<exists>ql'. setup_vertex_projection E vs front bdry ql = Inr (ql', vs, front, bdry) \<and>
               (\<forall>k. 0 < k \<and> k < n \<longrightarrow> joint_reconciled E front vs ql ql' (k - 1) k)))"
  proof (intro impI, elim conjE)
    assume a: "\<not> is_closed ql" "base_v1 ql \<noteq> []" "base_v2 ql \<noteq> []"
      "get_prev_edge E front (e_start ql) = Some e_prv"
      "v2 (edge_at front e_prv) = base_v1 ql ! 0"
      "\<not> is_left E (xy (vertex_at vs (base_v1 ql ! 0))) (xy (vertex_at vs (base_v2 ql ! 0)))
                        (xy (vertex_at vs (v1 (edge_at front e_prv))))"
      "get_next_edge E front (e_end ql) = Some e_nxt"
      "v1 (edge_at front e_nxt) = last (base_v2 ql)"
      "\<not> is_left E (xy (vertex_at vs (last (base_v1 ql))))
                        (xy (vertex_at vs (last (base_v2 ql))))
                        (xy (vertex_at vs (v2 (edge_at front e_nxt))))"
    from setup_open_keep[OF a] obtain ql' where
      r: "setup_vertex_projection E vs front bdry ql = Inr (ql', vs, front, bdry)" by blast
    from setup_joints[OF len r] r
    show "\<exists>ql'. setup_vertex_projection E vs front bdry ql = Inr (ql', vs, front, bdry) \<and>
               (\<forall>k. 0 < k \<and> k < n \<longrightarrow> joint_reconciled E front vs ql ql' (k - 1) k)"
      by blast
  qed
qed



lemma line_prev: "get_prev_edge env1 line_front (Suc 0) = Some 0"
  by (simp add: env1_def env0_def prev_connected_def line_front_def mk_edge_def Let_def)

lemma line_next: "get_next_edge env1 line_front 3 = Some 4"
  by (simp add: env1_def env0_def next_connected_def line_front_def mk_edge_def Let_def)

lemma line_no_wedge: "\<not> is_wedge env1 line_verts line_layer i j"
  by (simp add: is_wedge_def env1_def env0_def)

lemma line_merged:
  "merged_coordinate env1 line_front line_verts line_layer 0 (Suc 0) = (2, 3 / 8)"
  by (simp add: merged_coordinate_def env1_def env0_def line_front_def line_verts_def
      line_layer_def line_xy_def mk_edge_def Let_def vadd_def vsub_def smul_def sdiv_def
      vnorm_def norm_sqr_def)

lemma line_setup:
  "\<exists>r. setup_vertex_projection env1 line_verts line_front line_front line_layer = Inr r"
proof -
  define q where "q = fold (\<lambda>i. adjust_projected_vertex_coordinates env1 line_front line_verts (i - 1) i)
                     [1 ..< length (base_edges line_layer)] line_layer"
  have l3: "length (proj_v1_xy line_layer) = 3" "length (proj_v2_xy line_layer) = 3"
    "length (base_edges line_layer) = 3"
    by (simp_all add: line_layer_def)
  have "same_bases line_layer q"
    using adjust_loop[OF l3(1,2) order_refl, of env1 line_front line_verts]
    by (simp add: q_def Let_def l3)
  then have b: "e_start q = Suc 0" "e_end q = 3" "base_v1 q = [Suc 0, 2, 3]" "base_v2 q = [2, 3, 4]"
    by (simp_all add: same_bases_def line_layer_def)
  have nl: "\<not> is_left env1 a b c" for a b c by (simp add: env1_def env0_def)
  have s: "place_start_vertex env1 line_verts line_front line_front q =
             Inr (q, line_verts, line_front, line_front)"
    by (rule place_start_vertex_keep[where e_prv = 0])
       (simp_all add: b line_prev nl, simp add: line_front_def mk_edge_def Let_def)
  have e: "place_end_vertex env1 line_verts line_front line_front q =
             Inr (q, line_verts, line_front, line_front)"
    by (rule place_end_vertex_keep[where e_nxt = 4])
       (simp_all add: b line_next nl, simp add: line_front_def mk_edge_def Let_def)
  have "setup_vertex_projection env1 line_verts line_front line_front line_layer =
          Inr (q, line_verts, line_front, line_front)"
    unfolding setup_vertex_projection_def Let_def q_def[symmetric]
    by (simp add: s e) (simp add: line_layer_def)
  then show ?thesis by blast
qed

lemma sq_closing_not_wedge: "\<not> is_wedge env2 verts1 sq_closed 3 0"
  by (simp add: is_wedge_def Let_def env2_def is_left_cross_def verts1_def sq_closed_def
      sq_xy_def)

lemma hole_closing_wedge: "is_wedge env2 verts1 hole_closed 3 0"
  by (simp add: is_wedge_def Let_def env2_def env1_def env0_def is_left_cross_def
      angle_between_def verts1_def hole_closed_def sq_xy_def vsub_def)

lemma sq_closing_merged:
  "merged_coordinate env2 front1 verts1 sq_closed 3 0 = (1 / 4, 1 / 4)"
  by (simp add: merged_coordinate_def Let_def env2_def angle_between_def verts1_def
      sq_closed_def sq_xy_def front1_def mk_edge_def vsub_def vadd_def smul_def sdiv_def
      vnorm_def norm_sqr_def sin_45 real_sqrt_divide)


theorem interior_joints_reconciled_witness:
  "(length (base_edges line_layer) = 3 \<and> length (proj_v1_xy line_layer) = 3 \<and>
    length (proj_v2_xy line_layer) = 3 \<and>
    (\<exists>ql'. setup_vertex_projection env1 line_verts line_front line_front line_layer =
        Inr (ql', line_verts, line_front, line_front) \<and>
      proj_v2_xy ql' ! 0 = (2, 3 / 8) \<and> proj_v1_xy ql' ! 1 = (2, 3 / 8))) \<and>
   (\<exists>ql'. setup_vertex_projection env2 verts1 front1 front1 sq_closed =
        Inr (ql', verts1, front1, front1) \<and>
      proj_v2_xy ql' ! 3 = (1 / 4, 1 / 4) \<and> proj_v1_xy ql' ! 0 = (1 / 4, 1 / 4)) \<and>
   (\<exists>ql'. setup_vertex_projection env2 verts1 front1 front1 hole_closed =
        Inr (ql', verts1, front1, front1) \<and>
      proj_v2_xy ql' ! 3 = (1 / 4, 1 / 8) \<and> proj_v1_xy ql' ! 0 = (1 / 8, 1 / 4))"
proof (intro conjI)
  have l: "length (base_edges line_layer) = 3" "length (proj_v1_xy line_layer) = 3"
    "length (proj_v2_xy line_layer) = 3"
    by (simp_all add: line_layer_def)
  show "length (base_edges line_layer) = 3" "length (proj_v1_xy line_layer) = 3"
    "length (proj_v2_xy line_layer) = 3"
    by (rule l)+
  have nl: "\<not> is_left env1 a b c" for a b c by (simp add: env1_def env0_def)
  have op: "\<not> is_closed line_layer \<and> base_v1 line_layer \<noteq> [] \<and> base_v2 line_layer \<noteq> [] \<and>
          get_prev_edge env1 line_front (e_start line_layer) = Some 0 \<and>
          v2 (edge_at line_front 0) = base_v1 line_layer ! 0 \<and>
          \<not> is_left env1 (xy (vertex_at line_verts (base_v1 line_layer ! 0)))
                        (xy (vertex_at line_verts (base_v2 line_layer ! 0)))
                        (xy (vertex_at line_verts (v1 (edge_at line_front 0)))) \<and>
          get_next_edge env1 line_front (e_end line_layer) = Some 4 \<and>
          v1 (edge_at line_front 4) = last (base_v2 line_layer) \<and>
          \<not> is_left env1 (xy (vertex_at line_verts (last (base_v1 line_layer))))
                        (xy (vertex_at line_verts (last (base_v2 line_layer))))
                        (xy (vertex_at line_verts (v2 (edge_at line_front 4))))"
    by (intro conjI nl) (simp_all add: line_layer_def line_prev line_next,
        simp_all add: line_front_def mk_edge_def Let_def)
  from interior_joints_reconciled[OF l, where E = env1 and vs = line_verts and front = line_front
      and bdry = line_front and e_prv = 0 and e_nxt = 4,
      THEN conjunct2, THEN conjunct2, THEN conjunct2, THEN conjunct2, THEN conjunct2,
      THEN conjunct2, THEN mp, OF op]
  obtain ql' where
    r: "setup_vertex_projection env1 line_verts line_front line_front line_layer =
          Inr (ql', line_verts, line_front, line_front)" and
    j: "\<forall>k. 0 < k \<and> k < 3 \<longrightarrow> joint_reconciled env1 line_front line_verts line_layer ql' (k - 1) k"
    by blast
  have "0 < (1 :: nat) \<and> (1 :: nat) < 3" by simp
  with j have "joint_reconciled env1 line_front line_verts line_layer ql' (1 - 1) 1"
    by blast
  then have "proj_v2_xy ql' ! 0 = (2, 3 / 8) \<and> proj_v1_xy ql' ! 1 = (2, 3 / 8)"
    by (simp add: joint_reconciled_def line_no_wedge line_merged)
  with r show "\<exists>ql'. setup_vertex_projection env1 line_verts line_front line_front line_layer =
        Inr (ql', line_verts, line_front, line_front) \<and>
      proj_v2_xy ql' ! 0 = (2, 3 / 8) \<and> proj_v1_xy ql' ! 1 = (2, 3 / 8)"
    by blast
next
  have l: "length (base_edges sq_closed) = 4" "length (proj_v1_xy sq_closed) = 4"
    "length (proj_v2_xy sq_closed) = 4"
    by (simp_all add: sq_closed_def)
  have c: "is_closed sq_closed \<and> 0 < (4 :: nat)" by (simp add: sq_closed_def)
  from interior_joints_reconciled[OF l, where E = env2 and vs = verts1 and front = front1
      and bdry = front1,
      THEN conjunct2, THEN conjunct2, THEN conjunct2, THEN conjunct2, THEN conjunct2,
      THEN conjunct1, THEN mp, OF c]
  obtain ql' where
    r: "setup_vertex_projection env2 verts1 front1 front1 sq_closed =
          Inr (ql', verts1, front1, front1)" and
    j: "joint_reconciled env2 front1 verts1 sq_closed ql' (4 - 1) 0"
    by blast
  from j have "proj_v2_xy ql' ! 3 = (1 / 4, 1 / 4) \<and> proj_v1_xy ql' ! 0 = (1 / 4, 1 / 4)"
    by (simp add: joint_reconciled_def sq_closing_not_wedge sq_closing_merged)
  with r show "\<exists>ql'. setup_vertex_projection env2 verts1 front1 front1 sq_closed =
        Inr (ql', verts1, front1, front1) \<and>
      proj_v2_xy ql' ! 3 = (1 / 4, 1 / 4) \<and> proj_v1_xy ql' ! 0 = (1 / 4, 1 / 4)"
    by blast
next
  have l: "length (base_edges hole_closed) = 4" "length (proj_v1_xy hole_closed) = 4"
    "length (proj_v2_xy hole_closed) = 4"
    by (simp_all add: hole_closed_def)
  have c: "is_closed hole_closed \<and> 0 < (4 :: nat)" by (simp add: hole_closed_def)
  from interior_joints_reconciled[OF l, where E = env2 and vs = verts1 and front = front1
      and bdry = front1,
      THEN conjunct2, THEN conjunct2, THEN conjunct2, THEN conjunct2, THEN conjunct2,
      THEN conjunct1, THEN mp, OF c]
  obtain ql' where
    r: "setup_vertex_projection env2 verts1 front1 front1 hole_closed =
          Inr (ql', verts1, front1, front1)" and
    j: "joint_reconciled env2 front1 verts1 hole_closed ql' (4 - 1) 0"
    by blast
  from j have "proj_v2_xy ql' ! 3 = (1 / 4, 1 / 8) \<and> proj_v1_xy ql' ! 0 = (1 / 8, 1 / 4)"
    by (simp add: joint_reconciled_def hole_closing_wedge) (simp add: hole_closed_def)
  with r show "\<exists>ql'. setup_vertex_projection env2 verts1 front1 front1 hole_closed =
        Inr (ql', verts1, front1, front1) \<and>
      proj_v2_xy ql' ! 3 = (1 / 4, 1 / 8) \<and> proj_v1_xy ql' ! 0 = (1 / 8, 1 / 4)"
    by blast
qed

section \<open>Verification: end points of an open layer\<close>

lemma fold_max_ge: "a \<le> fold max xs (a::nat)"
  by (induction xs arbitrary: a) (auto intro: order_trans[OF max.cobounded2])

lemma fold_max_mem: "x \<in> set xs \<Longrightarrow> x \<le> fold max xs (a::nat)"
proof (induction xs arbitrary: a)
  case Nil
  then show ?case by simp
next
  case (Cons y ys)
  show ?case
  proof (cases "x = y")
    case True
    have "y \<le> max y a" by simp
    also have "\<dots> \<le> fold max ys (max y a)" by (rule fold_max_ge)
    finally show ?thesis using True by simp
  next
    case False
    with Cons.prems have "x \<in> set ys" by simp
    then show ?thesis by (simp add: Cons.IH)
  qed
qed

lemma fresh_notin: "fresh xs \<notin> set xs"
proof
  assume "fresh xs \<in> set xs"
  then have "fresh xs \<le> fold max xs 0" by (rule fold_max_mem)
  then show False by (simp add: fresh_def)
qed

lemma set_insert_before: "set (insert_before pos x xs) = insert x (set xs)"
  by (induction xs) auto


lemma insert_edge_edges:
  "insert_edge mk l vs pos a b m = ((l', vs'), n) \<Longrightarrow>
     n = fresh (edges l) \<and> edges l' = insert_before pos n (edges l) \<and>
     edge_at l' = (edge_at l)(n := new_edge vs a b m) \<and> vs' = mk a b vs"
  by (auto simp: insert_edge_def Let_def)

lemma new_edge_fields:
  "v1 (new_edge vs a b m) = a" "v2 (new_edge vs a b m) = b" "marker (new_edge vs a b m) = m"
  "twin_edge (new_edge vs a b m) = None"
  by (simp_all add: new_edge_def Let_def)


lemma place_start_vertex_merge:
  assumes "base_v1 ql \<noteq> []" and "get_prev_edge E front (e_start ql) = Some e_prv"
      and "v2 (edge_at front e_prv) = base_v1 ql ! 0"
      and "is_left E (xy (vertex_at vs (base_v1 ql ! 0))) (xy (vertex_at vs (base_v2 ql ! 0)))
                     (xy (vertex_at vs (v1 (edge_at front e_prv))))"
      and "heights ql ! 0 \<noteq> 0"
      and "vnorm (vsub (xy (vertex_at vs (v1 (edge_at front e_prv)))) (proj_v1_xy ql ! 0))
             / (heights ql ! 0) < 1"
  shows "place_start_vertex E vs front bdry ql =
           Inr (ql\<lparr>proj_v1 := (proj_v1 ql)[0 := Some (v1 (edge_at front e_prv))]\<rparr>,
                vs, front, bdry)"
  using assms by (simp add: place_start_vertex_def Let_def)



lemma place_end_vertex_merge:
  assumes "base_v2 ql \<noteq> []" and "get_next_edge E front (e_end ql) = Some e_nxt"
      and "v1 (edge_at front e_nxt) = last (base_v2 ql)"
      and "is_left E (xy (vertex_at vs (last (base_v1 ql)))) (xy (vertex_at vs (last (base_v2 ql))))
                     (xy (vertex_at vs (v2 (edge_at front e_nxt))))"
      and "last (heights ql) \<noteq> 0"
      and "vnorm (vsub (xy (vertex_at vs (v2 (edge_at front e_nxt)))) (last (proj_v2_xy ql)))
             / (last (heights ql)) < 1"
  shows "place_end_vertex E vs front bdry ql =
           Inr (ql\<lparr>proj_v2 := (proj_v2 ql)[length (proj_v2 ql) - 1 := Some (v2 (edge_at front e_nxt))]\<rparr>,
                vs, front, bdry)"
  using assms by (simp add: place_end_vertex_def Let_def)



text \<open>
  C10. In the merge case of \<open>place_start_vertex\<close> (the previous vertex strictly left of the
  first base edge and \<open>d_fac < 1\<close>, the height being nonzero) the function returns the
  layer with \<open>proj_v1[0]\<close> pointing to \<open>v_prev\<close> and nothing else changed: the coordinate
  \<open>proj_v1_xy[0]\<close>, every other field of the layer, the vertices, the front and the
  boundary edges are the ones passed in. \<open>place_end_vertex\<close> does the same with the last
  entry of \<open>proj_v2\<close> and \<open>v_next\<close>.
\<close>

theorem endpoint_merge_sets_pointer_only:
  "(base_v1 ql \<noteq> [] \<and> get_prev_edge E front (e_start ql) = Some e_prv \<and>
    v2 (edge_at front e_prv) = base_v1 ql ! 0 \<and>
    is_left E (xy (vertex_at vs (base_v1 ql ! 0))) (xy (vertex_at vs (base_v2 ql ! 0)))
              (xy (vertex_at vs (v1 (edge_at front e_prv)))) \<and>
    heights ql ! 0 \<noteq> 0 \<and>
    vnorm (vsub (xy (vertex_at vs (v1 (edge_at front e_prv)))) (proj_v1_xy ql ! 0))
      / (heights ql ! 0) < 1 \<longrightarrow>
    (\<exists>ql'. place_start_vertex E vs front bdry ql = Inr (ql', vs, front, bdry) \<and>
       ql' = ql\<lparr>proj_v1 := (proj_v1 ql)[0 := Some (v1 (edge_at front e_prv))]\<rparr> \<and>
       proj_v1_xy ql' = proj_v1_xy ql \<and> proj_v2 ql' = proj_v2 ql \<and>
       proj_v2_xy ql' = proj_v2_xy ql \<and> same_bases ql ql')) \<and>
   (base_v2 ql \<noteq> [] \<and> get_next_edge E front (e_end ql) = Some e_nxt \<and>
    v1 (edge_at front e_nxt) = last (base_v2 ql) \<and>
    is_left E (xy (vertex_at vs (last (base_v1 ql)))) (xy (vertex_at vs (last (base_v2 ql))))
              (xy (vertex_at vs (v2 (edge_at front e_nxt)))) \<and>
    last (heights ql) \<noteq> 0 \<and>
    vnorm (vsub (xy (vertex_at vs (v2 (edge_at front e_nxt)))) (last (proj_v2_xy ql)))
      / (last (heights ql)) < 1 \<longrightarrow>
    (\<exists>ql'. place_end_vertex E vs front bdry ql = Inr (ql', vs, front, bdry) \<and>
       ql' = ql\<lparr>proj_v2 := (proj_v2 ql)[length (proj_v2 ql) - 1 := Some (v2 (edge_at front e_nxt))]\<rparr> \<and>
       proj_v2_xy ql' = proj_v2_xy ql \<and> proj_v1 ql' = proj_v1 ql \<and>
       proj_v1_xy ql' = proj_v1_xy ql \<and> same_bases ql ql'))"
proof (intro conjI impI; elim conjE)
  assume a: "base_v1 ql \<noteq> []" "get_prev_edge E front (e_start ql) = Some e_prv"
    "v2 (edge_at front e_prv) = base_v1 ql ! 0"
    "is_left E (xy (vertex_at vs (base_v1 ql ! 0))) (xy (vertex_at vs (base_v2 ql ! 0)))
              (xy (vertex_at vs (v1 (edge_at front e_prv))))"
    "heights ql ! 0 \<noteq> 0"
    "vnorm (vsub (xy (vertex_at vs (v1 (edge_at front e_prv)))) (proj_v1_xy ql ! 0))
      / (heights ql ! 0) < 1"
  let ?q = "ql\<lparr>proj_v1 := (proj_v1 ql)[0 := Some (v1 (edge_at front e_prv))]\<rparr>"
  have "place_start_vertex E vs front bdry ql = Inr (?q, vs, front, bdry)"
    using a by (rule place_start_vertex_merge)
  moreover have "same_bases ql ?q" by (simp add: same_bases_def)
  ultimately show "\<exists>ql'. place_start_vertex E vs front bdry ql = Inr (ql', vs, front, bdry) \<and>
       ql' = ql\<lparr>proj_v1 := (proj_v1 ql)[0 := Some (v1 (edge_at front e_prv))]\<rparr> \<and>
       proj_v1_xy ql' = proj_v1_xy ql \<and> proj_v2 ql' = proj_v2 ql \<and>
       proj_v2_xy ql' = proj_v2_xy ql \<and> same_bases ql ql'"
    by simp
next
  assume a: "base_v2 ql \<noteq> []" "get_next_edge E front (e_end ql) = Some e_nxt"
    "v1 (edge_at front e_nxt) = last (base_v2 ql)"
    "is_left E (xy (vertex_at vs (last (base_v1 ql)))) (xy (vertex_at vs (last (base_v2 ql))))
              (xy (vertex_at vs (v2 (edge_at front e_nxt))))"
    "last (heights ql) \<noteq> 0"
    "vnorm (vsub (xy (vertex_at vs (v2 (edge_at front e_nxt)))) (last (proj_v2_xy ql)))
      / (last (heights ql)) < 1"
  let ?q = "ql\<lparr>proj_v2 := (proj_v2 ql)[length (proj_v2 ql) - 1 := Some (v2 (edge_at front e_nxt))]\<rparr>"
  have "place_end_vertex E vs front bdry ql = Inr (?q, vs, front, bdry)"
    using a by (rule place_end_vertex_merge)
  moreover have "same_bases ql ?q" by (simp add: same_bases_def)
  ultimately show "\<exists>ql'. place_end_vertex E vs front bdry ql = Inr (ql', vs, front, bdry) \<and>
       ql' = ql\<lparr>proj_v2 := (proj_v2 ql)[length (proj_v2 ql) - 1 := Some (v2 (edge_at front e_nxt))]\<rparr> \<and>
       proj_v2_xy ql' = proj_v2_xy ql \<and> proj_v1 ql' = proj_v1 ql \<and>
       proj_v1_xy ql' = proj_v1_xy ql \<and> same_bases ql ql'"
    by simp
qed

lemma vnorm_axis: "vnorm (0, y) = \<bar>y\<bar>" "vnorm (x, 0) = \<bar>x\<bar>"
  by (simp_all add: vnorm_def norm_sqr_def)

lemma corner_prev: "get_prev_edge env2 (corner_front y) (e_start corner_layer) = Some 0"
  by (simp add: env2_def env1_def env0_def prev_connected_def corner_front_def mk_edge_def
      Let_def corner_layer_def)

lemma corner_next: "get_next_edge env2 (corner_front y) (e_end corner_layer) = Some 3"
  by (simp add: env2_def env1_def env0_def next_connected_def corner_front_def mk_edge_def
      Let_def corner_layer_def)

lemma corner_edge_ends:
  "v1 (edge_at (corner_front y) e) = e" "v2 (edge_at (corner_front y) e) = e + 1"
  "e_length (edge_at (corner_front y) 0) = y"
  "marker (edge_at (corner_front y) e) = 1"
  by (simp_all add: corner_front_def mk_edge_def Let_def)

lemma corner_left_start:
  "0 < y \<Longrightarrow> is_left env2 (xy (vertex_at (corner_verts y) (base_v1 corner_layer ! 0)))
           (xy (vertex_at (corner_verts y) (base_v2 corner_layer ! 0)))
           (xy (vertex_at (corner_verts y) (v1 (edge_at (corner_front y) 0))))"
  by (simp add: env2_def is_left_cross_def corner_verts_def corner_layer_def corner_xy_def
      corner_edge_ends)

lemma corner_left_end:
  "is_left env2 (xy (vertex_at (corner_verts y) (last (base_v1 corner_layer))))
           (xy (vertex_at (corner_verts y) (last (base_v2 corner_layer))))
           (xy (vertex_at (corner_verts y) (v2 (edge_at (corner_front y) 3))))"
  by (simp add: env2_def is_left_cross_def corner_verts_def corner_layer_def corner_xy_def
      corner_edge_ends)

lemma corner_d_fac_start:
  "vnorm (vsub (xy (vertex_at (corner_verts y) (v1 (edge_at (corner_front y) 0))))
               (proj_v1_xy corner_layer ! 0)) / (heights corner_layer ! 0) = 2 * \<bar>y - 1 / 2\<bar>"
  by (simp add: corner_verts_def corner_layer_def corner_xy_def corner_edge_ends vsub_def
      vnorm_axis)

lemma corner_d_fac_end:
  "vnorm (vsub (xy (vertex_at (corner_verts y) (v2 (edge_at (corner_front y) 3))))
               (last (proj_v2_xy corner_layer))) / (last (heights corner_layer)) = 1 / 2"
  by (simp add: corner_verts_def corner_layer_def corner_xy_def corner_edge_ends vsub_def
      vnorm_axis)

theorem endpoint_merge_sets_pointer_only_witness:
  "(\<exists>ql'. place_start_vertex env2 (corner_verts (3 / 4)) (corner_front (3 / 4))
             (corner_front (3 / 4)) corner_layer =
             Inr (ql', corner_verts (3 / 4), corner_front (3 / 4), corner_front (3 / 4)) \<and>
      proj_v1 ql' = [Some 0, None] \<and> proj_v1_xy ql' ! 0 = (0, 1 / 2) \<and>
      xy (vertex_at (corner_verts (3 / 4)) 0) = (0, 3 / 4)) \<and>
   (\<exists>ql'. place_end_vertex env2 (corner_verts (3 / 4)) (corner_front (3 / 4))
             (corner_front (3 / 4)) corner_layer =
             Inr (ql', corner_verts (3 / 4), corner_front (3 / 4), corner_front (3 / 4)) \<and>
      proj_v2 ql' = [None, Some 4] \<and> proj_v2_xy ql' ! 1 = (2, 1 / 2))"
proof -
  let ?y = "3 / 4 :: real"
  have s: "base_v1 corner_layer \<noteq> [] \<and>
    get_prev_edge env2 (corner_front ?y) (e_start corner_layer) = Some 0 \<and>
    v2 (edge_at (corner_front ?y) 0) = base_v1 corner_layer ! 0 \<and>
    is_left env2 (xy (vertex_at (corner_verts ?y) (base_v1 corner_layer ! 0)))
           (xy (vertex_at (corner_verts ?y) (base_v2 corner_layer ! 0)))
           (xy (vertex_at (corner_verts ?y) (v1 (edge_at (corner_front ?y) 0)))) \<and>
    heights corner_layer ! 0 \<noteq> 0 \<and>
    vnorm (vsub (xy (vertex_at (corner_verts ?y) (v1 (edge_at (corner_front ?y) 0))))
               (proj_v1_xy corner_layer ! 0)) / (heights corner_layer ! 0) < 1"
    unfolding corner_d_fac_start
    by (intro conjI corner_prev corner_left_start)
       (simp_all add: corner_layer_def corner_edge_ends)
  have e: "base_v2 corner_layer \<noteq> [] \<and>
    get_next_edge env2 (corner_front ?y) (e_end corner_layer) = Some 3 \<and>
    v1 (edge_at (corner_front ?y) 3) = last (base_v2 corner_layer) \<and>
    is_left env2 (xy (vertex_at (corner_verts ?y) (last (base_v1 corner_layer))))
           (xy (vertex_at (corner_verts ?y) (last (base_v2 corner_layer))))
           (xy (vertex_at (corner_verts ?y) (v2 (edge_at (corner_front ?y) 3)))) \<and>
    last (heights corner_layer) \<noteq> 0 \<and>
    vnorm (vsub (xy (vertex_at (corner_verts ?y) (v2 (edge_at (corner_front ?y) 3))))
               (last (proj_v2_xy corner_layer))) / (last (heights corner_layer)) < 1"
    unfolding corner_d_fac_end
    by (intro conjI corner_next corner_left_end)
       (simp_all add: corner_layer_def corner_edge_ends)
  note t = endpoint_merge_sets_pointer_only[of corner_layer env2 "corner_front ?y" 0
      "corner_verts ?y" "corner_front ?y" 3]
  from t s obtain q1 where q1:
    "place_start_vertex env2 (corner_verts ?y) (corner_front ?y) (corner_front ?y) corner_layer =
       Inr (q1, corner_verts ?y, corner_front ?y, corner_front ?y)"
    "q1 = corner_layer\<lparr>proj_v1 := (proj_v1 corner_layer)[0 := Some (v1 (edge_at (corner_front ?y) 0))]\<rparr>"
    "proj_v1_xy q1 = proj_v1_xy corner_layer"
    by blast
  from t e obtain q2 where q2:
    "place_end_vertex env2 (corner_verts ?y) (corner_front ?y) (corner_front ?y) corner_layer =
       Inr (q2, corner_verts ?y, corner_front ?y, corner_front ?y)"
    "q2 = corner_layer\<lparr>proj_v2 := (proj_v2 corner_layer)[length (proj_v2 corner_layer) - 1 :=
            Some (v2 (edge_at (corner_front ?y) 3))]\<rparr>"
    "proj_v2_xy q2 = proj_v2_xy corner_layer"
    by blast
  have a: "proj_v1 q1 = [Some 0, None]" "proj_v1_xy q1 ! 0 = (0, 1 / 2)"
    by (simp_all add: q1(2) corner_layer_def corner_edge_ends)
  have b: "proj_v2 q2 = [None, Some 4]" "proj_v2_xy q2 ! 1 = (2, 1 / 2)"
    by (simp_all add: q2(2) corner_layer_def corner_edge_ends)
  have c: "xy (vertex_at (corner_verts ?y) 0) = (0, 3 / 4)"
    by (simp add: corner_verts_def corner_xy_def)
  show ?thesis using q1(1) q2(1) a b c by simp
qed












section \<open>Verification: refinement of the front\<close>

lemma filter_insert_before: "\<not> P x \<Longrightarrow> filter P (insert_before pos x xs) = filter P xs"
  by (induction xs) auto

lemma filter_mem_self: "filter (\<lambda>e. e \<in> set xs) xs = xs"
  by (simp add: filter_id_conv)

lemma extends_refl: "extends l l"
  by (simp add: extends_def filter_mem_self)

lemma extends_subset: "extends l l' \<Longrightarrow> set (edges l) \<subseteq> set (edges l')"
proof
  fix e assume a: "extends l l'" and e: "e \<in> set (edges l)"
  from a have "filter (\<lambda>e. e \<in> set (edges l)) (edges l') = edges l" by (simp add: extends_def)
  with e have "e \<in> set (filter (\<lambda>e. e \<in> set (edges l)) (edges l'))" by simp
  then show "e \<in> set (edges l')" by simp
qed

lemma extends_trans:
  assumes ab: "extends a b" and bc: "extends b c"
  shows "extends a c"
proof -
  note sab = extends_subset[OF ab]
  from ab have a1: "\<And>e. e \<in> set (edges a) \<Longrightarrow> edge_at b e = edge_at a e"
    and a2: "filter (\<lambda>e. e \<in> set (edges a)) (edges b) = edges a"
    and a3: "\<And>e. e \<in> set (edges b) \<Longrightarrow> e \<notin> set (edges a) \<Longrightarrow> twin_edge (edge_at b e) = None"
    by (simp_all add: extends_def)
  from bc have b1: "\<And>e. e \<in> set (edges b) \<Longrightarrow> edge_at c e = edge_at b e"
    and b2: "filter (\<lambda>e. e \<in> set (edges b)) (edges c) = edges b"
    and b3: "\<And>e. e \<in> set (edges c) \<Longrightarrow> e \<notin> set (edges b) \<Longrightarrow> twin_edge (edge_at c e) = None"
    by (simp_all add: extends_def)
  have c1: "edge_at c e = edge_at a e" if "e \<in> set (edges a)" for e
    using that sab a1 b1 by auto
  have "filter (\<lambda>e. e \<in> set (edges a)) (edges c) =
        filter (\<lambda>e. e \<in> set (edges b) \<and> e \<in> set (edges a)) (edges c)"
    by (rule filter_cong[OF refl]) (use sab in auto)
  then have "filter (\<lambda>e. e \<in> set (edges a)) (edges c) =
        filter (\<lambda>e. e \<in> set (edges a)) (filter (\<lambda>e. e \<in> set (edges b)) (edges c))"
    by simp
  then have c2: "filter (\<lambda>e. e \<in> set (edges a)) (edges c) = edges a"
    by (simp only: b2 a2)
  have c3: "twin_edge (edge_at c e) = None" if "e \<in> set (edges c)" "e \<notin> set (edges a)" for e
  proof (cases "e \<in> set (edges b)")
    case True
    then show ?thesis using that a3 b1 by simp
  next
    case False
    then show ?thesis using that b3 by simp
  qed
  show ?thesis unfolding extends_def using c1 c2 c3 by blast
qed

lemma insert_edge_extends:
  assumes "insert_edge mk l vs pos a b m = ((l', vs'), n)"
  shows "extends l l'"
proof -
  note i = insert_edge_edges[OF assms]
  have n: "n \<notin> set (edges l)" using i fresh_notin[of "edges l"] by simp
  have "filter (\<lambda>e. e \<in> set (edges l)) (edges l') = filter (\<lambda>e. e \<in> set (edges l)) (edges l)"
    using i n by (simp add: filter_insert_before)
  then have f: "filter (\<lambda>e. e \<in> set (edges l)) (edges l') = edges l"
    by (simp add: filter_mem_self)
  have e1: "\<forall>e\<in>set (edges l). edge_at l' e = edge_at l e"
    using i n by auto
  have e3: "\<forall>e\<in>set (edges l'). e \<notin> set (edges l) \<longrightarrow> twin_edge (edge_at l' e) = None"
    using i by (auto simp: set_insert_before new_edge_fields)
  show ?thesis unfolding extends_def using e1 f e3 by blast
qed

lemma insert_sub_edge_extends:
  "insert_sub_edge e a b (vs, front) = (vs', front') \<Longrightarrow> extends front front'"
  by (auto simp: insert_sub_edge_def Let_def split: prod.splits dest: insert_edge_extends)

lemma sub_edge_step_extends:
  "sub_edge_step e p ((vs, front), v) = ((vs', front'), v') \<Longrightarrow> extends front front'"
  by (auto simp: sub_edge_step_def Let_def split: prod.splits dest: insert_sub_edge_extends)

lemma fold_sub_edge_step_extends:
  "fold (sub_edge_step e) ps ((vs, front), v) = ((vs', front'), v') \<Longrightarrow> extends front front'"
proof (induction ps arbitrary: vs front v)
  case Nil
  then show ?case by (simp add: extends_refl)
next
  case (Cons p ps)
  obtain vs1 front1 v1' where s: "sub_edge_step e p ((vs, front), v) = ((vs1, front1), v1')"
    by (metis prod.exhaust)
  with Cons.prems have "fold (sub_edge_step e) ps ((vs1, front1), v1') = ((vs', front'), v')"
    by simp
  from extends_trans[OF sub_edge_step_extends[OF s] Cons.IH[OF this]] show ?case .
qed

lemma create_sub_edges_extends:
  assumes "create_sub_edges vs front e xy_new = (vs', front')"
  shows "extends front front'"
proof -
  obtain vs1 front1 v where f: "fold (sub_edge_step e) (butlast (tl xy_new))
        ((vs, front), v1 (edge_at front e)) = ((vs1, front1), v)"
    by (metis prod.exhaust)
  with assms have "insert_sub_edge e v (v2 (edge_at front1 e)) (vs1, front1) = (vs', front')"
    by (simp add: create_sub_edges_def)
  from extends_trans[OF fold_sub_edge_step_extends[OF f] insert_sub_edge_extends[OF this]]
  show ?thesis .
qed

lemma refine_edge_extends:
  assumes "refine_edge E vs front e = Some (Inr (ok, vs', front'))"
  shows "extends front front'"
  using assms
  by (auto simp: refine_edge_def Let_def extends_refl
      split: option.splits sum.splits if_splits dest: create_sub_edges_extends)

lemma refine_loop_extends:
  "refine_loop E es vs front rem = Some (Inr (vs', front', rem')) \<Longrightarrow>
     extends front front' \<and> set rem' \<subseteq> set rem \<union> set es"
proof (induction es arbitrary: vs front rem)
  case Nil
  then show ?case by (simp add: extends_refl)
next
  case (Cons e es)
  from Cons.prems obtain ok vs1 front1 where
    r: "refine_edge E vs front e = Some (Inr (ok, vs1, front1))" and
    l: "refine_loop E es vs1 front1 (if ok then rem @ [e] else rem) = Some (Inr (vs', front', rem'))"
    by (auto split: option.splits sum.splits)
  from Cons.IH[OF l] have "extends front1 front'"
    and "set rem' \<subseteq> set (if ok then rem @ [e] else rem) \<union> set es" by simp_all
  with extends_trans[OF refine_edge_extends[OF r]] show ?case
    by (auto split: if_splits)
qed

lemma extends_twin_filter:
  assumes "extends l l'"
  shows "filter (\<lambda>e. twin_edge (edge_at l' e) \<noteq> None) (edges l') =
         filter (\<lambda>e. twin_edge (edge_at l e) \<noteq> None) (edges l)"
proof -
  from assms have a1: "\<And>e. e \<in> set (edges l) \<Longrightarrow> edge_at l' e = edge_at l e"
    and a2: "filter (\<lambda>e. e \<in> set (edges l)) (edges l') = edges l"
    and a3: "\<And>e. e \<in> set (edges l') \<Longrightarrow> e \<notin> set (edges l) \<Longrightarrow> twin_edge (edge_at l' e) = None"
    by (simp_all add: extends_def)
  have "filter (\<lambda>e. twin_edge (edge_at l' e) \<noteq> None) (edges l') =
        filter (\<lambda>e. e \<in> set (edges l) \<and> twin_edge (edge_at l' e) \<noteq> None) (edges l')"
    by (rule filter_cong[OF refl]) (use a3 in fastforce)
  also have "\<dots> =
        filter (\<lambda>e. twin_edge (edge_at l' e) \<noteq> None) (filter (\<lambda>e. e \<in> set (edges l)) (edges l'))"
    by simp
  also have "\<dots> = filter (\<lambda>e. twin_edge (edge_at l' e) \<noteq> None) (edges l)"
    by (simp only: a2)
  also have "\<dots> = filter (\<lambda>e. twin_edge (edge_at l e) \<noteq> None) (edges l)"
    using a1 by (auto intro: filter_cong)
  finally show ?thesis .
qed

lemma fold_remove:
  "edges (fold (\<lambda>cur_edge l. remove l cur_edge) rem l) = filter (\<lambda>e. e \<notin> set rem) (edges l) \<and>
   edge_at (fold (\<lambda>cur_edge l. remove l cur_edge) rem l) = edge_at l"
proof (induction rem arbitrary: l)
  case Nil
  then show ?case by simp
next
  case (Cons r rem)
  have "edges (remove l r) = filter (\<lambda>e. e \<noteq> r) (edges l)" "edge_at (remove l r) = edge_at l"
    by (simp_all add: remove_def removeAll_filter_not_eq) (metis)
  with Cons.IH[of "remove l r"] show ?case
    by (auto intro: filter_cong)
qed

text \<open>
  C6. The edges handed to \<open>refine_edge\<close> are exactly the front edges with a null twin,
  in the order of the front. When \<open>refine_front_edges\<close> returns, the edges with a twin
  are the same as before, in the same order, and each of them is still in the front
  with its end vertices, marker and twin unchanged: none was split or removed.
\<close>

theorem refinement_spares_twin_edges:
  "get_edges_to_refine front = filter (\<lambda>e. twin_edge (edge_at front e) = None) (edges front) \<and>
   (\<forall>n vs' front'. refine_front_edges E vs front = Some (Inr (n, vs', front')) \<longrightarrow>
      filter (\<lambda>e. twin_edge (edge_at front' e) \<noteq> None) (edges front') =
        filter (\<lambda>e. twin_edge (edge_at front e) \<noteq> None) (edges front) \<and>
      (\<forall>e\<in>set (edges front). twin_edge (edge_at front e) \<noteq> None \<longrightarrow>
         e \<in> set (edges front') \<and> edge_at front' e = edge_at front e))"
proof (intro conjI allI impI)
  show "get_edges_to_refine front = filter (\<lambda>e. twin_edge (edge_at front e) = None) (edges front)"
    by (simp add: get_edges_to_refine_def)
next
  fix n vs' front'
  assume r: "refine_front_edges E vs front = Some (Inr (n, vs', front'))"
  then obtain f1 rem where
    l: "refine_loop E (get_edges_to_refine front) vs front [] = Some (Inr (vs', f1, rem))" and
    f: "front' = fold (\<lambda>cur_edge l. remove l cur_edge) rem f1"
    by (auto simp: refine_front_edges_def Let_def split: option.splits sum.splits)
  from refine_loop_extends[OF l] have ex: "extends front f1"
    and rs: "set rem \<subseteq> set (get_edges_to_refine front)" by simp_all
  from ex have same: "\<And>e. e \<in> set (edges front) \<Longrightarrow> edge_at f1 e = edge_at front e"
    by (simp add: extends_def)
  from fold_remove[of rem f1] f have
    ed: "edges front' = filter (\<lambda>e. e \<notin> set rem) (edges f1)" and at: "edge_at front' = edge_at f1"
    by simp_all
  have nt: "twin_edge (edge_at f1 e) = None" if "e \<in> set rem" for e
  proof -
    from that rs have "e \<in> set (edges front)" "twin_edge (edge_at front e) = None"
      by (auto simp: get_edges_to_refine_def)
    then show ?thesis by (simp add: same)
  qed
  have "filter (\<lambda>e. twin_edge (edge_at front' e) \<noteq> None) (edges front') =
        filter (\<lambda>e. e \<notin> set rem \<and> twin_edge (edge_at f1 e) \<noteq> None) (edges f1)"
    by (simp add: ed at conj_commute)
  also have "\<dots> = filter (\<lambda>e. twin_edge (edge_at f1 e) \<noteq> None) (edges f1)"
    by (rule filter_cong[OF refl]) (use nt in fastforce)
  also have "\<dots> = filter (\<lambda>e. twin_edge (edge_at front e) \<noteq> None) (edges front)"
    by (rule extends_twin_filter[OF ex])
  finally show tf: "filter (\<lambda>e. twin_edge (edge_at front' e) \<noteq> None) (edges front') =
        filter (\<lambda>e. twin_edge (edge_at front e) \<noteq> None) (edges front)" .
  show "\<forall>e\<in>set (edges front). twin_edge (edge_at front e) \<noteq> None \<longrightarrow>
         e \<in> set (edges front') \<and> edge_at front' e = edge_at front e"
  proof (intro ballI impI)
    fix e assume e: "e \<in> set (edges front)" and t: "twin_edge (edge_at front e) \<noteq> None"
    then have "e \<in> set (filter (\<lambda>e. twin_edge (edge_at front e) \<noteq> None) (edges front))"
      by simp
    then have "e \<in> set (filter (\<lambda>e. twin_edge (edge_at front' e) \<noteq> None) (edges front'))"
      by (simp only: tf)
    then have "e \<in> set (edges front')" by simp
    moreover have "edge_at front' e = edge_at front e" using e by (simp add: at same)
    ultimately show "e \<in> set (edges front') \<and> edge_at front' e = edge_at front e" ..
  qed
qed












lemma tw_edge0:
  "v1 (edge_at tw_front 0) = 0" "v2 (edge_at tw_front 0) = 1"
  "e_length (edge_at tw_front 0) = 1" "tangent (edge_at tw_front 0) = (1, 0)"
  "marker (edge_at tw_front 0) = 1" "twin_edge (edge_at tw_front 0) = None"
  "twin_edge (edge_at tw_front (Suc 0)) = Some 7"
  by (simp_all add: tw_front_def mk_edge_def Let_def tw_xy_def sdiv_def vsub_def)

lemma tw_xy01:
  "xy (vertex_at tw_verts 0) = (0, 0)" "xy (vertex_at tw_verts (Suc 0)) = (1, 0)"
  by (simp_all add: tw_verts_def tw_xy_def)

lemma tw_loop_half:
  "sub_vertex_loop (\<lambda>_. 1 / 2) (1, 0) (- 1, 0) 1 (3 / 4) (1, 0) [(1, 0)] =
     Some ([(1, 0), (1 / 2, 0), (0, 0)], 1)"
  apply (subst sub_vertex_loop.simps)
  apply (simp add: Let_def vadd_def smul_def vsub_def vnorm_axis)
  apply (subst sub_vertex_loop.simps)
  apply (simp add: Let_def vadd_def smul_def vsub_def vnorm_axis)
  done

lemma tw_loop_one:
  "sub_vertex_loop (\<lambda>_. 1) (1, 0) (- 1, 0) 1 (1 / 2) (1, 0) [(1, 0)] =
     Some ([(1, 0), (0, 0)], 1)"
  apply (subst sub_vertex_loop.simps)
  apply (simp add: Let_def vadd_def smul_def vsub_def vnorm_axis)
  done

lemma tw_coords_half:
  "create_sub_vertex_coords env_half tw_verts (edge_at tw_front 0)
     (size_function env_half (xy (vertex_at tw_verts (v1 (edge_at tw_front 0))))
        < size_function env_half (xy (vertex_at tw_verts (v2 (edge_at tw_front 0)))))
     (size_function env_half (xy (vertex_at tw_verts (v1 (edge_at tw_front 0)))))
     (size_function env_half (xy (vertex_at tw_verts (v2 (edge_at tw_front 0))))) =
   Some (Inr [(0, 0), (1 / 2, 0), (1, 0)])"
  by (simp add: create_sub_vertex_coords_def Let_def env_half_def env0_def tw_edge0 tw_xy01
      vneg_def tw_loop_half distribute_cropped_def smul_def vadd_def)

lemma tw_coords_one:
  "create_sub_vertex_coords env0 tw_verts (edge_at tw_front 0)
     (size_function env0 (xy (vertex_at tw_verts (v1 (edge_at tw_front 0))))
        < size_function env0 (xy (vertex_at tw_verts (v2 (edge_at tw_front 0)))))
     (size_function env0 (xy (vertex_at tw_verts (v1 (edge_at tw_front 0)))))
     (size_function env0 (xy (vertex_at tw_verts (v2 (edge_at tw_front 0))))) =
   Some (Inr [(0, 0), (1, 0)])"
  by (simp add: create_sub_vertex_coords_def Let_def env0_def tw_edge0 tw_xy01
      vneg_def tw_loop_one distribute_cropped_def smul_def vadd_def)

lemma vnorm_smul: "vnorm (smul a v) = \<bar>a\<bar> * vnorm v"
proof -
  have "norm_sqr (smul a v) = (a * a) * norm_sqr v"
    by (simp add: norm_sqr_def smul_def algebra_simps)
  then show ?thesis
    by (simp add: vnorm_def real_sqrt_mult)
qed

lemma vnorm_vneg: "vnorm (vneg v) = vnorm v"
  by (simp add: vnorm_def norm_sqr_def vneg_def)

lemma advance_along:
  "vadd (vadd a (smul t u)) (smul d u) = vadd a (smul (t + d) u)"
  "vsub (vadd a (smul t u)) a = smul t u"
  by (simp_all add: vadd_def vsub_def smul_def algebra_simps)

lemma sub_vertex_loop_step:
  "sub_vertex_loop rho_f xy_a tang len s_end xy_cur acc =
     (if s_end < vnorm (vsub (vadd xy_cur (smul ((1 / 2) * (rho_f xy_cur +
                         rho_f (vadd xy_cur (smul (rho_f xy_cur) tang)))) tang)) xy_a) / len
      then Some (acc @ [vadd xy_cur (smul ((1 / 2) * (rho_f xy_cur +
                         rho_f (vadd xy_cur (smul (rho_f xy_cur) tang)))) tang)],
                 vnorm (vsub (vadd xy_cur (smul ((1 / 2) * (rho_f xy_cur +
                         rho_f (vadd xy_cur (smul (rho_f xy_cur) tang)))) tang)) xy_a) / len)
      else sub_vertex_loop rho_f xy_a tang len s_end
             (vadd xy_cur (smul ((1 / 2) * (rho_f xy_cur +
                         rho_f (vadd xy_cur (smul (rho_f xy_cur) tang)))) tang))
             (acc @ [vadd xy_cur (smul ((1 / 2) * (rho_f xy_cur +
                         rho_f (vadd xy_cur (smul (rho_f xy_cur) tang)))) tang)]))"
  by (subst sub_vertex_loop.simps) (simp add: Let_def)

lemma sub_vertex_loop_returns_from:
  assumes c: "0 < c" and rho: "\<And>p. c \<le> rho_f p" and len: "0 < len" and t1: "vnorm tang = 1"
  shows "0 \<le> t \<Longrightarrow> s_end * len - t < real k * c \<Longrightarrow>
         \<exists>r. sub_vertex_loop rho_f xy_a tang len s_end (vadd xy_a (smul t tang)) acc = Some r"
proof (induction k arbitrary: t acc)
  case 0
  define xy where "xy = vadd xy_a (smul t tang)"
  define d where "d = (1 / 2) * (rho_f xy + rho_f (vadd xy (smul (rho_f xy) tang)))"
  have dc: "c \<le> d" using rho[of xy] rho[of "vadd xy (smul (rho_f xy) tang)"] by (simp add: d_def)
  have l: "vnorm (vsub (vadd xy (smul d tang)) xy_a) = t + d"
    using 0(1) dc c by (simp add: xy_def advance_along vnorm_smul t1)
  from 0(2) have "s_end * len < t + d" using dc c by simp
  then have "s_end < (t + d) / len" using len by (simp add: pos_less_divide_eq)
  then show ?case
    unfolding xy_def[symmetric]
    by (subst sub_vertex_loop_step) (simp only: d_def[symmetric] l if_True, blast)
next
  case (Suc k)
  define xy where "xy = vadd xy_a (smul t tang)"
  define d where "d = (1 / 2) * (rho_f xy + rho_f (vadd xy (smul (rho_f xy) tang)))"
  have dc: "c \<le> d" using rho[of xy] rho[of "vadd xy (smul (rho_f xy) tang)"] by (simp add: d_def)
  have l: "vnorm (vsub (vadd xy (smul d tang)) xy_a) = t + d"
    using Suc.prems(1) dc c by (simp add: xy_def advance_along vnorm_smul t1)
  have nx: "vadd xy (smul d tang) = vadd xy_a (smul (t + d) tang)"
    by (simp add: xy_def advance_along)
  have t': "0 \<le> t + d" using Suc.prems(1) dc c by simp
  have "s_end * len - (t + d) < real k * c"
    using Suc.prems(2) dc by (simp add: algebra_simps)
  from Suc.IH[OF t' this] obtain r where
    r: "sub_vertex_loop rho_f xy_a tang len s_end (vadd xy_a (smul (t + d) tang))
          (acc @ [vadd xy_a (smul (t + d) tang)]) = Some r"
    by blast
  have l': "vnorm (vsub (vadd xy_a (smul (t + d) tang)) xy_a) = t + d"
    using l by (simp only: nx)
  show ?case
  proof (cases "s_end < (t + d) / len")
    case True
    then show ?thesis
      unfolding xy_def[symmetric]
      by (subst sub_vertex_loop_step) (simp only: d_def[symmetric] l if_True, blast)
  next
    case False
    then show ?thesis
      unfolding xy_def[symmetric]
      by (subst sub_vertex_loop_step) (simp only: d_def[symmetric] nx l' r if_False, blast)
  qed
qed

lemma sub_vertex_loop_returns:
  assumes c: "0 < c" and rho: "\<And>p. c \<le> rho_f p" and len: "0 < len" and t1: "vnorm tang = 1"
  shows "\<exists>r. sub_vertex_loop rho_f xy_a tang len s_end xy_a acc = Some r"
proof -
  from reals_Archimedean3[OF c] obtain k where k: "s_end * len < real k * c" by blast
  have z: "vadd xy_a (smul 0 tang) = xy_a" by (simp add: vadd_def smul_def)
  have "\<exists>r. sub_vertex_loop rho_f xy_a tang len s_end (vadd xy_a (smul 0 tang)) acc = Some r"
    by (rule sub_vertex_loop_returns_from[where c = c and k = k]) (use c rho len t1 k in simp_all)
  then show ?thesis by (simp only: z)
qed

lemma create_sub_vertex_coords_returns:
  assumes c: "0 < c" and rho: "\<And>p. c \<le> size_function E p"
      and len: "0 < e_length e" and t1: "vnorm (tangent e) = 1"
  shows "\<exists>r. create_sub_vertex_coords E vs e dir rho_1 rho_2 = Some r"
proof -
  let ?t = "if dir then tangent e else vneg (tangent e)"
  have tn: "vnorm ?t = 1" using t1 by (simp add: vnorm_vneg)
  have "\<exists>r. sub_vertex_loop (size_function E) (xy (vertex_at vs (if dir then v1 e else v2 e))) ?t
       (e_length e) (1 - (1 / 2) * (if dir then rho_2 else rho_1) / e_length e)
       (xy (vertex_at vs (if dir then v1 e else v2 e)))
       [xy (vertex_at vs (if dir then v1 e else v2 e))] = Some r"
    by (rule sub_vertex_loop_returns[where c = c]) (use c rho len tn in simp_all)
  then obtain r where
    "sub_vertex_loop (size_function E) (xy (vertex_at vs (if dir then v1 e else v2 e))) ?t
       (e_length e) (1 - (1 / 2) * (if dir then rho_2 else rho_1) / e_length e)
       (xy (vertex_at vs (if dir then v1 e else v2 e)))
       [xy (vertex_at vs (if dir then v1 e else v2 e))] = Some r"
    by blast
  then show ?thesis
    unfolding create_sub_vertex_coords_def Let_def
    by (cases r) (simp del: One_nat_def)
qed

lemma refine_edge_returns:
  assumes c: "0 < c" and rho: "\<And>p. c \<le> size_function E p"
      and len: "0 < e_length (edge_at front e)" and t1: "vnorm (tangent (edge_at front e)) = 1"
  shows "\<exists>r. refine_edge E vs front e = Some r"
proof -
  from create_sub_vertex_coords_returns[OF c rho len t1] obtain r where
    "create_sub_vertex_coords E vs (edge_at front e)
                (size_function E (xy (vertex_at vs (v1 (edge_at front e))))
                   < size_function E (xy (vertex_at vs (v2 (edge_at front e)))))
                (size_function E (xy (vertex_at vs (v1 (edge_at front e)))))
                (size_function E (xy (vertex_at vs (v2 (edge_at front e))))) = Some r"
    by blast
  then show ?thesis
    unfolding refine_edge_def Let_def
    by (cases r) (auto split: prod.splits)
qed

lemma tw_refine_edge:
  "\<exists>vs' front'. refine_edge env_half tw_verts tw_front 0 = Some (Inr (True, vs', front'))"
  using tw_coords_half by (simp add: refine_edge_def Let_def)

theorem refinement_spares_twin_edges_witness:
  "\<exists>n vs' front'. refine_front_edges env_half tw_verts tw_front = Some (Inr (n, vs', front')) \<and>
      filter (\<lambda>e. twin_edge (edge_at front' e) \<noteq> None) (edges front') = [1] \<and>
      1 \<in> set (edges front') \<and> twin_edge (edge_at front' 1) = Some 7 \<and>
      1 \<in> set (edges tw_front)"
proof -
  have g: "get_edges_to_refine tw_front = [0]"
    by (simp add: get_edges_to_refine_def tw_front_def mk_edge_def Let_def)
  from tw_refine_edge obtain vs' f1 where
    r: "refine_edge env_half tw_verts tw_front 0 = Some (Inr (True, vs', f1))" by blast
  then have "refine_loop env_half [0] tw_verts tw_front [] = Some (Inr (vs', f1, [0]))"
    by simp
  then obtain n front' where
    rf: "refine_front_edges env_half tw_verts tw_front = Some (Inr (n, vs', front'))"
    by (simp add: refine_front_edges_def Let_def g)
  have m: "1 \<in> set (edges tw_front)" "twin_edge (edge_at tw_front 1) \<noteq> None"
    "filter (\<lambda>e. twin_edge (edge_at tw_front e) \<noteq> None) (edges tw_front) = [1]"
    by (simp_all add: tw_front_def mk_edge_def Let_def)
  from refinement_spares_twin_edges[of tw_front env_half tw_verts, THEN conjunct2,
      THEN spec, THEN spec, THEN spec, THEN mp, OF rf]
  have a: "filter (\<lambda>e. twin_edge (edge_at front' e) \<noteq> None) (edges front') =
        filter (\<lambda>e. twin_edge (edge_at tw_front e) \<noteq> None) (edges tw_front)"
    and b: "\<forall>e\<in>set (edges tw_front). twin_edge (edge_at tw_front e) \<noteq> None \<longrightarrow>
         e \<in> set (edges front') \<and> edge_at front' e = edge_at tw_front e"
    by simp_all
  from b m(1,2) have c: "1 \<in> set (edges front')" "edge_at front' 1 = edge_at tw_front 1"
    by blast+
  have "twin_edge (edge_at tw_front 1) = Some 7"
    by (simp add: tw_front_def mk_edge_def Let_def)
  then have d: "twin_edge (edge_at front' 1) = Some 7"
    by (simp only: c(2))
  from rf a m c(1) d show ?thesis by (simp only: ) blast
qed
















section \<open>Verification: the anchors of the next layer\<close>

declare anchor_walk.simps [simp del]

lemmas anchor_walk_step = anchor_walk.simps [unfolded Let_def]

lemma anchor_walk_skip:
  assumes "i < length (proj_v1 ql)" "proj_v1 ql ! i = Some s"
    "v_end_in_at C cl ql i = Inr (Some e)"
    "\<not> on_front (vertex_at vs s)" "\<not> on_front (vertex_at vs e)"
  shows "anchor_walk C vs cl ql i = anchor_walk C vs cl ql (Suc i)"
  using assms by (subst anchor_walk_step) simp

lemma anchor_walk_stop:
  assumes "i < length (proj_v1 ql)" "proj_v1 ql ! i = Some s"
    "v_end_in_at C cl ql i = Inr (Some e)"
    "on_front (vertex_at vs s) \<or> on_front (vertex_at vs e)"
  shows "anchor_walk C vs cl ql i = Inr (Some s, Some e)"
  using assms by (subst anchor_walk_step) auto

lemma anchor_walk_skips:
  assumes "\<forall>j. i0 \<le> j \<and> j < i0 + k \<longrightarrow>
             (\<exists>sj ej. proj_v1 ql ! j = Some sj \<and> v_end_in_at C cl ql j = Inr (Some ej) \<and>
                       \<not> on_front (vertex_at vs sj) \<and> \<not> on_front (vertex_at vs ej))"
    and "i0 + k \<le> length (proj_v1 ql)"
  shows "anchor_walk C vs cl ql i0 = anchor_walk C vs cl ql (i0 + k)"
  using assms
proof (induction k arbitrary: i0)
  case 0
  show ?case by simp
next
  case (Suc k)
  from Suc.prems(1) obtain sj ej where
    a: "proj_v1 ql ! i0 = Some sj" "v_end_in_at C cl ql i0 = Inr (Some ej)"
       "\<not> on_front (vertex_at vs sj)" "\<not> on_front (vertex_at vs ej)"
    by (metis add_Suc_right le_refl less_add_Suc1)
  have lt: "i0 < length (proj_v1 ql)" using Suc.prems(2) by simp
  have st: "anchor_walk C vs cl ql i0 = anchor_walk C vs cl ql (Suc i0)"
    by (rule anchor_walk_skip[OF lt a])
  have "anchor_walk C vs cl ql (Suc i0) = anchor_walk C vs cl ql (Suc i0 + k)"
  proof (rule Suc.IH)
    show "\<forall>j. Suc i0 \<le> j \<and> j < Suc i0 + k \<longrightarrow>
             (\<exists>sj ej. proj_v1 ql ! j = Some sj \<and> v_end_in_at C cl ql j = Inr (Some ej) \<and>
                       \<not> on_front (vertex_at vs sj) \<and> \<not> on_front (vertex_at vs ej))"
      using Suc.prems(1) by simp
    show "Suc i0 + k \<le> length (proj_v1 ql)" using Suc.prems(2) by simp
  qed
  with st show ?case by simp
qed

lemma anchor_walk_stops:
  "anchor_walk C vs cl ql i0 = Inr (a, b) \<Longrightarrow>
     \<exists>i. i0 \<le> i \<and> i < length (proj_v1 ql) \<and> a = proj_v1 ql ! i \<and>
         v_end_in_at C cl ql i = Inr b \<and>
         (\<exists>s. a = Some s \<and>
              (on_front (vertex_at vs s) \<or> (\<exists>e. b = Some e \<and> on_front (vertex_at vs e)))) \<and>
         (\<forall>j. i0 \<le> j \<and> j < i \<longrightarrow>
            (\<exists>sj ej. proj_v1 ql ! j = Some sj \<and> v_end_in_at C cl ql j = Inr (Some ej) \<and>
                      \<not> on_front (vertex_at vs sj) \<and> \<not> on_front (vertex_at vs ej)))"
proof (induction C vs cl ql i0 rule: anchor_walk.induct)
  case (1 C vs cl ql i)
  from "1.prems" have lt: "i < length (proj_v1 ql)"
    by (subst (asm) anchor_walk_step) (simp split: if_splits)
  from "1.prems" lt obtain ve where ve: "v_end_in_at C cl ql i = Inr ve"
    by (subst (asm) anchor_walk_step) (simp split: sum.splits)
  from "1.prems" lt ve obtain s where s: "proj_v1 ql ! i = Some s"
    by (subst (asm) anchor_walk_step) (simp split: option.splits)
  show ?case
  proof (cases "on_front (vertex_at vs s)")
    case True
    with "1.prems" lt ve s have "a = Some s" "b = ve"
      by (subst (asm) anchor_walk_step, simp)+
    with lt ve s True show ?thesis
      by (intro exI[of _ i]) auto
  next
    case False
    from "1.prems" lt ve s False obtain e where e: "ve = Some e"
      by (subst (asm) anchor_walk_step) (simp split: option.splits)
    show ?thesis
    proof (cases "on_front (vertex_at vs e)")
      case True
      with "1.prems" lt ve s False e have "a = Some s" "b = Some e"
        by (subst (asm) anchor_walk_step, simp)+
      with lt ve s True e show ?thesis
        by (intro exI[of _ i]) auto
    next
      case ne: False
      have nlt: "\<not> length (proj_v1 ql) \<le> i" using lt by simp
      from "1.prems" lt ve s False e ne
      have r: "anchor_walk C vs cl ql (i + 1) = Inr (a, b)"
        by (subst (asm) anchor_walk_step) simp
      from "1.IH"[OF nlt refl ve s False e ne r]
      obtain i' where i': "i + 1 \<le> i'" "i' < length (proj_v1 ql)" "a = proj_v1 ql ! i'"
        "v_end_in_at C cl ql i' = Inr b"
        "\<exists>s. a = Some s \<and>
              (on_front (vertex_at vs s) \<or> (\<exists>e. b = Some e \<and> on_front (vertex_at vs e)))"
        "\<forall>j. i + 1 \<le> j \<and> j < i' \<longrightarrow>
            (\<exists>sj ej. proj_v1 ql ! j = Some sj \<and> v_end_in_at C cl ql j = Inr (Some ej) \<and>
                      \<not> on_front (vertex_at vs sj) \<and> \<not> on_front (vertex_at vs ej))"
        by blast
      have all: "\<forall>j. i \<le> j \<and> j < i' \<longrightarrow>
            (\<exists>sj ej. proj_v1 ql ! j = Some sj \<and> v_end_in_at C cl ql j = Inr (Some ej) \<and>
                      \<not> on_front (vertex_at vs sj) \<and> \<not> on_front (vertex_at vs ej))"
      proof (intro allI impI)
        fix j assume j: "i \<le> j \<and> j < i'"
        show "\<exists>sj ej. proj_v1 ql ! j = Some sj \<and> v_end_in_at C cl ql j = Inr (Some ej) \<and>
                      \<not> on_front (vertex_at vs sj) \<and> \<not> on_front (vertex_at vs ej)"
        proof (cases "j = i")
          case True
          with s ve e False ne show ?thesis by simp
        next
          case False
          with j have "i + 1 \<le> j \<and> j < i'" by simp
          with i'(6) show ?thesis by blast
        qed
      qed
      from i'(1) have "i \<le> i'" by simp
      with i'(2,3,4,5) all show ?thesis by blast
    qed
  qed
qed

lemma update_anchors_true:
  "update_anchors C cl ql D = Inr (True, D') \<longleftrightarrow>
     (\<exists>i s e. first_anchor C (mesh_verts D) cl ql i s e \<and>
        D' = D\<lparr>xy_start := xy (vertex_at (mesh_verts D) s),
                xy_end := xy (vertex_at (mesh_verts D) e)\<rparr>)"
proof
  assume u: "update_anchors C cl ql D = Inr (True, D')"
  then obtain s e where w: "anchor_walk C (mesh_verts D) cl ql 0 = Inr (Some s, Some e)"
    and d: "D' = D\<lparr>xy_start := xy (vertex_at (mesh_verts D) s),
                xy_end := xy (vertex_at (mesh_verts D) e)\<rparr>"
    by (auto simp: update_anchors_def split: sum.splits option.splits)
  from anchor_walk_stops[OF w] obtain i where
    i: "i < length (proj_v1 ql)" "Some s = proj_v1 ql ! i"
       "v_end_in_at C cl ql i = Inr (Some e)"
       "\<exists>s'. Some s = Some s' \<and>
              (on_front (vertex_at (mesh_verts D) s') \<or>
               (\<exists>e'. Some e = Some e' \<and> on_front (vertex_at (mesh_verts D) e')))"
       "\<forall>j. 0 \<le> j \<and> j < i \<longrightarrow>
            (\<exists>sj ej. proj_v1 ql ! j = Some sj \<and> v_end_in_at C cl ql j = Inr (Some ej) \<and>
                      \<not> on_front (vertex_at (mesh_verts D) sj) \<and>
                      \<not> on_front (vertex_at (mesh_verts D) ej))"
    by blast
  from i have "first_anchor C (mesh_verts D) cl ql i s e"
    unfolding first_anchor_def by auto
  with d show "\<exists>i s e. first_anchor C (mesh_verts D) cl ql i s e \<and>
        D' = D\<lparr>xy_start := xy (vertex_at (mesh_verts D) s),
                xy_end := xy (vertex_at (mesh_verts D) e)\<rparr>"
    by blast
next
  assume "\<exists>i s e. first_anchor C (mesh_verts D) cl ql i s e \<and>
        D' = D\<lparr>xy_start := xy (vertex_at (mesh_verts D) s),
                xy_end := xy (vertex_at (mesh_verts D) e)\<rparr>"
  then obtain i s e where f: "first_anchor C (mesh_verts D) cl ql i s e"
    and d: "D' = D\<lparr>xy_start := xy (vertex_at (mesh_verts D) s),
                xy_end := xy (vertex_at (mesh_verts D) e)\<rparr>"
    by blast
  from f have lt: "i < length (proj_v1 ql)" and s: "proj_v1 ql ! i = Some s"
    and e: "v_end_in_at C cl ql i = Inr (Some e)"
    and o: "on_front (vertex_at (mesh_verts D) s) \<or> on_front (vertex_at (mesh_verts D) e)"
    and b: "\<forall>j<i. \<exists>sj ej. proj_v1 ql ! j = Some sj \<and> v_end_in_at C cl ql j = Inr (Some ej) \<and>
                       \<not> on_front (vertex_at (mesh_verts D) sj) \<and>
                       \<not> on_front (vertex_at (mesh_verts D) ej)"
    unfolding first_anchor_def by blast+
  have "anchor_walk C (mesh_verts D) cl ql 0 = anchor_walk C (mesh_verts D) cl ql (0 + i)"
    by (rule anchor_walk_skips) (use b lt in simp_all)
  also have "\<dots> = Inr (Some s, Some e)"
    using anchor_walk_stop[OF lt s e o] by simp
  finally show "update_anchors C cl ql D = Inr (True, D')"
    by (simp add: update_anchors_def d)
qed

lemma generate_quad_layer_true:
  "generate_quad_layer C E h D = Some (Inr (True, D')) \<longleftrightarrow>
     (\<exists>es ee cl ql D1. layer_span C E D = Some (es, ee, cl) \<and>
        build_layer C E h (es, ee, cl) D = Some (Inr (ql, D1)) \<and>
        update_anchors C cl ql D1 = Inr (True, D'))"
  by (auto simp: generate_quad_layer_def split: option.splits sum.splits)

lemma line_closest:
  "closest_vertices (1, 0) (4, 0) line_verts line_front = (Some (Suc 0), Some 4)"
  by (simp add: closest_vertices_def closest_step_def line_front_def line_verts_def
      line_xy_def mk_edge_def Let_def norm_sqr_def vsub_def)

lemma line_span:
  "layer_span (collab_row onf) env1 line_D = Some (Suc 0, 3, False)"
  by (simp add: layer_span_def Let_def line_D_def line_closest collab_row_def)
     (simp add: line_front_def mk_edge_def Let_def)

lemma line_next12:
  "get_next_edge env1 line_front (Suc 0) = Some 2" "get_next_edge env1 line_front 2 = Some 3"
  by (simp_all add: env1_def env0_def next_connected_def line_front_def mk_edge_def Let_def)

lemma line_ctor:
  "QuadLayer_ctor env1 line_front line_verts (Suc 0) 3 False (1 / 2) =
     Some (Inr (fold (add_quadlayer_edge line_front line_verts) [Suc 0, 2, 3]
                  (QuadLayer_init (Suc 0) 3 False (1 / 2))))"
proof -
  have "QuadLayer_walk env1 line_front line_verts (Some (Suc 0))
          (QuadLayer_init (Suc 0) 3 False (1 / 2)) =
        Some (Inr (fold (add_quadlayer_edge line_front line_verts) (Suc 0 # [2])
                     (QuadLayer_init (Suc 0) 3 False (1 / 2))))"
    by (rule walk_reaches) (simp_all add: line_next12 QuadLayer_init_def)
  then show ?thesis by (simp add: QuadLayer_ctor_def)
qed

lemma line_build:
  "\<exists>q2. base_v1 q2 = [Suc 0, 2, 3] \<and> base_v2 q2 = [2, 3, 4] \<and> base_edges q2 = [Suc 0, 2, 3] \<and>
     (\<forall>C. build_layer C env1 (1 / 2) (Suc 0, 3, False) line_D =
        (case layer_elements C (q2, line_verts, line_front, line_front) of
           None \<Rightarrow> None
         | Some (Inl f) \<Rightarrow> Some (Inl f)
         | Some (Inr (ql_n, vs_n, front_n, bdry_n)) \<Rightarrow>
             Some (Inr (ql_n, line_D\<lparr>mesh_verts := vs_n, advancing_front := front_n,
                                     boundary_edges := bdry_n\<rparr>))))"
proof -
  define q0 where "q0 = fold (add_quadlayer_edge line_front line_verts) [Suc 0, 2, 3]
                          (QuadLayer_init (Suc 0) 3 False (1 / 2))"
  have f0: "e_start q0 = Suc 0" "e_end q0 = 3" "is_closed q0 = False"
    "base_edges q0 = [Suc 0, 2, 3]" "base_v1 q0 = [Suc 0, 2, 3]" "base_v2 q0 = [2, 3, 4]"
    "length (heights q0) = 3" "length (proj_v1_xy q0) = 3" "length (proj_v2_xy q0) = 3"
    unfolding q0_def
    by (simp_all add: add_quadlayer_edge_fields QuadLayer_init_def)
       (simp_all add: line_front_def mk_edge_def Let_def)
  define q1 where "q1 = fold (smooth_step env1 line_front) [1 ..< length (heights q0) - 1] q0"
  have "[Suc 0 ..< 2] = [Suc 0]" by (simp add: upt_rec)
  then have q1: "q1 = smooth_step env1 line_front 1 q0"
    by (simp add: q1_def f0)
  have sm: "smooth_heights env1 line_front q0 = Inr q1"
    using f0(7) by (auto simp: smooth_heights_def q1_def)
  have f1: "e_start q1 = Suc 0" "e_end q1 = 3" "is_closed q1 = False"
    "base_edges q1 = [Suc 0, 2, 3]" "base_v1 q1 = [Suc 0, 2, 3]" "base_v2 q1 = [2, 3, 4]"
    "length (proj_v1_xy q1) = 3" "length (proj_v2_xy q1) = 3"
    by (simp_all add: q1 smooth_step_def Let_def f0)
  define q2 where "q2 = fold (\<lambda>i. adjust_projected_vertex_coordinates env1 line_front line_verts
                                     (i - 1) i) [1 ..< length (base_edges q1)] q1"
  have "same_bases q1 q2"
    unfolding q2_def f1
    by simp (rule same_bases_trans[OF adjust_same_bases adjust_same_bases])
  then have f2: "e_start q2 = Suc 0" "e_end q2 = 3"
    "base_edges q2 = [Suc 0, 2, 3]" "base_v1 q2 = [Suc 0, 2, 3]" "base_v2 q2 = [2, 3, 4]"
    by (simp_all add: same_bases_def f1)
  have nl: "\<not> is_left env1 a b c" for a b c by (simp add: env1_def env0_def)
  have ps: "place_start_vertex env1 line_verts line_front line_front q2 =
             Inr (q2, line_verts, line_front, line_front)"
    by (rule place_start_vertex_keep[where e_prv = 0])
       (simp_all add: f2 line_prev nl, simp add: line_front_def mk_edge_def Let_def)
  have pe: "place_end_vertex env1 line_verts line_front line_front q2 =
             Inr (q2, line_verts, line_front, line_front)"
    by (rule place_end_vertex_keep[where e_nxt = 4])
       (simp_all add: f2 line_next nl, simp add: line_front_def mk_edge_def Let_def)
  have su: "setup_vertex_projection env1 line_verts line_front line_front q1 =
          Inr (q2, line_verts, line_front, line_front)"
    unfolding setup_vertex_projection_def Let_def q2_def[symmetric]
    by (simp add: ps pe f1)
  have mv: "mesh_verts line_D = line_verts" "advancing_front line_D = line_front"
    "boundary_edges line_D = line_front"
    by (simp_all add: line_D_def)
  have c: "QuadLayer_ctor env1 line_front line_verts (Suc 0) 3 False (1 / 2) = Some (Inr q0)"
    by (simp only: line_ctor q0_def)
  have b: "build_layer C env1 (1 / 2) (Suc 0, 3, False) line_D =
        (case layer_elements C (q2, line_verts, line_front, line_front) of
           None \<Rightarrow> None
         | Some (Inl f) \<Rightarrow> Some (Inl f)
         | Some (Inr (ql_n, vs_n, front_n, bdry_n)) \<Rightarrow>
             Some (Inr (ql_n, line_D\<lparr>mesh_verts := vs_n, advancing_front := front_n,
                                     boundary_edges := bdry_n\<rparr>)))" for C
    unfolding build_layer_def
    by (simp only: Let_def case_prod_conv c mv sm su option.case sum.case)
  from f2(3,4,5) b show ?thesis by blast
qed

lemma row_build:
  "\<exists>ql. build_layer (collab_row onf) env1 (1 / 2) (Suc 0, 3, False) line_D =
           Some (Inr (ql, line_D\<lparr>mesh_verts := row_verts onf line_verts,
                                  advancing_front := line_front,
                                  boundary_edges := line_front\<rparr>)) \<and>
        proj_v1 ql = [Some 11, Some 12, Some 13] \<and>
        proj_v2 ql = [Some 12, Some 13, Some 14] \<and> length (base_edges ql) = 3"
proof -
  from line_build obtain q2 where
    f2: "base_v1 q2 = [Suc 0, 2, 3]" "base_v2 q2 = [2, 3, 4]" "base_edges q2 = [Suc 0, 2, 3]" and
    b: "\<And>C. build_layer C env1 (1 / 2) (Suc 0, 3, False) line_D =
        (case layer_elements C (q2, line_verts, line_front, line_front) of
           None \<Rightarrow> None
         | Some (Inl f) \<Rightarrow> Some (Inl f)
         | Some (Inr (ql_n, vs_n, front_n, bdry_n)) \<Rightarrow>
             Some (Inr (ql_n, line_D\<lparr>mesh_verts := vs_n, advancing_front := front_n,
                                     boundary_edges := bdry_n\<rparr>)))"
    by blast
  define ql where "ql = q2\<lparr>proj_v1 := map (\<lambda>v. Some (v + 10)) (base_v1 q2),
                            proj_v2 := map (\<lambda>v. Some (v + 10)) (base_v2 q2)\<rparr>"
  have el: "layer_elements (collab_row onf) (q2, line_verts, line_front, line_front) =
              Some (Inr (ql, row_verts onf line_verts, line_front, line_front))"
    by (simp add: collab_row_def row_elements_def ql_def)
  have "build_layer (collab_row onf) env1 (1 / 2) (Suc 0, 3, False) line_D =
           Some (Inr (ql, line_D\<lparr>mesh_verts := row_verts onf line_verts,
                                  advancing_front := line_front,
                                  boundary_edges := line_front\<rparr>))"
    by (simp only: b el option.case sum.case prod.case)
  moreover have "proj_v1 ql = [Some 11, Some 12, Some 13]"
    "proj_v2 ql = [Some 12, Some 13, Some 14]" "length (base_edges ql) = 3"
    by (simp_all add: ql_def f2)
  ultimately show ?thesis by blast
qed

lemma first_anchor_closed:
  assumes "first_anchor C vs True ql i s e"
  shows "first_both_anchor C vs True ql i s e \<and> e = s"
proof -
  have v: "v_end_in_at C True ql j = Inr (proj_v1 ql ! j)" for j
    by (simp add: v_end_in_at_def)
  from assms have a: "i < length (proj_v1 ql)" "proj_v1 ql ! i = Some s"
      "Inr (proj_v1 ql ! i) = (Inr (Some e) :: fault + vid option)"
      "on_front (vertex_at vs s) \<or> on_front (vertex_at vs e)"
      "\<forall>j<i. \<exists>sj ej. proj_v1 ql ! j = Some sj \<and>
                Inr (proj_v1 ql ! j) = (Inr (Some ej) :: fault + vid option) \<and>
                \<not> on_front (vertex_at vs sj) \<and> \<not> on_front (vertex_at vs ej)"
    unfolding first_anchor_def v by blast+
  from a(2,3) have se: "e = s" by simp
  have o: "on_front (vertex_at vs s)" "on_front (vertex_at vs e)" using a(4) se by auto
  have n: "\<forall>j<i. \<not> (\<exists>sj ej. proj_v1 ql ! j = Some sj \<and>
                Inr (proj_v1 ql ! j) = (Inr (Some ej) :: fault + vid option) \<and>
                on_front (vertex_at vs sj) \<and> on_front (vertex_at vs ej))"
    using a(5) by fastforce
  show ?thesis
    unfolding first_both_anchor_def v using a(1,2,3) o n se by blast
qed

lemma row_v_end:
  assumes "proj_v2 ql = [Some 12, Some 13, Some 14]" "length (base_edges ql) = 3"
  shows "v_end_in_at (collab_row onf) False ql 0 = Inr (Some 14)"
    "v_end_in_at (collab_row onf) False ql (Suc 0) = Inr (Some 12)"
    "v_end_in_at (collab_row onf) False ql 2 = Inr (Some 13)"
  by (simp_all add: v_end_in_at_def collab_row_def assms)

lemma row_verts_new:
  "10 \<le> v \<Longrightarrow> on_front (vertex_at (row_verts onf line_verts) v) = onf v"
  "xy (vertex_at (row_verts onf line_verts) 11) = (1, 1 / 2)"
  "xy (vertex_at (row_verts onf line_verts) 12) = (2, 1 / 2)"
  "xy (vertex_at (row_verts onf line_verts) 14) = (4, 1 / 2)"
  by (simp_all add: row_verts_def line_verts_def line_xy_def vadd_def)

text \<open>
  C1, as amended. \<open>generate_quad_layer\<close> returns true exactly when the span is found, the
  layer is built and the final walk stops at an index \<open>i\<close> with two anchors that are
  not null, at least one of which is on the front, while at every earlier index both
  pointers are not null and neither vertex is on the front; the new start and end
  positions are the coordinates of the two anchors. On a closed layer the two anchors
  are the same vertex, and \<open>i\<close> is the first index at which both are on the front.
\<close>

theorem anchor_walk_first_either:
  "(generate_quad_layer C E h D = Some (Inr (True, D')) \<longleftrightarrow>
     (\<exists>es ee cl ql D1 i s e.
        layer_span C E D = Some (es, ee, cl) \<and>
        build_layer C E h (es, ee, cl) D = Some (Inr (ql, D1)) \<and>
        first_anchor C (mesh_verts D1) cl ql i s e \<and>
        D' = D1\<lparr>xy_start := xy (vertex_at (mesh_verts D1) s),
                  xy_end := xy (vertex_at (mesh_verts D1) e)\<rparr>)) \<and>
   (first_anchor C vs True ql' k a b \<longrightarrow> first_both_anchor C vs True ql' k a b \<and> b = a)"
proof (rule conjI)
  show "generate_quad_layer C E h D = Some (Inr (True, D')) \<longleftrightarrow>
     (\<exists>es ee cl ql D1 i s e.
        layer_span C E D = Some (es, ee, cl) \<and>
        build_layer C E h (es, ee, cl) D = Some (Inr (ql, D1)) \<and>
        first_anchor C (mesh_verts D1) cl ql i s e \<and>
        D' = D1\<lparr>xy_start := xy (vertex_at (mesh_verts D1) s),
                  xy_end := xy (vertex_at (mesh_verts D1) e)\<rparr>)"
    unfolding generate_quad_layer_true update_anchors_true by blast
next
  show "first_anchor C vs True ql' k a b \<longrightarrow> first_both_anchor C vs True ql' k a b \<and> b = a"
    by (intro impI) (rule first_anchor_closed)
qed

lemma row_first_anchor:
  assumes "proj_v1 ql = [Some 11, Some 12, Some 13]"
    "proj_v2 ql = [Some 12, Some 13, Some 14]" "length (base_edges ql) = 3"
  shows "first_anchor (collab_row (\<lambda>v. v \<noteq> 14)) (row_verts (\<lambda>v. v \<noteq> 14) line_verts)
           False ql 0 11 14"
  by (simp add: first_anchor_def assms row_v_end row_verts_new)

theorem anchor_walk_first_either_witness:
  "\<exists>ql D1.
     layer_span (collab_row (\<lambda>v. v \<noteq> 14)) env1 line_D = Some (1, 3, False) \<and>
     build_layer (collab_row (\<lambda>v. v \<noteq> 14)) env1 (1 / 2) (1, 3, False) line_D =
       Some (Inr (ql, D1)) \<and>
     first_anchor (collab_row (\<lambda>v. v \<noteq> 14)) (mesh_verts D1) False ql 0 11 14 \<and>
     generate_quad_layer (collab_row (\<lambda>v. v \<noteq> 14)) env1 (1 / 2) line_D =
       Some (Inr (True, D1\<lparr>xy_start := (1, 1 / 2), xy_end := (4, 1 / 2)\<rparr>)) \<and>
     first_anchor (collab_row (\<lambda>v. v \<noteq> 11)) (row_verts (\<lambda>v. v \<noteq> 11) line_verts) True
       (ql0\<lparr>proj_v1 := [Some 11, Some 12, Some 13]\<rparr>) 1 12 12 \<and>
     first_both_anchor (collab_row (\<lambda>v. v \<noteq> 11)) (row_verts (\<lambda>v. v \<noteq> 11) line_verts) True
       (ql0\<lparr>proj_v1 := [Some 11, Some 12, Some 13]\<rparr>) 1 12 12"
proof -
  let ?C = "collab_row (\<lambda>v. v \<noteq> 14)"
  let ?D1 = "line_D\<lparr>mesh_verts := row_verts (\<lambda>v. v \<noteq> 14) line_verts,
                     advancing_front := line_front, boundary_edges := line_front\<rparr>"
  from row_build[of "\<lambda>v. v \<noteq> 14"] obtain ql where
    b: "build_layer ?C env1 (1 / 2) (Suc 0, 3, False) line_D = Some (Inr (ql, ?D1))" and
    p: "proj_v1 ql = [Some 11, Some 12, Some 13]" "proj_v2 ql = [Some 12, Some 13, Some 14]"
       "length (base_edges ql) = 3"
    by blast
  have m: "mesh_verts ?D1 = row_verts (\<lambda>v. v \<noteq> 14) line_verts" by simp
  have f: "first_anchor ?C (mesh_verts ?D1) False ql 0 11 14"
    unfolding m by (rule row_first_anchor[OF p])
  have x: "?D1\<lparr>xy_start := xy (vertex_at (mesh_verts ?D1) 11),
                 xy_end := xy (vertex_at (mesh_verts ?D1) 14)\<rparr> =
           ?D1\<lparr>xy_start := (1, 1 / 2), xy_end := (4, 1 / 2)\<rparr>"
    unfolding m by (simp only: row_verts_new)
  have "generate_quad_layer ?C env1 (1 / 2) line_D =
          Some (Inr (True, ?D1\<lparr>xy_start := xy (vertex_at (mesh_verts ?D1) 11),
                                 xy_end := xy (vertex_at (mesh_verts ?D1) 14)\<rparr>))"
    using anchor_walk_first_either[of ?C env1 "1 / 2" line_D
        "?D1\<lparr>xy_start := xy (vertex_at (mesh_verts ?D1) 11),
              xy_end := xy (vertex_at (mesh_verts ?D1) 14)\<rparr>", THEN conjunct1]
      line_span[of "\<lambda>v. v \<noteq> 14"] b f
    by blast
  then have g: "generate_quad_layer ?C env1 (1 / 2) line_D =
          Some (Inr (True, ?D1\<lparr>xy_start := (1, 1 / 2), xy_end := (4, 1 / 2)\<rparr>))"
    by (simp only: x)
  have c1: "first_anchor (collab_row (\<lambda>v. v \<noteq> 11)) (row_verts (\<lambda>v. v \<noteq> 11) line_verts) True
       (ql0\<lparr>proj_v1 := [Some 11, Some 12, Some 13]\<rparr>) (Suc 0) 12 12"
    by (simp add: first_anchor_def v_end_in_at_def row_verts_new)
  from anchor_walk_first_either[THEN conjunct2, THEN mp, OF c1]
  have c2: "first_both_anchor (collab_row (\<lambda>v. v \<noteq> 11))
       (row_verts (\<lambda>v. v \<noteq> 11) line_verts) True
       (ql0\<lparr>proj_v1 := [Some 11, Some 12, Some 13]\<rparr>) (Suc 0) 12 12"
    by (rule conjunct1)
  from line_span[of "\<lambda>v. v \<noteq> 14"] b f g c1 c2 show ?thesis
    by (intro exI[of _ ql] exI[of _ ?D1]) simp
qed

theorem anchor_walk_not_first_both:
  "\<exists>ql D1 D'.
     build_layer (collab_row (\<lambda>v. v \<noteq> 14)) env1 (1 / 2) (1, 3, False) line_D =
       Some (Inr (ql, D1)) \<and>
     generate_quad_layer (collab_row (\<lambda>v. v \<noteq> 14)) env1 (1 / 2) line_D =
       Some (Inr (True, D')) \<and>
     xy_start D' = (1, 1 / 2) \<and> xy_end D' = (4, 1 / 2) \<and>
     proj_v1 ql ! 0 = Some 11 \<and>
     v_end_in_at (collab_row (\<lambda>v. v \<noteq> 14)) False ql 0 = Inr (Some 14) \<and>
     on_front (vertex_at (mesh_verts D1) 11) \<and>
     \<not> on_front (vertex_at (mesh_verts D1) 14) \<and>
     first_both_anchor (collab_row (\<lambda>v. v \<noteq> 14)) (mesh_verts D1) False ql 1 12 12 \<and>
     xy (vertex_at (mesh_verts D1) 12) = (2, 1 / 2) \<and>
     \<not> (\<exists>i s e. first_both_anchor (collab_row (\<lambda>v. v \<noteq> 14)) (mesh_verts D1) False ql i s e \<and>
                  D' = D1\<lparr>xy_start := xy (vertex_at (mesh_verts D1) s),
                            xy_end := xy (vertex_at (mesh_verts D1) e)\<rparr>)"
proof -
  let ?C = "collab_row (\<lambda>v. v \<noteq> 14)"
  let ?vs = "row_verts (\<lambda>v. v \<noteq> 14) line_verts"
  let ?D1 = "line_D\<lparr>mesh_verts := ?vs, advancing_front := line_front,
                     boundary_edges := line_front\<rparr>"
  let ?D' = "?D1\<lparr>xy_start := xy (vertex_at (mesh_verts ?D1) 11),
                   xy_end := xy (vertex_at (mesh_verts ?D1) 14)\<rparr>"
  from row_build[of "\<lambda>v. v \<noteq> 14"] obtain ql where
    b: "build_layer ?C env1 (1 / 2) (Suc 0, 3, False) line_D = Some (Inr (ql, ?D1))" and
    p: "proj_v1 ql = [Some 11, Some 12, Some 13]" "proj_v2 ql = [Some 12, Some 13, Some 14]"
       "length (base_edges ql) = 3"
    by blast
  have m: "mesh_verts ?D1 = ?vs" by simp
  have f: "first_anchor ?C (mesh_verts ?D1) False ql 0 11 14"
    unfolding m by (rule row_first_anchor[OF p])
  have u: "update_anchors ?C False ql ?D1 = Inr (True, ?D')"
    unfolding update_anchors_true using f by blast
  have g: "generate_quad_layer ?C env1 (1 / 2) line_D = Some (Inr (True, ?D'))"
    unfolding generate_quad_layer_true using line_span[of "\<lambda>v. v \<noteq> 14"] b u by blast
  have xs: "xy_start ?D' = (1, 1 / 2)" "xy_end ?D' = (4, 1 / 2)"
    by (simp_all add: row_verts_new)
  have fb: "first_both_anchor ?C ?vs False ql (Suc 0) 12 12"
    by (simp add: first_both_anchor_def p row_v_end[OF p(2,3)] row_verts_new)
  have no: "\<not> (\<exists>i s e. first_both_anchor ?C ?vs False ql i s e \<and>
                  ?D' = ?D1\<lparr>xy_start := xy (vertex_at ?vs s), xy_end := xy (vertex_at ?vs e)\<rparr>)"
  proof
    assume "\<exists>i s e. first_both_anchor ?C ?vs False ql i s e \<and>
                  ?D' = ?D1\<lparr>xy_start := xy (vertex_at ?vs s), xy_end := xy (vertex_at ?vs e)\<rparr>"
    then obtain i s e where fa: "first_both_anchor ?C ?vs False ql i s e"
      and d: "?D' = ?D1\<lparr>xy_start := xy (vertex_at ?vs s), xy_end := xy (vertex_at ?vs e)\<rparr>"
      by blast
    from fa have i3: "i < 3" and si: "proj_v1 ql ! i = Some s"
      and ei: "v_end_in_at ?C False ql i = Inr (Some e)"
      and os: "on_front (vertex_at ?vs s)" and oe: "on_front (vertex_at ?vs e)"
      and fst: "\<forall>j<i. \<not> (\<exists>sj ej. proj_v1 ql ! j = Some sj \<and>
                   v_end_in_at ?C False ql j = Inr (Some ej) \<and>
                   on_front (vertex_at ?vs sj) \<and> on_front (vertex_at ?vs ej))"
      unfolding first_both_anchor_def by (simp_all add: p)
    from i3 consider "i = 0" | "i = Suc 0" | "i = 2" by linarith
    then show False
    proof cases
      case 1
      with ei have "e = 14" by (simp add: row_v_end[OF p(2,3)])
      with oe show False by (simp add: row_verts_new)
    next
      case 2
      with si have "s = 12" by (simp add: p)
      with d have "xy_start ?D' = xy (vertex_at ?vs 12)" by simp
      then show False by (simp add: row_verts_new)
    next
      case 3
      then have "Suc 0 < i" by simp
      then have "\<not> (\<exists>sj ej. proj_v1 ql ! Suc 0 = Some sj \<and>
                   v_end_in_at ?C False ql (Suc 0) = Inr (Some ej) \<and>
                   on_front (vertex_at ?vs sj) \<and> on_front (vertex_at ?vs ej))"
        by (rule fst[THEN spec, THEN mp])
      then show False by (simp add: p row_v_end[OF p(2,3)] row_verts_new)
    qed
  qed
  have e0: "proj_v1 ql ! 0 = Some 11" "v_end_in_at ?C False ql 0 = Inr (Some 14)"
    "on_front (vertex_at ?vs 11)" "\<not> on_front (vertex_at ?vs 14)"
    "xy (vertex_at ?vs 12) = (2, 1 / 2)"
    by (simp_all add: p row_v_end[OF p(2,3)] row_verts_new)
  have b1: "build_layer ?C env1 (1 / 2) (1, 3, False) line_D = Some (Inr (ql, ?D1))"
    using b by (simp only: One_nat_def)
  have fb1: "first_both_anchor ?C ?vs False ql 1 12 12"
    using fb by (simp only: One_nat_def)
  have "build_layer ?C env1 (1 / 2) (1, 3, False) line_D = Some (Inr (ql, ?D1)) \<and>
     generate_quad_layer ?C env1 (1 / 2) line_D = Some (Inr (True, ?D')) \<and>
     xy_start ?D' = (1, 1 / 2) \<and> xy_end ?D' = (4, 1 / 2) \<and>
     proj_v1 ql ! 0 = Some 11 \<and>
     v_end_in_at ?C False ql 0 = Inr (Some 14) \<and>
     on_front (vertex_at (mesh_verts ?D1) 11) \<and>
     \<not> on_front (vertex_at (mesh_verts ?D1) 14) \<and>
     first_both_anchor ?C (mesh_verts ?D1) False ql 1 12 12 \<and>
     xy (vertex_at (mesh_verts ?D1) 12) = (2, 1 / 2) \<and>
     \<not> (\<exists>i s e. first_both_anchor ?C (mesh_verts ?D1) False ql i s e \<and>
                  ?D' = ?D1\<lparr>xy_start := xy (vertex_at (mesh_verts ?D1) s),
                            xy_end := xy (vertex_at (mesh_verts ?D1) e)\<rparr>)"
    unfolding m
    by (intro conjI) (rule b1 g[unfolded m] xs[unfolded m] e0 fb1 no[unfolded m])+
  then show ?thesis
    by (intro exI[of _ ql] exI[of _ ?D1] exI[of _ ?D'])
qed

lemma skip_build:
  "\<exists>ql. build_layer collab_skip env1 (1 / 2) (Suc 0, 3, False) line_D =
           Some (Inr (ql, line_D\<lparr>mesh_verts := row_verts (\<lambda>v. True) line_verts,
                                  advancing_front := line_front,
                                  boundary_edges := line_front\<rparr>)) \<and>
        proj_v1 ql = [None, Some 12, Some 13] \<and>
        proj_v2 ql = [None, Some 13, Some 14] \<and> length (base_edges ql) = 3"
proof -
  from line_build obtain q2 where
    f2: "base_v1 q2 = [Suc 0, 2, 3]" "base_v2 q2 = [2, 3, 4]" "base_edges q2 = [Suc 0, 2, 3]" and
    b: "\<And>C. build_layer C env1 (1 / 2) (Suc 0, 3, False) line_D =
        (case layer_elements C (q2, line_verts, line_front, line_front) of
           None \<Rightarrow> None
         | Some (Inl f) \<Rightarrow> Some (Inl f)
         | Some (Inr (ql_n, vs_n, front_n, bdry_n)) \<Rightarrow>
             Some (Inr (ql_n, line_D\<lparr>mesh_verts := vs_n, advancing_front := front_n,
                                     boundary_edges := bdry_n\<rparr>)))"
    by blast
  define ql where "ql = q2\<lparr>proj_v1 := None # tl (map (\<lambda>v. Some (v + 10)) (base_v1 q2)),
                            proj_v2 := None # tl (map (\<lambda>v. Some (v + 10)) (base_v2 q2))\<rparr>"
  have el: "layer_elements collab_skip (q2, line_verts, line_front, line_front) =
              Some (Inr (ql, row_verts (\<lambda>v. True) line_verts, line_front, line_front))"
    by (simp add: collab_skip_def skip_first_elements_def ql_def)
  have "build_layer collab_skip env1 (1 / 2) (Suc 0, 3, False) line_D =
           Some (Inr (ql, line_D\<lparr>mesh_verts := row_verts (\<lambda>v. True) line_verts,
                                  advancing_front := line_front,
                                  boundary_edges := line_front\<rparr>))"
    by (simp only: b el option.case sum.case prod.case)
  moreover have "proj_v1 ql = [None, Some 12, Some 13]"
    "proj_v2 ql = [None, Some 13, Some 14]" "length (base_edges ql) = 3"
    by (simp_all add: ql_def f2)
  ultimately show ?thesis by blast
qed

lemma skip_span: "layer_span collab_skip env1 line_D = Some (Suc 0, 3, False)"
  by (simp add: layer_span_def Let_def line_D_def line_closest collab_skip_def collab_row_def)
     (simp add: line_front_def mk_edge_def Let_def)

lemma skip_generate:
  "generate_quad_layer collab_skip env1 (1 / 2) line_D = Some (Inl NullDereference)"
proof -
  let ?vs = "row_verts (\<lambda>v. True) line_verts"
  let ?D1 = "line_D\<lparr>mesh_verts := ?vs, advancing_front := line_front,
                     boundary_edges := line_front\<rparr>"
  from skip_build obtain ql where
    b: "build_layer collab_skip env1 (1 / 2) (Suc 0, 3, False) line_D = Some (Inr (ql, ?D1))" and
    p: "proj_v1 ql = [None, Some 12, Some 13]" "proj_v2 ql = [None, Some 13, Some 14]"
       "length (base_edges ql) = 3"
    by blast
  have v: "v_end_in_at collab_skip False ql 0 = Inr (Some 14)"
    by (simp add: v_end_in_at_def collab_skip_def collab_row_def p)
  have "anchor_walk collab_skip ?vs False ql 0 = Inl NullDereference"
    by (subst anchor_walk_step) (simp add: p v)
  then have "update_anchors collab_skip False ql ?D1 = Inl NullDereference"
    by (simp add: update_anchors_def)
  with skip_span b show ?thesis
    by (simp add: generate_quad_layer_def)
qed

lemma row_none_generate:
  "generate_quad_layer (collab_row (\<lambda>v. False)) env1 (1 / 2) line_D = Some (Inl OutOfBounds)"
proof -
  let ?C = "collab_row (\<lambda>v. False)"
  let ?vs = "row_verts (\<lambda>v. False) line_verts"
  let ?D1 = "line_D\<lparr>mesh_verts := ?vs, advancing_front := line_front,
                     boundary_edges := line_front\<rparr>"
  from row_build[of "\<lambda>v. False"] obtain ql where
    b: "build_layer ?C env1 (1 / 2) (Suc 0, 3, False) line_D = Some (Inr (ql, ?D1))" and
    p: "proj_v1 ql = [Some 11, Some 12, Some 13]" "proj_v2 ql = [Some 12, Some 13, Some 14]"
       "length (base_edges ql) = 3"
    by blast
  have "anchor_walk ?C ?vs False ql 0 = anchor_walk ?C ?vs False ql (0 + 3)"
  proof (rule anchor_walk_skips)
    show "0 + 3 \<le> length (proj_v1 ql)" by (simp add: p)
    show "\<forall>j. 0 \<le> j \<and> j < 0 + 3 \<longrightarrow>
             (\<exists>sj ej. proj_v1 ql ! j = Some sj \<and> v_end_in_at ?C False ql j = Inr (Some ej) \<and>
                       \<not> on_front (vertex_at ?vs sj) \<and> \<not> on_front (vertex_at ?vs ej))"
    proof (intro allI impI)
      fix j :: nat assume "0 \<le> j \<and> j < 0 + 3"
      then consider "j = 0" | "j = Suc 0" | "j = 2" by linarith
      then show "\<exists>sj ej. proj_v1 ql ! j = Some sj \<and> v_end_in_at ?C False ql j = Inr (Some ej) \<and>
                       \<not> on_front (vertex_at ?vs sj) \<and> \<not> on_front (vertex_at ?vs ej)"
        by cases (simp_all add: p row_v_end[OF p(2,3)] row_verts_new)
    qed
  qed
  also have "\<dots> = Inl OutOfBounds"
    by (subst anchor_walk_step) (simp add: p)
  finally have "update_anchors ?C False ql ?D1 = Inl OutOfBounds"
    by (simp add: update_anchors_def)
  with line_span[of "\<lambda>v. False"] b show ?thesis
    by (simp add: generate_quad_layer_def)
qed

text \<open>
  C9. On a layer whose projected vertices are all present and none of which is on the
  front, the final walk of \<open>generate_quad_layer\<close> runs past the last index and reads
  \<open>p1()[n]\<close>; on a layer whose first base got no triangle, the condition of the loop
  dereferences the null pointer \<open>p1()[0]\<close>. Neither call returns false.
\<close>

theorem generate_quad_layer_reads_out_of_bounds:
  "generate_quad_layer (collab_row (\<lambda>v. False)) env1 (1 / 2) line_D = Some (Inl OutOfBounds) \<and>
   generate_quad_layer collab_skip env1 (1 / 2) line_D = Some (Inl NullDereference)"
  by (rule conjI[OF row_none_generate skip_generate])

section \<open>Verification: the loop over the layers\<close>

lemma generate_quad_layer_frame:
  assumes "generate_quad_layer C E h D = Some (Inr (b, D'))"
  shows "growth_rate D' = growth_rate D \<and> n_layers D' = n_layers D \<and>
         first_height D' = first_height D"
proof (cases "layer_span C E D")
  case None
  with assms show ?thesis by (simp add: generate_quad_layer_def)
next
  case (Some sp)
  with assms obtain ql D1 where bl: "build_layer C E h sp D = Some (Inr (ql, D1))"
    and u: "update_anchors C (snd (snd sp)) ql D1 = Inr (b, D')"
    by (auto simp: generate_quad_layer_def split: option.splits sum.splits)
  from bl have d1: "growth_rate D1 = growth_rate D \<and> n_layers D1 = n_layers D \<and>
         first_height D1 = first_height D"
    by (auto simp: build_layer_def Let_def split: prod.splits option.splits sum.splits)
  from u have "growth_rate D' = growth_rate D1 \<and> n_layers D' = n_layers D1 \<and>
         first_height D' = first_height D1"
    by (auto simp: update_anchors_def split: sum.splits option.splits)
  with d1 show ?thesis by simp
qed

lemma layer_loop_trace:
  "layer_loop C E n h D = Some (Inr (success, D')) \<Longrightarrow>
     \<exists>Ds m. m \<le> n \<and> length Ds = m + 1 \<and> Ds ! 0 = D \<and> Ds ! m = D' \<and>
       (\<forall>k<m. generate_quad_layer C E (h * growth_rate D ^ k) (Ds ! k) =
                 Some (Inr (k + 1 < m \<or> success, Ds ! (k + 1)))) \<and>
       (success \<longrightarrow> m = n) \<and> (\<not> success \<longrightarrow> 0 < m)"
proof (induction n arbitrary: h D)
  case 0
  then have "success" "D' = D" by simp_all
  then show ?case by (intro exI[of _ "[D]"] exI[of _ 0]) simp
next
  case (Suc n)
  from Suc.prems obtain b D1 where g: "generate_quad_layer C E h D = Some (Inr (b, D1))"
    by (auto split: option.splits sum.splits)
  show ?case
  proof (cases b)
    case False
    with Suc.prems g have r: "success = False" "D' = D1" by simp_all
    show ?thesis
      by (intro exI[of _ "[D, D1]"] exI[of _ 1]) (simp add: r g False)
  next
    case True
    from generate_quad_layer_frame[OF g] have gr: "growth_rate D1 = growth_rate D" by simp
    from Suc.prems g True
    have "layer_loop C E n (h * growth_rate D1) D1 = Some (Inr (success, D'))" by simp
    from Suc.IH[OF this] obtain Ds m where
      m: "m \<le> n" and len: "length Ds = m + 1" and d0: "Ds ! 0 = D1" and dm: "Ds ! m = D'" and
      st: "\<forall>k<m. generate_quad_layer C E (h * growth_rate D1 * growth_rate D1 ^ k) (Ds ! k) =
                 Some (Inr (k + 1 < m \<or> success, Ds ! (k + 1)))" and
      su: "success \<longrightarrow> m = n" and fa: "\<not> success \<longrightarrow> 0 < m"
      by blast
    have steps: "\<forall>k<Suc m. generate_quad_layer C E (h * growth_rate D ^ k) ((D # Ds) ! k) =
                 Some (Inr (k + 1 < Suc m \<or> success, (D # Ds) ! (k + 1)))"
    proof (intro allI impI)
      fix k assume k: "k < Suc m"
      show "generate_quad_layer C E (h * growth_rate D ^ k) ((D # Ds) ! k) =
                 Some (Inr (k + 1 < Suc m \<or> success, (D # Ds) ! (k + 1)))"
      proof (cases k)
        case 0
        have "(0 + 1 < Suc m \<or> success) = True" using fa by auto
        with 0 g True d0 show ?thesis by simp
      next
        case (Suc k')
        with k have k': "k' < m" by simp
        from st k' have "generate_quad_layer C E (h * growth_rate D1 * growth_rate D1 ^ k')
                           (Ds ! k') = Some (Inr (k' + 1 < m \<or> success, Ds ! (k' + 1)))"
          by blast
        then show ?thesis by (simp add: Suc gr mult.assoc)
      qed
    qed
    show ?thesis
      apply (intro exI[of _ "D # Ds"] exI[of _ "Suc m"] conjI)
      using m apply simp
      using len apply simp
      apply simp
      using dm apply simp
      apply (rule steps)
      using su apply simp
      apply simp
      done
  qed
qed

lemma layer_loop_prefix:
  "m \<le> n \<Longrightarrow>
   (\<forall>k<m. generate_quad_layer C E (h * growth_rate (Ds 0) ^ k) (Ds k) =
             Some (Inr (True, Ds (k + 1)))) \<Longrightarrow>
   layer_loop C E n h (Ds 0) = layer_loop C E (n - m) (h * growth_rate (Ds 0) ^ m) (Ds m)"
proof (induction m arbitrary: n h Ds)
  case 0
  then show ?case by simp
next
  case (Suc m)
  from Suc.prems(1) obtain n' where n: "n = Suc n'" and mn: "m \<le> n'"
    by (cases n) simp_all
  from Suc.prems(2) have g0: "generate_quad_layer C E h (Ds 0) = Some (Inr (True, Ds (Suc 0)))"
    by force
  from generate_quad_layer_frame[OF g0] have gr: "growth_rate (Ds (Suc 0)) = growth_rate (Ds 0)"
    by simp
  have st: "\<forall>k<m. generate_quad_layer C E (h * growth_rate (Ds (Suc 0)) * growth_rate (Ds (Suc 0)) ^ k)
                     (Ds (Suc k)) = Some (Inr (True, Ds (Suc k + 1)))"
  proof (intro allI impI)
    fix k assume "k < m"
    then have "Suc k < Suc m" by simp
    with Suc.prems(2) have "generate_quad_layer C E (h * growth_rate (Ds 0) ^ Suc k) (Ds (Suc k)) =
             Some (Inr (True, Ds (Suc k + 1)))" by blast
    then show "generate_quad_layer C E (h * growth_rate (Ds (Suc 0)) * growth_rate (Ds (Suc 0)) ^ k)
                     (Ds (Suc k)) = Some (Inr (True, Ds (Suc k + 1)))"
      by (simp add: gr mult.assoc)
  qed
  from Suc.IH[OF mn, of "h * growth_rate (Ds (Suc 0))" "\<lambda>k. Ds (Suc k)"] st
  have "layer_loop C E n' (h * growth_rate (Ds (Suc 0))) (Ds (Suc 0)) =
        layer_loop C E (n' - m) (h * growth_rate (Ds (Suc 0)) * growth_rate (Ds (Suc 0)) ^ m) (Ds (Suc m))"
    by simp
  with g0 show ?case
    by (simp add: n gr mult.assoc)
qed

lemma layer_loop_run:
  assumes st: "\<forall>k<m. generate_quad_layer C E (h * growth_rate (Ds 0) ^ k) (Ds k) =
                        Some (Inr (True, Ds (k + 1)))"
  shows "(m = n \<longrightarrow> layer_loop C E n h (Ds 0) = Some (Inr (True, Ds n))) \<and>
         (\<forall>D'. m < n \<and> generate_quad_layer C E (h * growth_rate (Ds 0) ^ m) (Ds m) =
                          Some (Inr (False, D')) \<longrightarrow>
               layer_loop C E n h (Ds 0) = Some (Inr (False, D'))) \<and>
         (\<forall>f. m < n \<and> generate_quad_layer C E (h * growth_rate (Ds 0) ^ m) (Ds m) =
                         Some (Inl f) \<longrightarrow>
               layer_loop C E n h (Ds 0) = Some (Inl f))"
proof (intro conjI allI impI)
  assume "m = n"
  with layer_loop_prefix[of m n C E h Ds] st
  show "layer_loop C E n h (Ds 0) = Some (Inr (True, Ds n))" by simp
next
  fix D'
  assume a: "m < n \<and> generate_quad_layer C E (h * growth_rate (Ds 0) ^ m) (Ds m) =
                          Some (Inr (False, D'))"
  then obtain j where j: "n - m = Suc j" by (cases "n - m") simp_all
  from a layer_loop_prefix[of m n C E h Ds] st
  have "layer_loop C E n h (Ds 0) = layer_loop C E (n - m) (h * growth_rate (Ds 0) ^ m) (Ds m)"
    by simp
  with a show "layer_loop C E n h (Ds 0) = Some (Inr (False, D'))"
    by (simp add: j)
next
  fix f
  assume a: "m < n \<and> generate_quad_layer C E (h * growth_rate (Ds 0) ^ m) (Ds m) =
                         Some (Inl f)"
  then obtain j where j: "n - m = Suc j" by (cases "n - m") simp_all
  from a layer_loop_prefix[of m n C E h Ds] st
  have "layer_loop C E n h (Ds 0) = layer_loop C E (n - m) (h * growth_rate (Ds 0) ^ m) (Ds m)"
    by simp
  with a show "layer_loop C E n h (Ds 0) = Some (Inl f)"
    by (simp add: j)
qed

text \<open>
  The calls decide the result of \<open>generate_elements\<close>. With a boundary edge and a
  prepared front, let the first \<open>m\<close> calls of \<open>generate_quad_layer\<close>, call \<open>k\<close> with the
  height \<open>first_height \<cdot> growth_rate ^ k\<close> on the state the call before left, return
  true. If \<open>m\<close> is \<open>n_layers\<close>, the result is true; if the next call returns false, the
  result is false and no further layer is tried; if the next call ends in a fault, so
  does \<open>generate_elements\<close>.
\<close>

lemma generate_elements_run:
  assumes nb: "1 \<le> n_boundary_edges C (boundary_edges D)"
      and pf: "prepare_front C (mesh_verts D, advancing_front D, boundary_edges D) =
                 Some (Inr (vs, fr, bd))"
      and d0: "Ds 0 = D\<lparr>mesh_verts := vs, advancing_front := fr, boundary_edges := bd\<rparr>"
      and st: "\<forall>k<m. generate_quad_layer C E (first_height D * growth_rate D ^ k) (Ds k) =
                        Some (Inr (True, Ds (k + 1)))"
  shows "(\<forall>vs2 fr2 bd2. m = n_layers D \<and>
            finish_mesh_for_output C
              (mesh_verts (Ds m), advancing_front (Ds m), boundary_edges (Ds m)) =
              Some (Inr (vs2, fr2, bd2)) \<longrightarrow>
            generate_elements C E D =
              Some (Inr (True, (Ds m)\<lparr>mesh_verts := vs2,
                                      advancing_front := fr2\<lparr>edges := []\<rparr>,
                                      boundary_edges := bd2\<rparr>))) \<and>
         (\<forall>D1 vs2 fr2 bd2. m < n_layers D \<and>
            generate_quad_layer C E (first_height D * growth_rate D ^ m) (Ds m) =
              Some (Inr (False, D1)) \<and>
            finish_mesh_for_output C (mesh_verts D1, advancing_front D1, boundary_edges D1) =
              Some (Inr (vs2, fr2, bd2)) \<longrightarrow>
            generate_elements C E D =
              Some (Inr (False, D1\<lparr>mesh_verts := vs2,
                                   advancing_front := fr2\<lparr>edges := []\<rparr>,
                                   boundary_edges := bd2\<rparr>))) \<and>
         (\<forall>f. m < n_layers D \<and>
            generate_quad_layer C E (first_height D * growth_rate D ^ m) (Ds m) =
              Some (Inl f) \<longrightarrow>
            generate_elements C E D = Some (Inl f))"
proof -
  have g: "growth_rate (Ds 0) = growth_rate D" by (simp add: d0)
  from st have st': "\<forall>k<m. generate_quad_layer C E (first_height D * growth_rate (Ds 0) ^ k) (Ds k) =
                        Some (Inr (True, Ds (k + 1)))"
    by (simp only: g)
  note run = layer_loop_run[OF st', of "n_layers D", unfolded g, unfolded d0]
  have nn: "\<not> n_boundary_edges C (boundary_edges D) < 1" using nb by simp
  show ?thesis
  proof (intro conjI allI impI)
    fix vs2 fr2 bd2
    assume a: "m = n_layers D \<and>
            finish_mesh_for_output C
              (mesh_verts (Ds m), advancing_front (Ds m), boundary_edges (Ds m)) =
              Some (Inr (vs2, fr2, bd2))"
    with run have "layer_loop C E (n_layers D) (first_height D)
            (D\<lparr>mesh_verts := vs, advancing_front := fr, boundary_edges := bd\<rparr>) =
          Some (Inr (True, Ds (n_layers D)))" by blast
    moreover from a have "m = n_layers D" and
      "finish_mesh_for_output C (mesh_verts (Ds (n_layers D)), advancing_front (Ds (n_layers D)),
          boundary_edges (Ds (n_layers D))) = Some (Inr (vs2, fr2, bd2))"
      by auto
    ultimately show "generate_elements C E D =
              Some (Inr (True, (Ds m)\<lparr>mesh_verts := vs2,
                                      advancing_front := fr2\<lparr>edges := []\<rparr>,
                                      boundary_edges := bd2\<rparr>))"
      using nn pf by (simp add: generate_elements_def)
  next
    fix D1 vs2 fr2 bd2
    assume a: "m < n_layers D \<and>
            generate_quad_layer C E (first_height D * growth_rate D ^ m) (Ds m) =
              Some (Inr (False, D1)) \<and>
            finish_mesh_for_output C (mesh_verts D1, advancing_front D1, boundary_edges D1) =
              Some (Inr (vs2, fr2, bd2))"
    with run have "layer_loop C E (n_layers D) (first_height D)
            (D\<lparr>mesh_verts := vs, advancing_front := fr, boundary_edges := bd\<rparr>) =
          Some (Inr (False, D1))" by blast
    with a nn pf show "generate_elements C E D =
              Some (Inr (False, D1\<lparr>mesh_verts := vs2,
                                   advancing_front := fr2\<lparr>edges := []\<rparr>,
                                   boundary_edges := bd2\<rparr>))"
      by (simp add: generate_elements_def)
  next
    fix f
    assume a: "m < n_layers D \<and>
            generate_quad_layer C E (first_height D * growth_rate D ^ m) (Ds m) =
              Some (Inl f)"
    with run have "layer_loop C E (n_layers D) (first_height D)
            (D\<lparr>mesh_verts := vs, advancing_front := fr, boundary_edges := bd\<rparr>) =
          Some (Inl f)" by blast
    with nn pf show "generate_elements C E D = Some (Inl f)"
      by (simp add: generate_elements_def)
  qed
qed

text \<open>
  Without a boundary edge \<open>generate_elements\<close> returns false at once, the mesh and
  the front untouched. Otherwise, when it returns the flag \<open>success\<close>, the front was
  prepared and \<open>generate_quad_layer\<close> was called \<open>m \<le> n_layers\<close> times, call \<open>k\<close> with
  the height \<open>first_height \<cdot> growth_rate ^ k\<close> on the state the call before left; every
  call but the last returned true, and the last returned \<open>success\<close>; \<open>success\<close> is true
  only after all \<open>n_layers\<close> calls and false only after a call that returned false, after
  which no further layer was tried. The mesh is then finished for output and the front
  emptied.
\<close>

lemma generate_elements_trace:
  "(n_boundary_edges C (boundary_edges D) < 1 \<longrightarrow>
      generate_elements C E D = Some (Inr (False, D))) \<and>
   (generate_elements C E D = Some (Inr (success, D')) \<and>
    1 \<le> n_boundary_edges C (boundary_edges D) \<longrightarrow>
      (\<exists>vs fr bd Ds m.
         prepare_front C (mesh_verts D, advancing_front D, boundary_edges D) =
           Some (Inr (vs, fr, bd)) \<and>
         m \<le> n_layers D \<and> length Ds = m + 1 \<and>
         Ds ! 0 = D\<lparr>mesh_verts := vs, advancing_front := fr, boundary_edges := bd\<rparr> \<and>
         (\<forall>k<m. generate_quad_layer C E (first_height D * growth_rate D ^ k) (Ds ! k) =
                   Some (Inr (k + 1 < m \<or> success, Ds ! (k + 1)))) \<and>
         (success \<longrightarrow> m = n_layers D) \<and> (\<not> success \<longrightarrow> 0 < m) \<and>
         (\<exists>vs2 fr2 bd2.
            finish_mesh_for_output C
              (mesh_verts (Ds ! m), advancing_front (Ds ! m), boundary_edges (Ds ! m)) =
              Some (Inr (vs2, fr2, bd2)) \<and>
            D' = (Ds ! m)\<lparr>mesh_verts := vs2, advancing_front := fr2\<lparr>edges := []\<rparr>,
                           boundary_edges := bd2\<rparr>)))"
proof (rule conjI)
  show "n_boundary_edges C (boundary_edges D) < 1 \<longrightarrow>
          generate_elements C E D = Some (Inr (False, D))"
    by (simp add: generate_elements_def)
next
  show "generate_elements C E D = Some (Inr (success, D')) \<and>
    1 \<le> n_boundary_edges C (boundary_edges D) \<longrightarrow>
      (\<exists>vs fr bd Ds m.
         prepare_front C (mesh_verts D, advancing_front D, boundary_edges D) =
           Some (Inr (vs, fr, bd)) \<and>
         m \<le> n_layers D \<and> length Ds = m + 1 \<and>
         Ds ! 0 = D\<lparr>mesh_verts := vs, advancing_front := fr, boundary_edges := bd\<rparr> \<and>
         (\<forall>k<m. generate_quad_layer C E (first_height D * growth_rate D ^ k) (Ds ! k) =
                   Some (Inr (k + 1 < m \<or> success, Ds ! (k + 1)))) \<and>
         (success \<longrightarrow> m = n_layers D) \<and> (\<not> success \<longrightarrow> 0 < m) \<and>
         (\<exists>vs2 fr2 bd2.
            finish_mesh_for_output C
              (mesh_verts (Ds ! m), advancing_front (Ds ! m), boundary_edges (Ds ! m)) =
              Some (Inr (vs2, fr2, bd2)) \<and>
            D' = (Ds ! m)\<lparr>mesh_verts := vs2, advancing_front := fr2\<lparr>edges := []\<rparr>,
                           boundary_edges := bd2\<rparr>))"
  proof (intro impI, elim conjE)
    assume ge: "generate_elements C E D = Some (Inr (success, D'))"
      and nb: "1 \<le> n_boundary_edges C (boundary_edges D)"
    let ?P = "\<lambda>vs fr bd. D\<lparr>mesh_verts := vs, advancing_front := fr, boundary_edges := bd\<rparr>"
    from ge nb obtain vs fr bd where
      pf: "prepare_front C (mesh_verts D, advancing_front D, boundary_edges D) =
             Some (Inr (vs, fr, bd))"
      by (auto simp: generate_elements_def split: option.splits sum.splits)
    from ge nb pf obtain D2 where
      ll: "layer_loop C E (n_layers D) (first_height D) (?P vs fr bd) = Some (Inr (success, D2))"
      by (auto simp: generate_elements_def split: option.splits sum.splits)
    from ge nb pf ll obtain vs2 fr2 bd2 where
      fm: "finish_mesh_for_output C (mesh_verts D2, advancing_front D2, boundary_edges D2) =
             Some (Inr (vs2, fr2, bd2))" and
      d': "D' = D2\<lparr>mesh_verts := vs2, advancing_front := fr2\<lparr>edges := []\<rparr>,
                    boundary_edges := bd2\<rparr>"
      by (auto simp: generate_elements_def split: option.splits sum.splits)
    from layer_loop_trace[OF ll] obtain Ds m where
      m: "m \<le> n_layers D" and len: "length Ds = m + 1" and d0: "Ds ! 0 = ?P vs fr bd"
      and dm: "Ds ! m = D2" and
      st: "\<forall>k<m. generate_quad_layer C E (first_height D * growth_rate (?P vs fr bd) ^ k) (Ds ! k) =
                 Some (Inr (k + 1 < m \<or> success, Ds ! (k + 1)))" and
      su: "success \<longrightarrow> m = n_layers D" and fa: "\<not> success \<longrightarrow> 0 < m"
      by blast
    have st': "\<forall>k<m. generate_quad_layer C E (first_height D * growth_rate D ^ k) (Ds ! k) =
                 Some (Inr (k + 1 < m \<or> success, Ds ! (k + 1)))"
      using st by simp
    have fin: "\<exists>vs2 fr2 bd2.
            finish_mesh_for_output C
              (mesh_verts (Ds ! m), advancing_front (Ds ! m), boundary_edges (Ds ! m)) =
              Some (Inr (vs2, fr2, bd2)) \<and>
            D' = (Ds ! m)\<lparr>mesh_verts := vs2, advancing_front := fr2\<lparr>edges := []\<rparr>,
                           boundary_edges := bd2\<rparr>"
      unfolding dm using fm d' by blast
    from pf m len d0 st' su fa fin
    show "\<exists>vs fr bd Ds m.
         prepare_front C (mesh_verts D, advancing_front D, boundary_edges D) =
           Some (Inr (vs, fr, bd)) \<and>
         m \<le> n_layers D \<and> length Ds = m + 1 \<and>
         Ds ! 0 = D\<lparr>mesh_verts := vs, advancing_front := fr, boundary_edges := bd\<rparr> \<and>
         (\<forall>k<m. generate_quad_layer C E (first_height D * growth_rate D ^ k) (Ds ! k) =
                   Some (Inr (k + 1 < m \<or> success, Ds ! (k + 1)))) \<and>
         (success \<longrightarrow> m = n_layers D) \<and> (\<not> success \<longrightarrow> 0 < m) \<and>
         (\<exists>vs2 fr2 bd2.
            finish_mesh_for_output C
              (mesh_verts (Ds ! m), advancing_front (Ds ! m), boundary_edges (Ds ! m)) =
              Some (Inr (vs2, fr2, bd2)) \<and>
            D' = (Ds ! m)\<lparr>mesh_verts := vs2, advancing_front := fr2\<lparr>edges := []\<rparr>,
                           boundary_edges := bd2\<rparr>)"
      by - (rule exI[of _ vs], rule exI[of _ fr], rule exI[of _ bd], rule exI[of _ Ds],
            rule exI[of _ m], intro conjI, assumption+)
  qed
qed

lemma line_D_same:
  "line_D\<lparr>mesh_verts := line_verts, advancing_front := line_front,
          boundary_edges := line_front\<rparr> = line_D"
  by (simp add: line_D_def)

lemma row_generate:
  "generate_quad_layer (collab_row (\<lambda>v. v \<noteq> 14)) env1 (1 / 2) line_D =
     Some (Inr (True, line_D\<lparr>mesh_verts := row_verts (\<lambda>v. v \<noteq> 14) line_verts,
                             xy_start := (1, 1 / 2), xy_end := (4, 1 / 2)\<rparr>))"
proof -
  let ?C = "collab_row (\<lambda>v. v \<noteq> 14)"
  let ?vs = "row_verts (\<lambda>v. v \<noteq> 14) line_verts"
  let ?D1 = "line_D\<lparr>mesh_verts := ?vs, advancing_front := line_front,
                     boundary_edges := line_front\<rparr>"
  from row_build[of "\<lambda>v. v \<noteq> 14"] obtain ql where
    b: "build_layer ?C env1 (1 / 2) (Suc 0, 3, False) line_D = Some (Inr (ql, ?D1))" and
    p: "proj_v1 ql = [Some 11, Some 12, Some 13]" "proj_v2 ql = [Some 12, Some 13, Some 14]"
       "length (base_edges ql) = 3"
    by blast
  have m: "mesh_verts ?D1 = ?vs" by simp
  have f: "first_anchor ?C (mesh_verts ?D1) False ql 0 11 14"
    unfolding m by (rule row_first_anchor[OF p])
  have u: "update_anchors ?C False ql ?D1 =
             Inr (True, ?D1\<lparr>xy_start := xy (vertex_at (mesh_verts ?D1) 11),
                              xy_end := xy (vertex_at (mesh_verts ?D1) 14)\<rparr>)"
    unfolding update_anchors_true using f by blast
  have "generate_quad_layer ?C env1 (1 / 2) line_D =
          Some (Inr (True, ?D1\<lparr>xy_start := xy (vertex_at (mesh_verts ?D1) 11),
                              xy_end := xy (vertex_at (mesh_verts ?D1) 14)\<rparr>))"
    unfolding generate_quad_layer_true using line_span[of "\<lambda>v. v \<noteq> 14"] b u by blast
  then show ?thesis
    by (simp add: row_verts_new line_D_def)
qed

lemma block_generate:
  "generate_quad_layer collab_block env1 h (line_D\<lparr>n_layers := 2\<rparr>) =
     Some (Inr (False, line_D\<lparr>n_layers := 2\<rparr>))"
proof -
  have "layer_span collab_block env1 (line_D\<lparr>n_layers := 2\<rparr>) = None"
    by (simp add: layer_span_def Let_def line_D_def line_closest collab_block_def collab_row_def)
       (simp add: line_front_def mk_edge_def Let_def)
  then show ?thesis by (simp add: generate_quad_layer_def)
qed

lemma generate_elements_trace_example:
  "generate_elements (collab_row (\<lambda>v. v \<noteq> 14)) env1
     (line_D\<lparr>boundary_edges := line_front\<lparr>edges := []\<rparr>\<rparr>) =
     Some (Inr (False, line_D\<lparr>boundary_edges := line_front\<lparr>edges := []\<rparr>\<rparr>)) \<and>
   (\<exists>D' Ds. generate_elements (collab_row (\<lambda>v. v \<noteq> 14)) env1 line_D = Some (Inr (True, D')) \<and>
      length Ds = 2 \<and> Ds ! 0 = line_D \<and>
      generate_quad_layer (collab_row (\<lambda>v. v \<noteq> 14)) env1 (1 / 2) (Ds ! 0) =
        Some (Inr (True, Ds ! 1)) \<and>
      D' = (Ds ! 1)\<lparr>advancing_front := line_front\<lparr>edges := []\<rparr>\<rparr>) \<and>
   (\<exists>D' Ds m. generate_elements collab_block env1 (line_D\<lparr>n_layers := 2\<rparr>) =
        Some (Inr (False, D')) \<and>
      m = 1 \<and> length Ds = m + 1 \<and> Ds ! 0 = line_D\<lparr>n_layers := 2\<rparr> \<and>
      generate_quad_layer collab_block env1 (1 / 2) (Ds ! 0) = Some (Inr (False, Ds ! 1)))"
proof (intro conjI)
  let ?C = "collab_row (\<lambda>v. v \<noteq> 14)"
  let ?D0 = "line_D\<lparr>boundary_edges := line_front\<lparr>edges := []\<rparr>\<rparr>"
  have "n_boundary_edges ?C (boundary_edges ?D0) < 1"
    by (simp add: collab_row_def)
  with generate_elements_trace[of ?C ?D0 env1, THEN conjunct1]
  show "generate_elements ?C env1 ?D0 = Some (Inr (False, ?D0))" by (rule mp)
next
  let ?C = "collab_row (\<lambda>v. v \<noteq> 14)"
  let ?D1 = "line_D\<lparr>mesh_verts := row_verts (\<lambda>v. v \<noteq> 14) line_verts,
                     xy_start := (1, 1 / 2), xy_end := (4, 1 / 2)\<rparr>"
  let ?D' = "?D1\<lparr>advancing_front := line_front\<lparr>edges := []\<rparr>\<rparr>"
  have nb: "1 \<le> n_boundary_edges ?C (boundary_edges line_D)"
    by (simp add: collab_row_def line_D_def line_front_def)
  have pf: "prepare_front ?C (mesh_verts line_D, advancing_front line_D, boundary_edges line_D) =
              Some (Inr (line_verts, line_front, line_front))"
    by (simp add: collab_row_def line_D_def)
  have nl: "n_layers line_D = Suc 0" "first_height line_D = 1 / 2" "growth_rate line_D = 1"
    by (simp_all add: line_D_def)
  have ll: "layer_loop ?C env1 (Suc 0) (1 / 2) line_D = Some (Inr (True, ?D1))"
    by (simp add: row_generate)
  have fm: "finish_mesh_for_output ?C (mesh_verts ?D1, advancing_front ?D1, boundary_edges ?D1) =
              Some (Inr (mesh_verts ?D1, advancing_front ?D1, boundary_edges ?D1))"
    by (simp add: collab_row_def)
  have nn: "\<not> n_boundary_edges ?C (boundary_edges line_D) < 1" using nb by simp
  have ge: "generate_elements ?C env1 line_D = Some (Inr (True, ?D'))"
    unfolding generate_elements_def
    by (simp only: nn if_False pf option.case sum.case prod.case line_D_same nl ll fm)
       (simp add: line_D_def)
  from generate_elements_trace[of ?C line_D env1 True ?D', THEN conjunct2, THEN mp,
      OF conjI[OF ge nb]]
  obtain vs fr bd Ds m where
    pf': "prepare_front ?C (mesh_verts line_D, advancing_front line_D, boundary_edges line_D) =
           Some (Inr (vs, fr, bd))" and
    len: "length Ds = m + 1" and
    d0: "Ds ! 0 = line_D\<lparr>mesh_verts := vs, advancing_front := fr, boundary_edges := bd\<rparr>" and
    st: "\<forall>k<m. generate_quad_layer ?C env1 (first_height line_D * growth_rate line_D ^ k)
                  (Ds ! k) = Some (Inr (k + 1 < m \<or> True, Ds ! (k + 1)))" and
    su: "True \<longrightarrow> m = n_layers line_D" and
    fin: "\<exists>vs2 fr2 bd2.
            finish_mesh_for_output ?C
              (mesh_verts (Ds ! m), advancing_front (Ds ! m), boundary_edges (Ds ! m)) =
              Some (Inr (vs2, fr2, bd2)) \<and>
            ?D' = (Ds ! m)\<lparr>mesh_verts := vs2, advancing_front := fr2\<lparr>edges := []\<rparr>,
                           boundary_edges := bd2\<rparr>"
    by blast
  from su have m1: "m = Suc 0" by (simp add: nl)
  from pf pf' have "vs = line_verts" "fr = line_front" "bd = line_front" by simp_all
  with d0 have d0': "Ds ! 0 = line_D" by (simp add: line_D_same)
  from st m1 have g0: "generate_quad_layer ?C env1 (1 / 2) (Ds ! 0) = Some (Inr (True, Ds ! 1))"
    by (simp add: nl)
  with d0' have d1: "Ds ! 1 = ?D1" by (simp add: row_generate)
  have "?D' = (Ds ! 1)\<lparr>advancing_front := line_front\<lparr>edges := []\<rparr>\<rparr>"
    by (simp only: d1)
  with ge len m1 d0' g0
  show "\<exists>D' Ds. generate_elements ?C env1 line_D = Some (Inr (True, D')) \<and>
      length Ds = 2 \<and> Ds ! 0 = line_D \<and>
      generate_quad_layer ?C env1 (1 / 2) (Ds ! 0) = Some (Inr (True, Ds ! 1)) \<and>
      D' = (Ds ! 1)\<lparr>advancing_front := line_front\<lparr>edges := []\<rparr>\<rparr>"
    by - (rule exI[of _ ?D'], rule exI[of _ Ds], simp)
next
  let ?D = "line_D\<lparr>n_layers := 2\<rparr>"
  let ?D' = "?D\<lparr>advancing_front := line_front\<lparr>edges := []\<rparr>\<rparr>"
  have nb: "1 \<le> n_boundary_edges collab_block (boundary_edges ?D)"
    by (simp add: collab_block_def collab_row_def line_D_def line_front_def)
  have pf: "prepare_front collab_block (mesh_verts ?D, advancing_front ?D, boundary_edges ?D) =
              Some (Inr (line_verts, line_front, line_front))"
    by (simp add: collab_block_def collab_row_def line_D_def)
  have same: "?D\<lparr>mesh_verts := line_verts, advancing_front := line_front,
                   boundary_edges := line_front\<rparr> = ?D"
    by (simp add: line_D_def)
  have nl: "n_layers ?D = Suc (Suc 0)" "first_height ?D = 1 / 2" "growth_rate ?D = 1"
    by (simp_all add: line_D_def)
  have ll: "layer_loop collab_block env1 (Suc (Suc 0)) (1 / 2) ?D = Some (Inr (False, ?D))"
    by (simp add: block_generate)
  have fm: "finish_mesh_for_output collab_block
              (mesh_verts ?D, advancing_front ?D, boundary_edges ?D) =
              Some (Inr (mesh_verts ?D, advancing_front ?D, boundary_edges ?D))"
    by (simp add: collab_block_def collab_row_def)
  have nn: "\<not> n_boundary_edges collab_block (boundary_edges ?D) < 1" using nb by simp
  have ge: "generate_elements collab_block env1 ?D = Some (Inr (False, ?D'))"
    unfolding generate_elements_def
    by (simp only: nn if_False pf option.case sum.case prod.case same nl ll fm)
       (simp add: line_D_def)
  from generate_elements_trace[of collab_block ?D env1 False ?D', THEN conjunct2, THEN mp,
      OF conjI[OF ge nb]]
  obtain vs fr bd Ds m where
    pf': "prepare_front collab_block (mesh_verts ?D, advancing_front ?D, boundary_edges ?D) =
           Some (Inr (vs, fr, bd))" and
    len: "length Ds = m + 1" and
    d0: "Ds ! 0 = ?D\<lparr>mesh_verts := vs, advancing_front := fr, boundary_edges := bd\<rparr>" and
    st: "\<forall>k<m. generate_quad_layer collab_block env1 (first_height ?D * growth_rate ?D ^ k)
                  (Ds ! k) = Some (Inr (k + 1 < m \<or> False, Ds ! (k + 1)))" and
    fa: "\<not> False \<longrightarrow> 0 < m"
    by blast
  from fa have m0: "0 < m" by simp
  from pf pf' have "vs = line_verts" "fr = line_front" "bd = line_front" by simp_all
  with d0 have d0': "Ds ! 0 = ?D" by (simp add: same)
  from st m0 have "generate_quad_layer collab_block env1 (first_height ?D * growth_rate ?D ^ 0)
                  (Ds ! 0) = Some (Inr (0 + 1 < m \<or> False, Ds ! (0 + 1)))"
    by blast
  then have g0: "generate_quad_layer collab_block env1 (1 / 2) ?D =
                   Some (Inr (1 < m, Ds ! 1))"
    by (simp add: nl d0')
  then have "\<not> 1 < m" by (simp add: block_generate)
  with m0 have m1: "m = 1" by simp
  from g0 m1 d0' have g1: "generate_quad_layer collab_block env1 (1 / 2) (Ds ! 0) =
                             Some (Inr (False, Ds ! 1))"
    by simp
  from ge m1 len d0' g1
  show "\<exists>D' Ds m. generate_elements collab_block env1 ?D = Some (Inr (False, D')) \<and>
      m = 1 \<and> length Ds = m + 1 \<and> Ds ! 0 = ?D \<and>
      generate_quad_layer collab_block env1 (1 / 2) (Ds ! 0) = Some (Inr (False, Ds ! 1))"
    by - (rule exI[of _ ?D'], rule exI[of _ Ds], rule exI[of _ m], simp)
qed

lemma line_layer_loop_faults:
  "layer_loop (collab_row (\<lambda>v. False)) env1 (Suc 0) (1 / 2) line_D = Some (Inl OutOfBounds)"
  "layer_loop collab_skip env1 (Suc 0) (1 / 2) line_D = Some (Inl NullDereference)"
  by (simp_all add: row_none_generate skip_generate)

text \<open>
  C8. On the straight front of five boundary edges, with one layer to build, the call
  of \<open>generate_quad_layer\<close> inside \<open>generate_elements\<close> ends in the final walk: it runs
  past the last index of a layer none of whose projected vertices is on the front, or
  dereferences the null first projected vertex of a layer whose first base got no
  triangle. \<open>generate_elements\<close> reports no boolean then.
\<close>

theorem generate_elements_reports_no_boolean:
  "n_boundary_edges (collab_row (\<lambda>v. False)) (boundary_edges line_D) = 5 \<and>
   n_boundary_edges collab_skip (boundary_edges line_D) = 5 \<and>
   n_layers line_D = 1 \<and>
   generate_elements (collab_row (\<lambda>v. False)) env1 line_D = Some (Inl OutOfBounds) \<and>
   generate_elements collab_skip env1 line_D = Some (Inl NullDereference)"
proof -
  have nb: "n_boundary_edges (collab_row (\<lambda>v. False)) (boundary_edges line_D) = 5"
           "n_boundary_edges collab_skip (boundary_edges line_D) = 5"
    by (simp_all add: collab_skip_def collab_row_def line_D_def line_front_def)
  have nl: "n_layers line_D = Suc 0" "first_height line_D = 1 / 2"
    by (simp_all add: line_D_def)
  have pf: "prepare_front (collab_row (\<lambda>v. False))
              (mesh_verts line_D, advancing_front line_D, boundary_edges line_D) =
              Some (Inr (line_verts, line_front, line_front))"
           "prepare_front collab_skip
              (mesh_verts line_D, advancing_front line_D, boundary_edges line_D) =
              Some (Inr (line_verts, line_front, line_front))"
    by (simp_all add: collab_skip_def collab_row_def line_D_def)
  have a: "generate_elements (collab_row (\<lambda>v. False)) env1 line_D = Some (Inl OutOfBounds)"
    unfolding generate_elements_def
    by (simp only: nb pf option.case sum.case prod.case line_D_same nl line_layer_loop_faults)
       simp
  have b: "generate_elements collab_skip env1 line_D = Some (Inl NullDereference)"
    unfolding generate_elements_def
    by (simp only: nb pf option.case sum.case prod.case line_D_same nl line_layer_loop_faults)
       simp
  from nb nl(1) a b show ?thesis by simp
qed

end
